(* ===== verification/Prelude.thy ===== *)
theory Prelude
  imports Main "HOL-Library.Word" "HOL-Library.Code_Target_Numeral"
begin

text \<open>
  Shared vocabulary of the wd-broker development: the collections of simplification rules the
  component theories fill, the machine types of the C sources, array search and update as the
  sources write them with index loops, and the generic contract of a state machine (a step
  function with an invariant) that the broker and its main loop are instances of.
\<close>

section \<open>Collections\<close>

named_theorems ctype_simps \<open>unfolding of the character classes of ctype.h\<close>
named_theorems scan_simps \<open>one step of the scanf interpreter per rule\<close>
named_theorems config_simps \<open>what one line of the configuration file does to the parser\<close>

section \<open>Machine types\<close>

text \<open>The sources are built for Linux on LP64: \<open>unsigned int\<close> has 32 bits, \<open>long\<close> 64.\<close>

type_synonym u32 = "32 word"
type_synonym u8 = "8 word"
type_synonym pid_t = int
type_synonym uid_t = nat
type_synonym gid_t = nat

text \<open>Conversion of a wider signed value to C's \<open>int\<close> and \<open>unsigned int\<close>.\<close>

definition to_int32 :: "int \<Rightarrow> int" where
  "to_int32 v = sint (word_of_int v :: 32 word)"

definition to_uint32 :: "int \<Rightarrow> u32" where
  "to_uint32 v = word_of_int v"

text \<open>C's \<open>/\<close> on signed operands truncates towards zero.\<close>

definition trunc_div :: "int \<Rightarrow> int \<Rightarrow> int" where
  "trunc_div a b = sgn a * sgn b * (\<bar>a\<bar> div \<bar>b\<bar>)"

section \<open>Array search and update\<close>

text \<open>\<open>for (i = 0; i < n; ++i) if (P(a[i])) return i;\<close>, with \<open>None\<close> when no element matches.\<close>

fun find_index :: "('a \<Rightarrow> bool) \<Rightarrow> 'a list \<Rightarrow> nat option" where
  "find_index P [] = None"
| "find_index P (x # xs) = (if P x then Some 0 else map_option Suc (find_index P xs))"

text \<open>\<open>p = &a[i]; *p = f(*p);\<close> for an index in range.\<close>

definition upd_at :: "nat \<Rightarrow> ('a \<Rightarrow> 'a) \<Rightarrow> 'a list \<Rightarrow> 'a list" where
  "upd_at i f xs = xs[i := f (xs ! i)]"

lemma find_index_None [simp]: "find_index P xs = None \<longleftrightarrow> (\<forall>x \<in> set xs. \<not> P x)"
  by (induction xs) auto

lemma find_index_Some:
  "find_index P xs = Some i \<longleftrightarrow>
     i < length xs \<and> P (xs ! i) \<and> (\<forall>j < i. \<not> P (xs ! j))"
proof (induction xs arbitrary: i)
  case Nil
  then show ?case by simp
next
  case (Cons x xs)
  then show ?case by (cases i) (auto simp: All_less_Suc2)
qed

lemma find_index_SomeD:
  assumes "find_index P xs = Some i"
  shows "i < length xs" and "P (xs ! i)"
  using assms by (auto simp: find_index_Some)

lemma find_index_unique:
  assumes "i < length xs" "P (xs ! i)" "\<And>j. j < length xs \<Longrightarrow> P (xs ! j) \<Longrightarrow> j = i"
  shows "find_index P xs = Some i"
  unfolding find_index_Some
proof (intro conjI allI impI assms(1,2) notI)
  fix j assume "j < i" "P (xs ! j)"
  with assms(1,3) have "j = i" by simp
  with \<open>j < i\<close> show False by simp
qed

lemma find_index_cong:
  assumes "length xs = length ys" "\<And>j. j < length xs \<Longrightarrow> P (xs ! j) \<longleftrightarrow> Q (ys ! j)"
  shows "find_index P xs = find_index Q ys"
  using assms
proof (induction xs ys rule: list_induct2)
  case Nil
  then show ?case by simp
next
  case (Cons x xs y ys)
  from Cons.prems [of 0] have "P x \<longleftrightarrow> Q y" by simp
  moreover from Cons.prems [of "Suc _"] have "find_index P xs = find_index Q ys"
    by (intro Cons.IH) fastforce
  ultimately show ?case by simp
qed

lemma map_option_Suc_add: "map_option ((+) (Suc i)) x = map_option (\<lambda>k. Suc (i + k)) x"
  by (cases x) simp_all

lemma length_upd_at [simp]: "length (upd_at i f xs) = length xs"
  by (simp add: upd_at_def)

lemma nth_upd_at [simp]:
  "j < length xs \<Longrightarrow> upd_at i f xs ! j = (if j = i then f (xs ! j) else xs ! j)"
  by (auto simp: upd_at_def nth_list_update)

lemma set_upd_atD: "x \<in> set (upd_at i f xs) \<Longrightarrow> i < length xs \<Longrightarrow> x \<in> set xs \<or> x = f (xs ! i)"
  by (auto simp: upd_at_def dest: set_update_subset_insert [THEN subsetD])

lemma list_all_upd_at:
  assumes "list_all P xs" "i < length xs" "P (f (xs ! i))"
  shows "list_all P (upd_at i f xs)"
  using assms by (auto simp: list_all_iff dest: set_upd_atD)

lemma length_filter_mono: "(\<And>x. P x \<Longrightarrow> Q x) \<Longrightarrow> length (filter P xs) \<le> length (filter Q xs)"
  by (induction xs) auto

lemma upd_at_Cons: "upd_at 0 f (x # xs) = f x # xs" "upd_at (Suc i) f (x # xs) = x # upd_at i f xs"
  by (simp_all add: upd_at_def)

text \<open>An update that keeps the key and the liveness of its slot keeps the list of live keys.\<close>

lemma map_filter_upd_at_same:
  assumes "\<And>x. P (g x) = P x" "\<And>x. f (g x) = f x"
  shows "map f (filter P (upd_at i g xs)) = map f (filter P xs)"
proof (induction xs arbitrary: i)
  case Nil
  show ?case by (simp add: upd_at_def)
next
  case (Cons x xs)
  then show ?case by (cases i) (simp_all add: upd_at_Cons assms)
qed

text \<open>Two slots with the same key are the same slot.\<close>

lemma distinct_map_filter_iff:
  "distinct (map f (filter P xs)) \<longleftrightarrow>
     (\<forall>i < length xs. \<forall>j < length xs. P (xs ! i) \<and> P (xs ! j) \<and> f (xs ! i) = f (xs ! j) \<longrightarrow> i = j)"
proof -
  have "filter P xs = map ((!) xs) (filter (\<lambda>i. P (xs ! i)) [0 ..< length xs])"
    using filter_map [of P "(!) xs" "[0 ..< length xs]"] by (simp add: map_nth comp_def)
  then have "distinct (map f (filter P xs)) \<longleftrightarrow> inj_on (f \<circ> (!) xs) {i. i < length xs \<and> P (xs ! i)}"
    by (simp add: distinct_map)
  also have "\<dots> \<longleftrightarrow> (\<forall>i < length xs. \<forall>j < length xs.
      P (xs ! i) \<and> P (xs ! j) \<and> f (xs ! i) = f (xs ! j) \<longrightarrow> i = j)"
    by (auto simp: inj_on_def)
  finally show ?thesis .
qed

lemma distinct_map_filterD:
  assumes "distinct (map f (filter P xs))" "i < length xs" "j < length xs"
    "P (xs ! i)" "P (xs ! j)" "f (xs ! i) = f (xs ! j)"
  shows "i = j"
  using assms by (simp add: distinct_map_filter_iff)

text \<open>Replacing one slot keeps keys distinct when no other live slot has the new key.\<close>

lemma distinct_map_filter_upd_at:
  assumes "distinct (map f (filter P xs))" "i < length xs"
    and new: "P (g (xs ! i)) \<Longrightarrow> (\<And>j. j < length xs \<Longrightarrow> j \<noteq> i \<Longrightarrow> P (xs ! j) \<Longrightarrow> f (xs ! j) \<noteq> f (g (xs ! i)))"
  shows "distinct (map f (filter P (upd_at i g xs)))"
  unfolding distinct_map_filter_iff length_upd_at
proof (intro allI impI)
  fix j k
  assume jk: "j < length xs" "k < length xs"
    and eq: "P (upd_at i g xs ! j) \<and> P (upd_at i g xs ! k) \<and> f (upd_at i g xs ! j) = f (upd_at i g xs ! k)"
  show "j = k"
  proof (cases "j = i \<or> k = i")
    case True
    with jk eq new show ?thesis by (cases "j = i"; cases "k = i") auto
  next
    case False
    with jk eq show ?thesis using distinct_map_filterD [OF assms(1)] by simp
  qed
qed

section \<open>Machines with an invariant\<close>

text \<open>
  A machine that reacts to events and an invariant every reaction keeps. The operations of the
  client table and the iterations of the main loop are such machines; what holds of whole runs
  is proved here once.
\<close>

primrec run :: "('s \<Rightarrow> 'e \<Rightarrow> 's) \<Rightarrow> 's \<Rightarrow> 'e list \<Rightarrow> 's" where
  "run step s [] = s"
| "run step s (e # es) = run step (step s e) es"

inductive reachable :: "('s \<Rightarrow> 'e \<Rightarrow> 's) \<Rightarrow> 's \<Rightarrow> 's \<Rightarrow> bool" for step s0 where
  start: "reachable step s0 s0"
| step: "reachable step s0 s \<Longrightarrow> reachable step s0 (step s e)"

lemma run_append: "run step s (xs @ ys) = run step (run step s xs) ys"
  by (induction xs arbitrary: s) simp_all

lemma reachable_iff_run: "reachable step s0 s \<longleftrightarrow> (\<exists>es. s = run step s0 es)"
proof
  show "reachable step s0 s \<Longrightarrow> \<exists>es. s = run step s0 es"
  proof (induction rule: reachable.induct)
    case start
    show ?case by (rule exI [of _ "[]"]) simp
  next
    case (step s e)
    then obtain es where "s = run step s0 es" by blast
    then have "step s e = run step s0 (es @ [e])" by (simp add: run_append)
    then show ?case by blast
  qed
  show "reachable step s0 s" if "\<exists>es. s = run step s0 es"
  proof -
    have "reachable step s0 (run step s es)" if "reachable step s0 s" for s es
      using that by (induction es arbitrary: s) (auto intro: reachable.step)
    then show ?thesis using that reachable.start by metis
  qed
qed

text \<open>\<open>guard\<close> restricts the events a run consists of, e.g. to commands of unprivileged peers.\<close>

locale guarded_machine =
  fixes step :: "'s \<Rightarrow> 'e \<Rightarrow> 's" and inv :: "'s \<Rightarrow> bool" and guard :: "'e \<Rightarrow> bool"
  assumes guarded_step: "inv s \<Longrightarrow> guard e \<Longrightarrow> inv (step s e)"
begin

lemma guarded_run: "inv s \<Longrightarrow> list_all guard es \<Longrightarrow> inv (run step s es)"
  by (induction es arbitrary: s) (simp_all add: guarded_step)

end

locale invariant_machine =
  fixes step :: "'s \<Rightarrow> 'e \<Rightarrow> 's" and inv :: "'s \<Rightarrow> bool"
  assumes step_inv: "inv s \<Longrightarrow> inv (step s e)"

sublocale invariant_machine \<subseteq> any: guarded_machine step inv "\<lambda>_. True"
  by unfold_locales (rule step_inv)

context invariant_machine
begin

lemma run_inv: "inv s \<Longrightarrow> inv (run step s es)"
  using any.guarded_run by (simp add: list_all_iff)

lemma reachable_inv: "reachable step s0 s \<Longrightarrow> inv s0 \<Longrightarrow> inv s"
  by (auto simp: reachable_iff_run run_inv)

end

end
