(* ===== verification/C_Library.thy ===== *)
theory C_Library
  imports Prelude
begin

text \<open>
  The part of the C library the sources call, as executable functions on NUL-free character
  lists: the character classes of ctype.h in the C locale (no program of the repository calls
  setlocale), string comparison and copying, decimal conversion in both directions with glibc's
  rules on LP64 (strtol and strtoul saturate at 64 bits and the result is then cut to 32 bits),
  a scanf interpreter for the conversions the sources use, and snprintf into a bounded buffer.
\<close>

section \<open>ctype.h\<close>

abbreviation ord :: "char \<Rightarrow> nat" where
  "ord c \<equiv> of_char c"

definition isspace :: "char \<Rightarrow> bool" where
  [ctype_simps]: "isspace c \<longleftrightarrow> ord c = 32 \<or> (9 \<le> ord c \<and> ord c \<le> 13)"

definition isprint :: "char \<Rightarrow> bool" where
  [ctype_simps]: "isprint c \<longleftrightarrow> 32 \<le> ord c \<and> ord c \<le> 126"

definition isdigit :: "char \<Rightarrow> bool" where
  [ctype_simps]: "isdigit c \<longleftrightarrow> 48 \<le> ord c \<and> ord c \<le> 57"

definition isxdigit :: "char \<Rightarrow> bool" where
  [ctype_simps]: "isxdigit c \<longleftrightarrow> isdigit c \<or> (65 \<le> ord c \<and> ord c \<le> 70) \<or> (97 \<le> ord c \<and> ord c \<le> 102)"

definition tolower :: "char \<Rightarrow> char" where
  [ctype_simps]: "tolower c = (if 65 \<le> ord c \<and> ord c \<le> 90 then char_of (ord c + 32) else c)"

section \<open>string.h\<close>

text \<open>
  A C string is the part of its buffer before the first NUL. \<open>strcmp(a, b) == 0\<close> is equality of
  such lists, \<open>strlen\<close> is \<open>length\<close>, and \<open>strncmp(a, b, n) == 0\<close> compares at most \<open>n\<close>
  characters, the terminator included.
\<close>

definition NUL :: char where
  "NUL = CHR 0x00"

definition cstr :: "string \<Rightarrow> string" where
  "cstr buf = takeWhile (\<lambda>c. c \<noteq> NUL) buf"

definition strncmp_eq :: "string \<Rightarrow> string \<Rightarrow> nat \<Rightarrow> bool" where
  "strncmp_eq a b n \<longleftrightarrow> take n a = take n b"

text \<open>What \<open>strncpy(dst, src, n)\<close> leaves in a destination whose remaining bytes are NUL.\<close>

definition strncpy :: "string \<Rightarrow> nat \<Rightarrow> string" where
  "strncpy src n = take n src"

text \<open>\<open>strncat(dst, src, n)\<close> appends at most \<open>n\<close> characters.\<close>

definition strncat :: "string \<Rightarrow> string \<Rightarrow> nat \<Rightarrow> string" where
  "strncat dst src n = dst @ take n src"

text \<open>\<open>strstr(s, pat)\<close>: the suffix of \<open>s\<close> that starts at the first occurrence of \<open>pat\<close>.\<close>

fun strstr :: "string \<Rightarrow> string \<Rightarrow> string option" where
  "strstr [] pat = (if pat = [] then Some [] else None)"
| "strstr (c # s) pat =
     (if take (length pat) (c # s) = pat then Some (c # s) else strstr s pat)"

section \<open>Decimal numbers\<close>

definition digit_char :: "nat \<Rightarrow> char" where
  "digit_char d = char_of (48 + d)"

definition digit_val :: "char \<Rightarrow> nat" where
  "digit_val c = ord c - 48"

text \<open>The output of \<open>%u\<close>, \<open>%zu\<close> and, with a sign, of \<open>%d\<close>.\<close>

fun show_nat :: "nat \<Rightarrow> string" where
  "show_nat n = (if n < 10 then [digit_char n] else show_nat (n div 10) @ [digit_char (n mod 10)])"

declare show_nat.simps [simp del]

definition show_int :: "int \<Rightarrow> string" where
  "show_int i = (if i < 0 then CHR ''-'' # show_nat (nat (- i)) else show_nat (nat i))"

definition show_u32 :: "u32 \<Rightarrow> string" where
  "show_u32 w = show_nat (unat w)"

definition read_nat :: "string \<Rightarrow> nat" where
  "read_nat ds = foldl (\<lambda>a c. 10 * a + digit_val c) 0 ds"

text \<open>\<open>strtoul\<close> and \<open>strtol\<close> of a sign and a non-empty run of digits, with their saturation.\<close>

definition strtoul :: "bool \<Rightarrow> string \<Rightarrow> nat" where
  "strtoul neg ds =
     (let v = read_nat ds
      in if 2 ^ 64 \<le> v then 2 ^ 64 - 1
         else if neg then (2 ^ 64 - v) mod 2 ^ 64 else v)"

definition strtol :: "bool \<Rightarrow> string \<Rightarrow> int" where
  "strtol neg ds =
     (let v = int (read_nat ds)
      in if neg then max (- (2 ^ 63)) (- v) else min (2 ^ 63 - 1) v)"

text \<open>An optional sign in front of the digits.\<close>

definition scan_sign :: "string \<Rightarrow> bool \<times> string" where
  "scan_sign s =
     (case s of
        c # r \<Rightarrow> if c = CHR ''-'' then (True, r) else if c = CHR ''+'' then (False, r) else (False, s)
      | [] \<Rightarrow> (False, []))"

text \<open>\<open>atoi\<close>: leading white space, a sign, the longest run of digits (0 when there is none).\<close>

definition atoi :: "string \<Rightarrow> int" where
  "atoi s = (let (neg, r) = scan_sign (dropWhile isspace s)
             in to_int32 (strtol neg (takeWhile isdigit r)))"

section \<open>sscanf\<close>

text \<open>
  The conversions the format strings of the repository use. White space in a format is \<open>Ws\<close>, any
  other character \<open>Lit\<close>; \<open>Str w\<close> is \<open>%ws\<close>, \<open>NotIn w c\<close> is \<open>%w[^c]\<close>, \<open>Uint\<close> is \<open>%u\<close> and \<open>Sint\<close> is
  \<open>%d\<close>.
\<close>

datatype directive = Ws | Lit char | Str nat | NotIn nat char | Uint | Sint

datatype scan_val = SStr string | SUint u32 | SInt int

text \<open>
  \<open>scan\<close> yields the converted values in order and whether it stopped at the end of the input.
  An integer conversion reads the sign even when no digit follows and then fails.
\<close>

fun scan :: "directive list \<Rightarrow> string \<Rightarrow> scan_val list \<times> bool" where
  "scan [] s = ([], False)"
| "scan (Ws # ds) s = scan ds (dropWhile isspace s)"
| "scan (Lit c # ds) s =
     (case s of [] \<Rightarrow> ([], True) | x # r \<Rightarrow> if x = c then scan ds r else ([], False))"
| "scan (Str w # ds) s =
     (let s' = dropWhile isspace s; t = take w (takeWhile (\<lambda>c. \<not> isspace c) s')
      in if s' = [] then ([], True)
         else apfst ((#) (SStr t)) (scan ds (drop (length t) s')))"
| "scan (NotIn w c # ds) s =
     (let t = take w (takeWhile (\<lambda>x. x \<noteq> c) s)
      in if s = [] then ([], True) else if t = [] then ([], False)
         else apfst ((#) (SStr t)) (scan ds (drop (length t) s)))"
| "scan (Uint # ds) s =
     (let s' = dropWhile isspace s; (neg, r) = scan_sign s'; t = takeWhile isdigit r
      in if s' = [] then ([], True) else if t = [] then ([], False)
         else apfst ((#) (SUint (word_of_nat (strtoul neg t)))) (scan ds (drop (length t) r)))"
| "scan (Sint # ds) s =
     (let s' = dropWhile isspace s; (neg, r) = scan_sign s'; t = takeWhile isdigit r
      in if s' = [] then ([], True) else if t = [] then ([], False)
         else apfst ((#) (SInt (to_int32 (strtol neg t)))) (scan ds (drop (length t) r)))"

text \<open>The return value of sscanf: the number of conversions, or EOF (\<open>-1\<close>).\<close>

definition sscanf :: "string \<Rightarrow> directive list \<Rightarrow> int \<times> scan_val list" where
  "sscanf s fmt =
     (let (vs, eof) = scan fmt s in (if vs = [] \<and> eof then -1 else int (length vs), vs))"

section \<open>snprintf\<close>

text \<open>What \<open>snprintf(buf, n, ...)\<close> stores in a buffer of \<open>n > 0\<close> bytes for the output \<open>txt\<close>.\<close>

definition snprintf :: "nat \<Rightarrow> string \<Rightarrow> string" where
  "snprintf n txt = take (n - 1) txt"

text \<open>
  \<open>off += snprintf(msg + off, sizeof(msg) - off, ...)\<close>, the idiom of the status and version
  replies: the text stored so far and the running offset. \<open>snprintf\<close> returns the length it would
  have needed, so the offset may pass the end of the buffer; the next call then computes
  \<open>sizeof(msg) - off\<close> in \<open>size_t\<close>, which wraps to a huge bound, and writes behind the array:
  \<open>None\<close>.
\<close>

type_synonym appender = "string \<times> nat"

definition snprintf_app :: "nat \<Rightarrow> string \<Rightarrow> appender \<Rightarrow> appender option" where
  "snprintf_app sz txt b =
     (let (msg, off) = b
      in if sz < off then None
         else Some (if off = sz then msg else take off msg @ take (sz - off - 1) txt, off + length txt))"

fun snprintf_all :: "nat \<Rightarrow> string list \<Rightarrow> appender \<Rightarrow> appender option" where
  "snprintf_all sz [] b = Some b"
| "snprintf_all sz (t # ts) b = Option.bind (snprintf_app sz t b) (snprintf_all sz ts)"

text \<open>
  \<open>write(fd, msg, off)\<close> of a zero-initialised array of \<open>sz\<close> bytes: the bytes sent, \<open>None\<close> when
  the call reads behind the array.
\<close>

definition write_buf :: "nat \<Rightarrow> appender \<Rightarrow> string option" where
  "write_buf sz b =
     (let (msg, off) = b
      in if sz < off then None else Some (msg @ replicate (off - length msg) NUL))"

section \<open>Characters and digits\<close>

lemma cstr_without_NUL: "NUL \<notin> set s \<Longrightarrow> cstr s = s"
  by (auto simp: cstr_def)

lemma ord_less [simp]: "ord c < 256"
  by (cases c) (simp add: of_char_def horner_sum_simps)

lemma ord_char_of [simp]: "n < 256 \<Longrightarrow> ord (char_of n) = n"
  by simp

lemma ord_digit_char [simp]: "d < 10 \<Longrightarrow> ord (digit_char d) = 48 + d"
  by (simp add: digit_char_def)

lemma isdigit_digit_char [simp]: "d < 10 \<Longrightarrow> isdigit (digit_char d)"
  by (simp add: isdigit_def)

lemma digit_val_digit_char [simp]: "d < 10 \<Longrightarrow> digit_val (digit_char d) = d"
  by (simp add: digit_val_def)

lemma isdigit_not_isspace: "isdigit c \<Longrightarrow> \<not> isspace c"
  by (auto simp: isdigit_def isspace_def)

lemma isxdigit_not_isspace: "isxdigit c \<Longrightarrow> \<not> isspace c"
  by (auto simp: isdigit_def isxdigit_def isspace_def)

lemma isdigit_not_sign:
  assumes "isdigit c"
  shows "c \<noteq> CHR ''-''" and "c \<noteq> CHR ''+''"
  using assms by (auto simp: isdigit_def)

lemma NUL_not_isspace [simp]: "\<not> isspace NUL"
  by (simp add: NUL_def isspace_def)

section \<open>Printing and reading decimals\<close>

lemma show_nat_digits: "c \<in> set (show_nat n) \<Longrightarrow> isdigit c"
proof (induction n rule: show_nat.induct)
  case (1 n)
  then show ?case
    by (cases "n < 10") (auto simp: show_nat.simps [of n])
qed

lemma show_nat_nonempty [simp]: "show_nat n \<noteq> []"
  by (subst show_nat.simps) simp

lemma read_nat_snoc: "read_nat (ds @ [c]) = 10 * read_nat ds + digit_val c"
  by (simp add: read_nat_def)

lemma read_nat_show_nat [simp]: "read_nat (show_nat n) = n"
proof (induction n rule: show_nat.induct)
  case (1 n)
  show ?case
  proof (cases "n < 10")
    case True
    then show ?thesis by (simp add: show_nat.simps [of n] read_nat_def)
  next
    case False
    then have "show_nat n = show_nat (n div 10) @ [digit_char (n mod 10)]"
      by (subst show_nat.simps) simp
    with 1 False show ?thesis by (simp add: read_nat_snoc)
  qed
qed

lemma length_show_nat: "n < 10 ^ k \<Longrightarrow> 0 < k \<Longrightarrow> length (show_nat n) \<le> k"
proof (induction k arbitrary: n)
  case 0
  then show ?case by simp
next
  case (Suc k)
  show ?case
  proof (cases "n < 10")
    case True
    then show ?thesis by (simp add: show_nat.simps [of n])
  next
    case False
    with Suc.prems have "n div 10 < 10 ^ k" "0 < k"
      by (cases k; simp add: less_mult_imp_div_less mult.commute)+
    with Suc.IH have "length (show_nat (n div 10)) \<le> k" by blast
    with False show ?thesis by (subst show_nat.simps) simp
  qed
qed

lemma length_show_nat_ge: "10 ^ k \<le> n \<Longrightarrow> Suc k \<le> length (show_nat n)"
proof (induction k arbitrary: n)
  case 0
  have "0 < length (show_nat n)" by simp
  then show ?case by linarith
next
  case (Suc k)
  have "(1::nat) \<le> 10 ^ k" by simp
  with Suc.prems have ten: "\<not> n < 10" unfolding power_Suc by linarith
  from Suc.prems have "10 ^ k \<le> n div 10"
    by (simp add: less_eq_div_iff_mult_less_eq mult.commute)
  with Suc.IH have "Suc k \<le> length (show_nat (n div 10))" by blast
  with ten show ?case by (subst show_nat.simps) simp
qed

section \<open>Scanning what was printed\<close>

text \<open>
  Words of the wire protocol: non-empty and without white space, followed by white space or the
  end of the message.
\<close>

definition word_ok :: "string \<Rightarrow> bool" where
  "word_ok t \<longleftrightarrow> t \<noteq> [] \<and> list_all (\<lambda>c. \<not> isspace c) t"

definition ends_word :: "string \<Rightarrow> bool" where
  "ends_word r \<longleftrightarrow> r = [] \<or> isspace (hd r)"

lemma ends_word_simps [simp]: "ends_word []" "ends_word (c # r) \<longleftrightarrow> isspace c"
  by (simp_all add: ends_word_def)

lemma word_ok_show_nat [simp]: "word_ok (show_nat n)"
  by (auto simp: word_ok_def list_all_iff dest: show_nat_digits isdigit_not_isspace)

lemma takeWhile_app_stop:
  "list_all P t \<Longrightarrow> r = [] \<or> \<not> P (hd r) \<Longrightarrow> takeWhile P (t @ r) = t"
  by (induction t) (auto simp: takeWhile_eq_Nil_iff)

lemma dropWhile_app_stop:
  "list_all P r \<Longrightarrow> s = [] \<or> \<not> P (hd s) \<Longrightarrow> dropWhile P (r @ s) = s"
  by (induction r) (auto simp: dropWhile_eq_self_iff)

lemma takeWhile_upto: "c \<notin> set t \<Longrightarrow> takeWhile (\<lambda>x. x \<noteq> c) (t @ c # r) = t"
  by (rule takeWhile_app_stop) (auto simp: list_all_iff)

lemma takeWhile_without: "c \<notin> set t \<Longrightarrow> takeWhile (\<lambda>x. x \<noteq> c) t = t"
  by auto

lemma dropWhile_word: "word_ok t \<Longrightarrow> dropWhile isspace (t @ r) = t @ r"
  by (cases t) (auto simp: word_ok_def)

lemma takeWhile_word:
  "word_ok t \<Longrightarrow> ends_word r \<Longrightarrow> takeWhile (\<lambda>c. \<not> isspace c) (t @ r) = t"
  by (rule takeWhile_app_stop) (auto simp: word_ok_def ends_word_def)

lemma takeWhile_show_nat: "ends_word r \<Longrightarrow> takeWhile isdigit (show_nat n @ r) = show_nat n"
  by (rule takeWhile_app_stop)
     (auto simp: list_all_iff ends_word_def dest: show_nat_digits isdigit_not_isspace)

lemma hd_show_nat: "isdigit (hd (show_nat n))"
  by (rule show_nat_digits [of _ n]) simp

lemma scan_sign_show_nat [simp]: "scan_sign (show_nat n @ r) = (False, show_nat n @ r)"
proof -
  obtain c t where ct: "show_nat n = c # t" by (cases "show_nat n") simp_all
  with hd_show_nat [of n] have "isdigit c" by simp
  with ct show ?thesis by (simp add: scan_sign_def isdigit_not_sign)
qed

lemma scan_Str_word [scan_simps]:
  assumes "word_ok t" "length t \<le> w" "ends_word r"
  shows "scan (Str w # ds) (t @ r) = apfst ((#) (SStr t)) (scan ds r)"
  using assms by (simp add: dropWhile_word takeWhile_word Let_def) (simp add: word_ok_def)

lemma scan_Uint_word [scan_simps]:
  assumes "ends_word r" "n < 2 ^ 64"
  shows "scan (Uint # ds) (show_nat n @ r) = apfst ((#) (SUint (word_of_nat n))) (scan ds r)"
  using assms
  by (simp add: dropWhile_word takeWhile_show_nat Let_def strtoul_def)

lemma scan_sign_show_int:
  "scan_sign (show_int i @ r) = (i < 0, show_nat (nat \<bar>i\<bar>) @ r)"
  by (auto simp: show_int_def scan_sign_show_nat) (simp add: scan_sign_def)

lemma word_ok_show_int [simp]: "word_ok (show_int i)"
  using word_ok_show_nat [of "nat (- i)"] word_ok_show_nat [of "nat i"]
  by (simp add: show_int_def word_ok_def) (simp add: isspace_def)

lemma to_int32_id: "- (2 ^ 31) \<le> i \<Longrightarrow> i < 2 ^ 31 \<Longrightarrow> to_int32 i = i"
  by (simp add: to_int32_def sint_sbintrunc' signed_take_bit_int_eq_self)

lemma strtol_show_nat:
  assumes "- (2 ^ 31) \<le> i" "i < 2 ^ 31"
  shows "strtol (i < 0) (show_nat (nat \<bar>i\<bar>)) = i"
  using assms by (auto simp: strtol_def Let_def)

lemma scan_Sint_word [scan_simps]:
  assumes "ends_word r" "- (2 ^ 31) \<le> i" "i < 2 ^ 31"
  shows "scan (Sint # ds) (show_int i @ r) = apfst ((#) (SInt i)) (scan ds r)"
proof -
  have ne: "show_int i @ r \<noteq> []" using word_ok_show_int [of i] by (auto simp: word_ok_def)
  from strtol_show_nat [OF assms(2,3)] to_int32_id [OF assms(2,3)] assms(1) ne show ?thesis
    by (simp add: dropWhile_word scan_sign_show_int takeWhile_show_nat Let_def del: append_is_Nil_conv)
qed

lemma atoi_word:
  assumes "ends_word r" "- (2 ^ 31) \<le> i" "i < 2 ^ 31"
  shows "atoi (show_int i @ r) = i"
  using assms by (simp add: atoi_def dropWhile_word scan_sign_show_int takeWhile_show_nat strtol_show_nat to_int32_id)

lemma scan_Ws_space [scan_simps]: "isspace c \<Longrightarrow> scan (Ws # ds) (c # s) = scan (Ws # ds) s"
  by simp

lemma scan_Ws_word [scan_simps]: "word_ok t \<Longrightarrow> scan (Ws # ds) (t @ r) = scan ds (t @ r)"
  by (simp add: dropWhile_word)

text \<open>At the end of the message every further conversion fails.\<close>

lemma scan_blank: "list_all isspace r \<Longrightarrow> fst (scan (Ws # Str w # ds) r) = []"
  by (simp add: Let_def dropWhile_eq_Nil_conv list_all_iff)

text \<open>
  The contract between the side that prints a value and the side that scans it: the broker and
  its clients rely on it for every argument of the protocol.
\<close>

locale wire_token =
  fixes enc :: "'a \<Rightarrow> string" and conv :: directive and val :: "'a \<Rightarrow> scan_val"
    and valid :: "'a \<Rightarrow> bool"
  assumes enc_word: "valid x \<Longrightarrow> word_ok (enc x)"
    and scan_enc: "valid x \<Longrightarrow> ends_word r \<Longrightarrow>
      scan (conv # ds) (enc x @ r) = apfst ((#) (val x)) (scan ds r)"
begin

lemma scan_last: "valid x \<Longrightarrow> scan [conv] (enc x) = ([val x], False)"
  using scan_enc [of x "[]" "[]"] by simp

text \<open>A value, one space, and the next word.\<close>

lemma scan_then:
  assumes "valid x" "word_ok t"
  shows "scan (conv # Ws # ds) (enc x @ CHR '' '' # t @ r) =
         apfst ((#) (val x)) (scan ds (t @ r))"
  using assms by (simp add: scan_enc isspace_def dropWhile_word)

text \<open>A value followed by white space only: later conversions find nothing.\<close>

lemma scan_final:
  assumes "valid x" "list_all isspace r"
  shows "fst (scan (conv # Ws # Str w # ds) (enc x @ r)) = [val x]"
proof -
  from assms(2) have "ends_word r" by (cases r) auto
  with assms(1) have "scan (conv # Ws # Str w # ds) (enc x @ r) =
      apfst ((#) (val x)) (scan (Ws # Str w # ds) r)" by (rule scan_enc)
  with scan_blank [OF assms(2), of w ds] show ?thesis by (simp del: scan.simps)
qed

end

interpretation uint_token: wire_token show_u32 Uint SUint "\<lambda>_. True"
proof
  fix w :: u32 and r ds
  have "unat w < 2 ^ 64"
    using unsigned_less [of w] order.strict_trans2 by fastforce
  then show "ends_word r \<Longrightarrow> scan (Uint # ds) (show_u32 w @ r) = apfst ((#) (SUint w)) (scan ds r)"
    unfolding show_u32_def by (subst scan_Uint_word) simp_all
qed (simp add: show_u32_def)

interpretation sint_token: wire_token show_int Sint SInt "\<lambda>i. - (2 ^ 31) \<le> i \<and> i < 2 ^ 31"
  by unfold_locales (simp_all only: word_ok_show_int scan_Sint_word)

interpretation str_token: wire_token "\<lambda>t. t" "Str w" SStr "\<lambda>t. word_ok t \<and> length t \<le> w" for w
  by unfold_locales (auto simp only: scan_Str_word)

section \<open>Words of a line\<close>

text \<open>Reference splitting of a line at white space, against which the scanf formats are compared.\<close>

function tokens :: "string \<Rightarrow> string list" where
  "tokens s =
     (let s' = dropWhile isspace s
      in if s' = [] then []
         else takeWhile (\<lambda>c. \<not> isspace c) s' # tokens (dropWhile (\<lambda>c. \<not> isspace c) s'))"
  by pat_completeness auto
termination
proof (relation "measure length")
  fix s s' :: string
  assume s': "s' = dropWhile isspace s" and ne: "s' \<noteq> []"
  from ne obtain c r where cr: "s' = c # r" by (cases s') simp_all
  with s' have "\<not> isspace c" by (metis hd_dropWhile list.sel(1) list.simps(3))
  then have "length (dropWhile (\<lambda>c. \<not> isspace c) s') \<le> length r"
    using cr by (simp add: length_dropWhile_le)
  also have "\<dots> < length s'" using cr by simp
  also have "\<dots> \<le> length s" unfolding s' by (rule length_dropWhile_le)
  finally show "(dropWhile (\<lambda>c. \<not> isspace c) s', s) \<in> measure length" by simp
qed simp

declare tokens.simps [simp del]

lemma tokens_blank: "list_all isspace r \<Longrightarrow> tokens r = []"
  by (subst tokens.simps) (simp add: dropWhile_eq_Nil_conv list_all_iff)

lemma tokens_dropWhile: "tokens (dropWhile isspace s) = tokens s"
  by (subst (1 2) tokens.simps) simp

lemma tokens_word: "word_ok t \<Longrightarrow> ends_word r \<Longrightarrow> tokens (t @ r) = t # tokens r"
proof -
  assume t: "word_ok t" and r: "ends_word r"
  have "dropWhile (\<lambda>c. \<not> isspace c) (t @ r) = r"
    using t r by (auto simp: word_ok_def ends_word_def list_all_iff dropWhile_append2
        intro!: dropWhile_eq_self_iff [THEN iffD2])
  with t r show ?thesis
    by (subst tokens.simps) (auto simp: dropWhile_word takeWhile_word word_ok_def)
qed

lemma tokens_space: "isspace c \<Longrightarrow> tokens (c # s) = tokens s"
  by (subst (1 2) tokens.simps) simp

lemma tokens_eq_Nil: "tokens s = [] \<longleftrightarrow> dropWhile isspace s = []"
  by (subst tokens.simps) (simp add: Let_def)

lemma tokens_words: "t \<in> set (tokens s) \<Longrightarrow> word_ok t"
proof (induction s rule: tokens.induct)
  case (1 s)
  let ?s = "dropWhile isspace s"
  show ?case
  proof (cases "?s = []")
    case True
    with 1 show ?thesis by (simp add: tokens.simps [of s])
  next
    case False
    then have "\<not> isspace (hd ?s)" by (rule hd_dropWhile)
    with False have "word_ok (takeWhile (\<lambda>c. \<not> isspace c) ?s)"
      by (auto simp: word_ok_def list_all_iff takeWhile_eq_Nil_iff dest: set_takeWhileD)
    moreover from False have "tokens s =
        takeWhile (\<lambda>c. \<not> isspace c) ?s # tokens (dropWhile (\<lambda>c. \<not> isspace c) ?s)"
      by (subst tokens.simps) (simp add: Let_def)
    ultimately show ?thesis using "1.prems" "1.IH" [OF refl False] by auto
  qed
qed

lemma tokens_ConsE:
  assumes "tokens s = t # ts"
  obtains r where "dropWhile isspace s = t @ r" "word_ok t" "ts = tokens r"
    "takeWhile (\<lambda>c. \<not> isspace c) (t @ r) = t"
proof -
  let ?s = "dropWhile isspace s"
  from assms have "?s \<noteq> []" using tokens_eq_Nil [of s] by fastforce
  then have "tokens s = takeWhile (\<lambda>c. \<not> isspace c) ?s # tokens (dropWhile (\<lambda>c. \<not> isspace c) ?s)"
    by (subst tokens.simps) (simp add: Let_def)
  with assms have t: "t = takeWhile (\<lambda>c. \<not> isspace c) ?s" "ts = tokens (dropWhile (\<lambda>c. \<not> isspace c) ?s)"
    by simp_all
  have split: "?s = t @ dropWhile (\<lambda>c. \<not> isspace c) ?s" unfolding t(1) by simp
  have tw: "takeWhile (\<lambda>c. \<not> isspace c) (t @ dropWhile (\<lambda>c. \<not> isspace c) ?s) = t"
    unfolding split [symmetric] by (rule t(1) [symmetric])
  have "word_ok t" using tokens_words [of t s] assms by simp
  from split this t(2) tw show thesis by (rule that)
qed

section \<open>Bounded buffers\<close>

text \<open>While everything fits, the buffer holds the concatenation and the offset is its length.\<close>

lemma snprintf_all_fits:
  assumes "length msg + length (concat ts) < sz"
  shows "snprintf_all sz ts (msg, length msg) = Some (msg @ concat ts, length msg + length (concat ts))"
  using assms
proof (induction ts arbitrary: msg)
  case Nil
  then show ?case by simp
next
  case (Cons t ts)
  then have "snprintf_app sz t (msg, length msg) = Some (msg @ t, length (msg @ t))"
    by (simp add: snprintf_app_def)
  with Cons.IH [of "msg @ t"] Cons.prems show ?case by simp
qed

lemma write_buf_fits: "length msg \<le> sz \<Longrightarrow> write_buf sz (msg, length msg) = Some msg"
  by (simp add: write_buf_def)

text \<open>Once the offset has passed the end, one more call writes behind the buffer.\<close>

lemma snprintf_all_overflow:
  assumes "sz < off + length (concat (butlast ts))" "ts \<noteq> []"
  shows "snprintf_all sz ts (msg, off) = None"
  using assms
proof (induction ts arbitrary: msg off)
  case Nil
  then show ?case by simp
next
  case (Cons t ts)
  show ?case
  proof (cases "sz < off \<or> ts = []")
    case True
    with Cons.prems show ?thesis by (auto simp: snprintf_app_def)
  next
    case False
    then obtain m where "snprintf_app sz t (msg, off) = Some (m, off + length t)"
      by (simp add: snprintf_app_def)
    with False Cons show ?thesis by simp
  qed
qed

end
