(* ===== verification/Common.thy ===== *)
theory Common
  imports C_Library
begin

text \<open>
  common.c and common.h: the commands of the protocol, the two ways the programs give up
  (fatal_error, fatal_errno) and the read with a timeout that broker, library and control tool
  use on their sockets. Values the build generates into config.h are the fields of
  \<open>build_config\<close>, a parameter of every definition that uses them.
\<close>

section \<open>Constants\<close>

record build_config =
  SOCKET_PATH_DEFAULT :: string
  SERVICE_USER_DEFAULT :: string
  WD_MAX_CLIENTS :: nat
  PACKAGE_VERSION :: string
  SYSCONFDIR :: string

definition SOCKET_PROT_VERSION :: string where
  "SOCKET_PROT_VERSION = ''1.0''"

definition CMD_REGISTER :: string where
  "CMD_REGISTER = ''REGISTER ''"

definition CMD_PING :: string where
  "CMD_PING = ''PING ''"

definition CMD_UNREGISTER :: string where
  "CMD_UNREGISTER = ''UNREGISTER ''"

definition CMD_REBOOT :: string where
  "CMD_REBOOT = ''REBOOT''"

definition CMD_STATUS :: string where
  "CMD_STATUS = ''STATUS''"

definition CMD_VERSION :: string where
  "CMD_VERSION = ''VERSION''"

lemmas command_defs =
  CMD_REGISTER_def CMD_PING_def CMD_UNREGISTER_def CMD_REBOOT_def CMD_STATUS_def CMD_VERSION_def

definition WD_CLIENT_NAME_LEN :: nat where
  "WD_CLIENT_NAME_LEN = 64"

definition WD_CLIENTID_LEN :: nat where
  "WD_CLIENTID_LEN = 17"

definition WD_CLIENT_TIMEOUT_MIN_MS :: u32 where
  "WD_CLIENT_TIMEOUT_MIN_MS = 5 * 1000"

definition WD_CLIENT_TIMEOUT_MAX_MS :: u32 where
  "WD_CLIENT_TIMEOUT_MAX_MS = 300 * 1000"

text \<open>\<open>sizeof(sun_path)\<close> of Linux.\<close>

definition WD_CLIENT_SOCKPATH_LEN :: nat where
  "WD_CLIENT_SOCKPATH_LEN = 108"

section \<open>Giving up\<close>

text \<open>What a process leaves behind when it ends: the text on stderr and its exit status.\<close>

record exit_report =
  to_stderr :: string
  exit_code :: int

definition EXIT_FAILURE :: int where
  "EXIT_FAILURE = 1"

definition EXIT_SUCCESS :: int where
  "EXIT_SUCCESS = 0"

definition fatal_error :: "string \<Rightarrow> exit_report" where
  "fatal_error msg = \<lparr>to_stderr = ''Error: '' @ msg @ ''\<newline>'', exit_code = EXIT_FAILURE\<rparr>"

text \<open>The second argument is the text \<open>strerror(errno)\<close> yields.\<close>

definition fatal_errno :: "string \<Rightarrow> string \<Rightarrow> exit_report" where
  "fatal_errno ctxt err =
     \<lparr>to_stderr = ''Error: '' @ ctxt @ '' ('' @ err @ '')\<newline>'', exit_code = EXIT_FAILURE\<rparr>"

section \<open>Reading with a timeout\<close>

datatype select_result = Select_error | Select_timeout | Select_ready

datatype read_result = Read_error | Read_packet string

text \<open>
  The result is the return value and, when bytes were stored, the new content of the buffer
  (the terminating NUL written after it). On a SOCK_SEQPACKET socket one read takes one packet and
  drops what does not fit. \<open>select\<close> is called once with \<open>WD_READ_TIMEOUT_MS\<close>.
\<close>

definition WD_READ_TIMEOUT_MS :: nat where
  "WD_READ_TIMEOUT_MS = 500"

definition read_with_timeout ::
    "select_result \<Rightarrow> read_result \<Rightarrow> nat \<Rightarrow> int \<times> string option" where
  "read_with_timeout sel rd buffer_size =
     (case sel of
        Select_error \<Rightarrow> (-1, None)
      | Select_timeout \<Rightarrow> (0, None)
      | Select_ready \<Rightarrow>
          (case rd of
             Read_error \<Rightarrow> (-1, None)
           | Read_packet p \<Rightarrow>
               (let bytes = take (buffer_size - 1) p
                in if bytes = [] then (0, None) else (int (length bytes), Some bytes))))"

text \<open>
  What the callers rely on: a positive result means that many bytes, fewer than the buffer has, so
  the terminator fits; any other result leaves the buffer alone.
\<close>

lemma read_with_timeout_pos:
  assumes "read_with_timeout sel rd n = (len, b)"
  shows "0 < len \<longleftrightarrow> b \<noteq> None"
    and "b = Some bytes \<Longrightarrow> len = int (length bytes) \<and> length bytes < n"
  using assms by (auto simp: read_with_timeout_def Let_def split: select_result.splits read_result.splits if_splits)

lemma read_with_timeout_packet:
  assumes "p \<noteq> []" "length p < n"
  shows "read_with_timeout Select_ready (Read_packet p) n = (int (length p), Some p)"
  using assms by (auto simp: read_with_timeout_def Let_def)

end
