(* ===== verification/Logging.thy ===== *)
theory Logging
  imports Common
begin

text \<open>
  Logging of the broker (wd-broker.c): log_message, the facility option and the report of the
  hardware watchdog's boot status. \<open>effect\<close> is what the broker does to the outside: replies on the
  client's socket, log messages, and the point where the code leaves its arrays.
\<close>

section \<open>Priorities\<close>

text \<open>The priorities of syslog.h; a smaller level is more severe.\<close>

datatype log_priority =
  LOG_EMERG | LOG_ALERT | LOG_CRIT | LOG_ERR | LOG_WARNING | LOG_NOTICE | LOG_INFO | LOG_DEBUG

primrec level :: "log_priority \<Rightarrow> nat" where
  "level LOG_EMERG = 0"
| "level LOG_ALERT = 1"
| "level LOG_CRIT = 2"
| "level LOG_ERR = 3"
| "level LOG_WARNING = 4"
| "level LOG_NOTICE = 5"
| "level LOG_INFO = 6"
| "level LOG_DEBUG = 7"

lemma level_inject: "level p = level q \<Longrightarrow> p = q"
  by (cases p; cases q) simp_all

instantiation log_priority :: linorder
begin

definition less_eq_log_priority :: "log_priority \<Rightarrow> log_priority \<Rightarrow> bool" where
  "p \<le> q \<longleftrightarrow> level p \<le> level q"

definition less_log_priority :: "log_priority \<Rightarrow> log_priority \<Rightarrow> bool" where
  "p < q \<longleftrightarrow> level p < level q"

instance
  by standard (auto simp: less_eq_log_priority_def less_log_priority_def dest: level_inject)

end

section \<open>log\_message\<close>

datatype sink = Stdout | Stderr | Syslog

definition prio_str :: "log_priority \<Rightarrow> string" where
  "prio_str p =
     (case p of
        LOG_EMERG \<Rightarrow> ''EMERG ''
      | LOG_ALERT \<Rightarrow> ''ALERT ''
      | LOG_CRIT \<Rightarrow> ''CRIT  ''
      | LOG_ERR \<Rightarrow> ''ERROR ''
      | LOG_WARNING \<Rightarrow> ''WARN  ''
      | LOG_NOTICE \<Rightarrow> ''NOTICE''
      | LOG_INFO \<Rightarrow> ''INFO  ''
      | LOG_DEBUG \<Rightarrow> ''DEBUG '')"

text \<open>\<open>%06ld\<close> of the microseconds.\<close>

definition pad6 :: "nat \<Rightarrow> string" where
  "pad6 n = replicate (6 - length (show_nat n)) (CHR ''0'') @ show_nat n"

text \<open>
  Where a message goes and the text written: \<open>timestr\<close> is strftime's rendering of the local time,
  \<open>usec\<close> the microseconds gettimeofday returned with it.
\<close>

definition log_message ::
    "bool \<Rightarrow> string \<Rightarrow> nat \<Rightarrow> log_priority \<Rightarrow> string \<Rightarrow> sink \<times> string" where
  "log_message daemonize timestr usec priority msg =
     (if \<not> daemonize
      then (if priority \<le> LOG_WARNING then Stdout else Stderr,
            timestr @ ''.'' @ pad6 usec @ '' ['' @ prio_str priority @ ''] '' @ msg @ ''\<newline>'')
      else (Syslog, msg))"

section \<open>Syslog facility\<close>

datatype facility = LOG_USER | LOG_DAEMON | LOG_LOCAL nat

text \<open>\<open>None\<close> as the argument is the NULL pointer; the error ends the process.\<close>

definition parse_syslog_facility :: "string option \<Rightarrow> exit_report + facility" where
  "parse_syslog_facility str =
     (case str of
        None \<Rightarrow> Inr LOG_DAEMON
      | Some s \<Rightarrow>
          if s = ''LOG_USER'' then Inr LOG_USER
          else if s = ''LOG_DAEMON'' then Inr LOG_DAEMON
          else if s = ''LOG_LOCAL0'' then Inr (LOG_LOCAL 0)
          else if s = ''LOG_LOCAL1'' then Inr (LOG_LOCAL 1)
          else if s = ''LOG_LOCAL2'' then Inr (LOG_LOCAL 2)
          else if s = ''LOG_LOCAL3'' then Inr (LOG_LOCAL 3)
          else if s = ''LOG_LOCAL4'' then Inr (LOG_LOCAL 4)
          else if s = ''LOG_LOCAL5'' then Inr (LOG_LOCAL 5)
          else if s = ''LOG_LOCAL6'' then Inr (LOG_LOCAL 6)
          else if s = ''LOG_LOCAL7'' then Inr (LOG_LOCAL 7)
          else Inl \<lparr>to_stderr =
                 ''Error: Only LOG_USER, LOG_DAEMON and LOG_LOCAL* are supported\<newline>'',
               exit_code = EXIT_FAILURE\<rparr>)"

section \<open>Effects\<close>

datatype effect =
    Reply string
  | Log log_priority string
  | Out_of_bounds

text \<open>The text in single quotes that many messages use, and a PID as \<open>%d\<close> prints it.\<close>

definition quoted :: "string \<Rightarrow> string" where
  "quoted s = CHR 0x27 # s @ [CHR 0x27]"

primrec reply_of :: "effect \<Rightarrow> string option" where
  "reply_of (Reply s) = Some s"
| "reply_of (Log p s) = None"
| "reply_of Out_of_bounds = None"

definition replies :: "effect list \<Rightarrow> string list" where
  "replies es = List.map_filter reply_of es"

lemma replies_simps [simp]:
  "replies [] = []"
  "replies (Reply s # es) = s # replies es"
  "replies (Log p s # es) = replies es"
  "replies (Out_of_bounds # es) = replies es"
  "replies (xs @ ys) = replies xs @ replies ys"
  by (simp_all add: replies_def map_filter_def)

section \<open>Boot status\<close>

unbundle bit_operations_syntax

text \<open>The flags of linux/watchdog.h the broker knows, in the order of its table.\<close>

definition bootflags :: "(u32 \<times> string) list" where
  "bootflags =
     [(0x0001, '' OVERHEAT''), (0x0002, '' FANFAULT''), (0x0004, '' EXTERN1''),
      (0x0008, '' EXTERN2''), (0x0010, '' POWERUNDER''), (0x0020, '' CARDRESET''),
      (0x0040, '' POWEROVER'')]"

fun append_flags :: "u32 \<Rightarrow> (u32 \<times> string) list \<Rightarrow> string \<Rightarrow> string" where
  "append_flags bootstatus [] flags = flags"
| "append_flags bootstatus ((flag, nm) # fs) flags =
     append_flags bootstatus fs
       (if bootstatus AND flag \<noteq> 0 then strncat flags nm (128 - length flags - 1) else flags)"

definition hex_digit :: "nat \<Rightarrow> char" where
  "hex_digit n = ''0123456789abcdef'' ! n"

text \<open>\<open>%08x\<close>.\<close>

definition show_hex32 :: "u32 \<Rightarrow> string" where
  "show_hex32 w = map (\<lambda>i. hex_digit (unat (drop_bit (4 * i) w AND 0xF))) [7, 6, 5, 4, 3, 2, 1, 0]"

definition log_bootstatus :: "u32 \<Rightarrow> effect list" where
  "log_bootstatus bootstatus =
     (let flags = append_flags bootstatus bootflags [];
          flags' = (if length flags = 0 then strncat flags '' none'' (128 - 1) else flags)
      in [Log LOG_INFO (''Boot status 0x'' @ show_hex32 bootstatus @ '':'' @ flags')])"

text \<open>
  All flag names together fit into the buffer of 128 bytes, so strncat never truncates: the
  message names exactly the flags that are set, in the table's order.
\<close>

lemma append_flags_fits:
  assumes "length flags + sum_list (map (\<lambda>(f, n). length n) fs) < 128"
  shows "append_flags b fs flags = flags @ concat (map snd (filter (\<lambda>(f, n). b AND f \<noteq> 0) fs))"
  using assms
  by (induction fs arbitrary: flags) (auto simp: strncat_def)

lemma bootflags_fit: "append_flags b bootflags [] = concat (map snd (filter (\<lambda>(f, n). b AND f \<noteq> 0) bootflags))"
  by (subst append_flags_fits) (simp_all add: bootflags_def)


end
