(* ===== verification/Client_Table.thy ===== *)
theory Client_Table
  imports Logging
begin

text \<open>
  The client table of wd-broker.c: the slots of \<open>client_t\<close>, the configuration they are used under,
  identifiers (make_clientID), time (get_now, ms_since) and the two searches
  get_clientInstance_by_name and get_clientInstance_by_clientID. The table is the C array
  \<open>clients[WD_MAX_CLIENTS]\<close> as a list; a pointer into it is an index.
\<close>

section \<open>Data\<close>

record timespec =
  tv_sec :: int
  tv_nsec :: int

record client_t =
  clientID :: string
  name :: string
  pid :: pid_t
  timeout_ms :: u32
  last_ping :: timespec
  active :: bool
  anounced :: bool
  checkPID :: bool

record wd_config_t =
  socket_path :: string
  wd_timeout_s :: int
  reboot_timeout_s :: int
  strict_clients :: bool
  unique_clients :: bool

text \<open>A slot after memset to zero.\<close>

definition zero_client :: client_t where
  "zero_client =
     \<lparr>clientID = [], name = [], pid = 0, timeout_ms = 0,
      last_ping = \<lparr>tv_sec = 0, tv_nsec = 0\<rparr>, active = False, anounced = False, checkPID = False\<rparr>"

section \<open>Time\<close>

text \<open>
  \<open>ms_since(then)\<close> with the reading \<open>now\<close> of CLOCK_MONOTONIC it takes: the seconds and the
  nanoseconds are subtracted separately, the quotient truncates towards zero, and the sum is
  converted to \<open>unsigned int\<close>.
\<close>

definition ms_since :: "timespec \<Rightarrow> timespec \<Rightarrow> u32" where
  "ms_since now thn =
     to_uint32 ((tv_sec now - tv_sec thn) * 1000 + trunc_div (tv_nsec now - tv_nsec thn) 1000000)"

section \<open>Identifiers\<close>

text \<open>
  The sources of randomness of make_clientID: what reading \<open>/dev/urandom\<close> yields (\<open>None\<close> when it
  cannot be opened), the values the fallback seed is mixed from, and the sequence \<open>random()\<close>
  produces after \<open>srandom(seed)\<close>.
\<close>

record entropy =
  urandom :: "u8 list option"
  seed_parts :: "int \<times> int \<times> int \<times> int"
  libc_random :: "u32 \<Rightarrow> nat \<Rightarrow> int"

unbundle bit_operations_syntax

definition fallback_seed :: "entropy \<Rightarrow> u32" where
  "fallback_seed e =
     (case seed_parts e of (sec, usec, p, pp) \<Rightarrow>
        word_of_int sec XOR word_of_int usec XOR word_of_int p XOR word_of_int pp)"

definition raw_bytes :: "entropy \<Rightarrow> u8 list" where
  "raw_bytes e =
     (case urandom e of
        Some bs \<Rightarrow>
          if length bs = WD_CLIENTID_LEN div 2 then bs
          else map (\<lambda>i. word_of_int (libc_random e (fallback_seed e) i)) [0 ..< WD_CLIENTID_LEN div 2]
      | None \<Rightarrow>
          map (\<lambda>i. word_of_int (libc_random e (fallback_seed e) i)) [0 ..< WD_CLIENTID_LEN div 2])"

definition hex_byte :: "u8 \<Rightarrow> string" where
  "hex_byte b = [hex_digit (unat (drop_bit 4 b AND 0x0F)), hex_digit (unat (b AND 0x0F))]"


definition make_clientID :: "entropy \<Rightarrow> string" where
  "make_clientID e = concat (map hex_byte (raw_bytes e))"

section \<open>Searching the table\<close>

text \<open>
  The first loop of get_clientInstance_by_name looks for an active client of the same name, the
  second for the two kinds of slot a registration may use. \<open>slot_scan i free cs\<close> is that second
  loop from index \<open>i\<close> on, with the free slot found so far; its result is the pair
  (announced_slot, free_slot).
\<close>

definition name_in_use :: "string \<Rightarrow> client_t \<Rightarrow> bool" where
  "name_in_use nm c \<longleftrightarrow> active c \<and> name c = nm"

definition awaits :: "string \<Rightarrow> client_t \<Rightarrow> bool" where
  "awaits nm c \<longleftrightarrow> anounced c \<and> \<not> active c \<and> name c = nm"

definition free_slot :: "client_t \<Rightarrow> bool" where
  "free_slot c \<longleftrightarrow> \<not> anounced c \<and> \<not> active c"

fun slot_scan :: "string \<Rightarrow> nat \<Rightarrow> nat option \<Rightarrow> client_t list \<Rightarrow> nat option \<times> nat option" where
  "slot_scan nm i free [] = (None, free)"
| "slot_scan nm i free (c # cs) =
     (if awaits nm c then (Some i, free)
      else slot_scan nm (Suc i) (if free_slot c \<and> free = None then Some i else free) cs)"

definition get_clientInstance_by_name ::
    "wd_config_t \<Rightarrow> client_t list \<Rightarrow> string \<Rightarrow> pid_t \<Rightarrow> nat option \<times> effect list" where
  "get_clientInstance_by_name config clients nm p =
     (case (if unique_clients config then find_index (name_in_use nm) clients else None) of
        Some i \<Rightarrow>
          (None, [Log LOG_NOTICE (''Rejected PID'' @ show_int p @ '' with name '' @ quoted nm @
                   '', name already in use by PID'' @ show_int (pid (clients ! i)))])
      | None \<Rightarrow>
          (let (announced_slot, free) = slot_scan nm 0 None clients
           in if strict_clients config
              then (announced_slot,
                    if announced_slot = None
                    then [Log LOG_NOTICE (''Rejected PID'' @ show_int p @ '' with name '' @ quoted nm @
                           '', not announced'')]
                    else [])
              else (case announced_slot of
                      Some i \<Rightarrow> (Some i, [])
                    | None \<Rightarrow>
                        (free,
                         if free = None
                         then [Log LOG_NOTICE (''Rejected PID'' @ show_int p @ '' with name '' @
                                quoted nm @ '', no free slot available'')]
                         else []))))"

text \<open>The result code of get_clientInstance_by_clientID together with its out parameter.\<close>

datatype lookup_result =
    WD_CLIENT_IDENTIFIED nat
  | WD_CLIENT_PID_MISMATCH nat
  | WD_CLIENT_NOT_FOUND

definition live :: "client_t \<Rightarrow> bool" where
  "live c \<longleftrightarrow> active c \<or> anounced c"

definition get_clientInstance_by_clientID ::
    "client_t list \<Rightarrow> string \<Rightarrow> pid_t \<Rightarrow> lookup_result" where
  "get_clientInstance_by_clientID clients cid p =
     (case find_index (\<lambda>c. live c \<and> strncmp_eq (clientID c) cid 16) clients of
        Some i \<Rightarrow>
          if \<not> checkPID (clients ! i) \<or> pid (clients ! i) = p
          then WD_CLIENT_IDENTIFIED i else WD_CLIENT_PID_MISMATCH i
      | None \<Rightarrow> WD_CLIENT_NOT_FOUND)"

section \<open>Well-formed tables\<close>

definition id_ok :: "string \<Rightarrow> bool" where
  "id_ok cid \<longleftrightarrow> length cid = 16 \<and> list_all (\<lambda>c. isxdigit c \<and> tolower c = c) cid"

definition timeout_ok :: "u32 \<Rightarrow> bool" where
  "timeout_ok t \<longleftrightarrow> WD_CLIENT_TIMEOUT_MIN_MS \<le> t \<and> t \<le> WD_CLIENT_TIMEOUT_MAX_MS"

lemma timeout_ok_iff: "timeout_ok tmo \<longleftrightarrow> \<not> (tmo < WD_CLIENT_TIMEOUT_MIN_MS \<or> tmo > WD_CLIENT_TIMEOUT_MAX_MS)"
  by (auto simp: timeout_ok_def)

text \<open>
  Every slot: the name fits its buffer with the terminator; a client is not at once announced and
  active; a live slot has an identifier and a timeout in range; an announced client is not yet
  bound to a process; an active one has a name without white space.
\<close>

definition client_ok :: "client_t \<Rightarrow> bool" where
  "client_ok c \<longleftrightarrow>
     length (name c) < WD_CLIENT_NAME_LEN \<and>
     \<not> (active c \<and> anounced c) \<and>
     (live c \<longrightarrow> id_ok (clientID c) \<and> timeout_ok (timeout_ms c)) \<and>
     (anounced c \<longrightarrow> pid c = 0 \<and> \<not> checkPID c) \<and>
     (active c \<longrightarrow> word_ok (name c))"

definition live_names :: "client_t list \<Rightarrow> string list" where
  "live_names cs = map name (filter live cs)"

definition live_ids :: "client_t list \<Rightarrow> string list" where
  "live_ids cs = map clientID (filter live cs)"

definition table_ok :: "wd_config_t \<Rightarrow> client_t list \<Rightarrow> bool" where
  "table_ok config cs \<longleftrightarrow>
     list_all client_ok cs \<and> (unique_clients config \<longrightarrow> distinct (live_names cs))"

text \<open>The ranges parse_config enforces for the two timeouts of the configuration.\<close>

definition config_ok :: "wd_config_t \<Rightarrow> bool" where
  "config_ok cfg \<longleftrightarrow> 10 \<le> wd_timeout_s cfg \<and> wd_timeout_s cfg \<le> 60 \<and>
     10 \<le> reboot_timeout_s cfg \<and> reboot_timeout_s cfg \<le> 300"

section \<open>Elapsed time\<close>

text \<open>The time between two readings of the clock in nanoseconds.\<close>

definition elapsed_ns :: "timespec \<Rightarrow> timespec \<Rightarrow> int" where
  "elapsed_ns now thn = (tv_sec now - tv_sec thn) * 1000000000 + (tv_nsec now - tv_nsec thn)"

lemma trunc_div_pos: "0 < b \<Longrightarrow> trunc_div a b = (if 0 \<le> a then a div b else - ((- a) div b))"
  by (simp add: trunc_div_def sgn_if)

lemma trunc_div_ms_bounds:
  "trunc_div n 1000000 * 1000000 < n + 1000000" "n < trunc_div n 1000000 * 1000000 + 1000000"
  by (simp_all add: trunc_div_pos) arith+

lemma uint_ms_since:
  assumes "0 \<le> elapsed_ns now thn" "elapsed_ns now thn < (2 ^ 32 - 1) * 1000000"
  shows "uint (ms_since now thn) * 1000000 < elapsed_ns now thn + 1000000"
    and "elapsed_ns now thn < uint (ms_since now thn) * 1000000 + 1000000"
proof -
  define v where "v = (tv_sec now - tv_sec thn) * 1000 + trunc_div (tv_nsec now - tv_nsec thn) 1000000"
  have q: "v * 1000000 < elapsed_ns now thn + 1000000" "elapsed_ns now thn < v * 1000000 + 1000000"
    using trunc_div_ms_bounds [of "tv_nsec now - tv_nsec thn"] by (simp_all add: v_def elapsed_ns_def)
  with assms have "0 \<le> v" "v < 2 ^ 32" by simp_all
  moreover have "ms_since now thn = word_of_int v"
    by (simp only: ms_since_def to_uint32_def v_def)
  ultimately have "uint (ms_since now thn) = v"
    by (simp add: take_bit_int_eq_self unsigned_of_int)
  with q show "uint (ms_since now thn) * 1000000 < elapsed_ns now thn + 1000000"
    and "elapsed_ns now thn < uint (ms_since now thn) * 1000000 + 1000000" by simp_all
qed

text \<open>
  The test \<open>age > timeout_ms\<close> of the main loop: it never fires while the time since the last ping
  is at most the timeout, and always once a full millisecond more has passed.
\<close>

lemma ms_since_in_time:
  assumes "0 \<le> elapsed_ns now thn" "elapsed_ns now thn \<le> uint t * 1000000"
    "t < 2 ^ 32 - 1"
  shows "ms_since now thn \<le> t"
proof -
  have "uint t < 2 ^ 32 - 1"
    using assms(3) by (simp add: word_less_def)
  with assms have "uint (ms_since now thn) * 1000000 < elapsed_ns now thn + 1000000"
    by (intro uint_ms_since(1)) simp_all
  with assms(2) have "uint (ms_since now thn) * 1000000 < (uint t + 1) * 1000000" by simp
  then show ?thesis by (simp add: word_le_def)
qed

lemma ms_since_late:
  assumes "(uint t + 1) * 1000000 \<le> elapsed_ns now thn" "elapsed_ns now thn < (2 ^ 32 - 1) * 1000000"
  shows "t < ms_since now thn"
proof -
  have "0 \<le> (uint t + 1) * 1000000" by simp
  with assms(1) have "0 \<le> elapsed_ns now thn" by (rule order.trans [rotated])
  then have "elapsed_ns now thn < uint (ms_since now thn) * 1000000 + 1000000"
    using assms(2) by (rule uint_ms_since(2))
  with assms(1) have "(uint t) * 1000000 < uint (ms_since now thn) * 1000000" by simp
  then show ?thesis by (simp add: word_less_def)
qed

section \<open>Identifiers\<close>

lemma hex_digit_cases: "n < 16 \<Longrightarrow> isxdigit (hex_digit n) \<and> tolower (hex_digit n) = hex_digit n"
proof -
  assume "n < 16"
  then have "n \<in> set [0 ..< 16]" by simp
  moreover have "list_all (\<lambda>n. isxdigit (hex_digit n) \<and> tolower (hex_digit n) = hex_digit n) [0 ..< 16]"
    by code_simp
  ultimately show ?thesis by (simp only: list_all_iff)
qed

lemma hex_digit_inject: "m < 16 \<Longrightarrow> n < 16 \<Longrightarrow> hex_digit m = hex_digit n \<Longrightarrow> m = n"
proof -
  assume mn: "m < 16" "n < 16" "hex_digit m = hex_digit n"
  have "distinct ''0123456789abcdef''" by code_simp
  with mn show ?thesis by (simp add: hex_digit_def nth_eq_iff_index_eq del: distinct.simps)
qed


lemma nibbles_less:
  fixes b :: u8
  shows "unat (b AND 0x0F) < 16" "unat (drop_bit 4 b AND 0x0F) < 16"
proof -
  have "x AND 0x0F = take_bit 4 x" for x :: u8
    by (simp add: take_bit_eq_mask mask_numeral)
  then show "unat (b AND 0x0F) < 16" "unat (drop_bit 4 b AND 0x0F) < 16"
    using take_bit_nat_less_exp [of 4] by (simp_all add: unsigned_take_bit_eq)
qed

lemma nibbles_inject:
  fixes a b :: u8
  assumes "unat (drop_bit 4 a AND 0x0F) = unat (drop_bit 4 b AND 0x0F)" "unat (a AND 0x0F) = unat (b AND 0x0F)"
  shows "a = b"
proof (rule bit_word_eqI)
  fix n
  assume "n < LENGTH(8)"
  then have n: "n < 8" by simp
  from assms have eq: "drop_bit 4 a AND mask 4 = drop_bit 4 b AND mask 4" "a AND mask 4 = b AND mask 4"
    by (simp_all add: word_unat_eq_iff mask_numeral)
  show "bit a n \<longleftrightarrow> bit b n"
  proof (cases "n < 4")
    case True
    with arg_cong [OF eq(2), of "\<lambda>w. bit w n"] show ?thesis by (simp add: bit_simps)
  next
    case False
    with n have "n - 4 < 8" "n - 4 < 4" by arith+
    with n False arg_cong [OF eq(1), of "\<lambda>w. bit w (n - 4)"] show ?thesis by (simp add: bit_simps)
  qed
qed


lemma hex_byte_inject: "hex_byte a = hex_byte b \<Longrightarrow> a = b"
  unfolding hex_byte_def by (auto intro!: nibbles_inject dest!: hex_digit_inject [OF nibbles_less(1) nibbles_less(1)]
      hex_digit_inject [OF nibbles_less(2) nibbles_less(2)])

lemma length_raw_bytes: "length (raw_bytes e) = 8"
  by (simp add: raw_bytes_def WD_CLIENTID_LEN_def split: option.splits)

lemma length_hex_bytes: "length (concat (map hex_byte bs)) = 2 * length bs"
  by (induction bs) (simp_all add: hex_byte_def)

lemma id_ok_make_clientID: "id_ok (make_clientID e)"
proof -
  have "isxdigit c \<and> tolower c = c" if "c \<in> set (hex_byte b)" for b c
    using that by (auto simp: hex_byte_def hex_digit_cases nibbles_less)
  then show ?thesis
    by (simp add: id_ok_def make_clientID_def length_hex_bytes length_raw_bytes list_all_iff)
qed

lemma make_clientID_inject:
  assumes "make_clientID e = make_clientID e'"
  shows "raw_bytes e = raw_bytes e'"
proof -
  have "concat (map hex_byte xs) = concat (map hex_byte ys) \<Longrightarrow> length xs = length ys \<Longrightarrow> xs = ys"
    for xs ys
  proof (induction xs ys rule: list_induct2')
    case (4 x xs y ys)
    then have "hex_byte x = hex_byte y \<and> concat (map hex_byte xs) = concat (map hex_byte ys)"
      by (simp add: hex_byte_def)
    with 4 show ?case by (simp add: hex_byte_inject)
  qed simp_all
  with assms show ?thesis by (simp add: make_clientID_def length_raw_bytes)
qed

lemma id_ok_word: "id_ok cid \<Longrightarrow> word_ok cid \<and> length cid = 16 \<and> map tolower cid = cid"
  by (auto simp: id_ok_def word_ok_def list_all_iff isxdigit_not_isspace intro: map_idI)

section \<open>The searches\<close>

lemma slot_scan_announced:
  "fst (slot_scan nm i free cs) = map_option (\<lambda>k. i + k) (find_index (awaits nm) cs)"
  by (induction cs arbitrary: i free) (auto simp: option.map_comp comp_def map_option_Suc_add)

lemma slot_scan_free:
  "find_index (awaits nm) cs = None \<Longrightarrow>
   snd (slot_scan nm i free cs) =
     (case free of Some f \<Rightarrow> Some f | None \<Rightarrow> map_option (\<lambda>k. i + k) (find_index free_slot cs))"
  by (induction cs arbitrary: i free)
    (auto simp: option.map_comp comp_def map_option_Suc_add split: option.splits)

lemma slot_scan_0:
  "fst (slot_scan nm 0 None cs) = find_index (awaits nm) cs"
  "find_index (awaits nm) cs = None \<Longrightarrow> snd (slot_scan nm 0 None cs) = find_index free_slot cs"
  by (simp_all only: slot_scan_announced slot_scan_free option.case add_0 option.map_ident)

text \<open>
  The comment above get_clientInstance_by_name as a definition: an announced, inactive slot of
  that name; outside strict mode otherwise the first slot that is neither; and under
  unique_clients nothing at all while an active client has the name.
\<close>

definition slot_for :: "wd_config_t \<Rightarrow> client_t list \<Rightarrow> string \<Rightarrow> nat option" where
  "slot_for config cs nm =
     (if unique_clients config \<and> (\<exists>c \<in> set cs. active c \<and> name c = nm) then None
      else (case find_index (awaits nm) cs of
              Some i \<Rightarrow> Some i
            | None \<Rightarrow> if strict_clients config then None else find_index free_slot cs))"

lemma by_name_slot_for: "fst (get_clientInstance_by_name config cs nm p) = slot_for config cs nm"
proof -
  obtain a f where af: "slot_scan nm 0 None cs = (a, f)" by (cases "slot_scan nm 0 None cs")
  with slot_scan_0(1) [of nm cs] have a: "a = find_index (awaits nm) cs" by simp
  from af slot_scan_0(2) [of nm cs] a have f: "a = None \<Longrightarrow> f = find_index free_slot cs" by simp
  have u: "find_index (name_in_use nm) cs = None \<longleftrightarrow> \<not> (\<exists>c \<in> set cs. active c \<and> name c = nm)"
    by (simp add: name_in_use_def)
  show ?thesis
    unfolding get_clientInstance_by_name_def slot_for_def af
    using u a f by (auto split: option.splits simp del: find_index_None)
qed

lemma slot_forD:
  assumes "slot_for config cs nm = Some i"
  shows "i < length cs"
    and "\<not> active (cs ! i)"
    and "anounced (cs ! i) \<Longrightarrow> name (cs ! i) = nm"
    and "strict_clients config \<Longrightarrow> anounced (cs ! i)"
    and "unique_clients config \<Longrightarrow> j < length cs \<Longrightarrow> active (cs ! j) \<Longrightarrow> name (cs ! j) \<noteq> nm"
    and "\<not> anounced (cs ! i) \<Longrightarrow> j < length cs \<Longrightarrow> \<not> awaits nm (cs ! j)"
  using assms
  by (auto simp: slot_for_def awaits_def free_slot_def find_index_Some split: if_splits option.splits)

lemma by_clientID_cases:
  fixes cs :: "client_t list"
  obtains (found) i where "i < length cs" "live (cs ! i)" "take 16 (clientID (cs ! i)) = take 16 cid"
      "get_clientInstance_by_clientID cs cid p =
         (if checkPID (cs ! i) \<and> pid (cs ! i) \<noteq> p then WD_CLIENT_PID_MISMATCH i else WD_CLIENT_IDENTIFIED i)"
  | (none) "\<And>i. i < length cs \<Longrightarrow> live (cs ! i) \<Longrightarrow> take 16 (clientID (cs ! i)) \<noteq> take 16 cid"
      "get_clientInstance_by_clientID cs cid p = WD_CLIENT_NOT_FOUND"
proof (cases "find_index (\<lambda>c. live c \<and> strncmp_eq (clientID c) cid 16) cs")
  case None
  then have "get_clientInstance_by_clientID cs cid p = WD_CLIENT_NOT_FOUND"
    by (simp add: get_clientInstance_by_clientID_def del: find_index_None)
  with None show ?thesis by (intro none) (auto simp: strncmp_eq_def)
next
  case (Some i)
  then show ?thesis
    by (intro found [of i])
      (auto simp: get_clientInstance_by_clientID_def strncmp_eq_def dest: find_index_SomeD)
qed

end
