(* ===== verification/Command_Handler.thy ===== *)
theory Command_Handler
  imports Client_Table
begin

text \<open>
  handle_command of wd-broker.c: one connection, one command. The state is the pair of the global
  flags and the client table (\<open>broker\<close>); \<open>conn\<close> collects what the operating system answers while
  the command is handled. Each branch of the C function is one definition (\<open>handle_register\<close>,
  \<open>handle_ping\<close>, ...) and handle_command dispatches on the prefix as the source does.
\<close>

section \<open>State and environment\<close>

record broker =
  config :: wd_config_t
  clients :: "client_t list"
  running :: bool
  reboot :: bool

record ucred =
  cr_pid :: pid_t
  cr_uid :: uid_t

text \<open>
  One accepted connection: SO_PEERCRED (\<open>None\<close> when getsockopt fails), the answers to select and
  read in read_with_timeout, the reading of CLOCK_MONOTONIC and the randomness taken while the
  command is handled, and the text of \<open>strerror(errno)\<close> and whether writing the reply succeeds.
\<close>

record conn =
  peercred :: "ucred option"
  rd_select :: select_result
  rd_packet :: read_result
  now :: timespec
  rnd :: entropy
  err_text :: string
  reply_ok :: bool

section \<open>Output and arguments\<close>

text \<open>write_str: vdprintf to the socket; a failure is only logged.\<close>

definition write_str :: "conn \<Rightarrow> string \<Rightarrow> effect list" where
  "write_str k msg =
     (if reply_ok k then [Reply msg] else [Log LOG_ERR (''vdprintf: '' @ err_text k)])"

definition WD_REGISTER_SCANF_FORMAT :: "directive list" where
  "WD_REGISTER_SCANF_FORMAT = [Str 63, Ws, Uint, Ws, Str 15, Ws, Str 15]"

definition WD_CLIENTID_SCANF_FORMAT :: "directive list" where
  "WD_CLIENTID_SCANF_FORMAT = [Str 16, Ws, Str 15]"

definition WD_CLIENTID_FMT_LEN :: nat where
  "WD_CLIENTID_FMT_LEN = 16"

text \<open>
  The loop of parse_clientID over \<open>clientID_raw\<close>: it stops at the first character that is no hex
  digit and stores the lower-case form of the others.
\<close>

fun lower_hex :: "string \<Rightarrow> string option" where
  "lower_hex [] = Some []"
| "lower_hex (c # cs) = (if \<not> isxdigit c then None else map_option ((#) (tolower c)) (lower_hex cs))"

text \<open>\<open>Inl\<close> is the message written to the socket, \<open>Inr\<close> the identifier (return value true).\<close>

definition parse_clientID :: "string \<Rightarrow> string \<Rightarrow> string + string" where
  "parse_clientID buf cmd_prefix =
     (case sscanf (drop (length cmd_prefix) buf) WD_CLIENTID_SCANF_FORMAT of
        (n, vs) \<Rightarrow>
          if n \<noteq> 1 then Inl ''ERROR invalid syntax\<newline>''
          else (case vs of
                  [SStr clientID_raw] \<Rightarrow>
                    if length clientID_raw \<noteq> WD_CLIENTID_FMT_LEN
                    then Inl ''ERROR invalid clientID length\<newline>''
                    else (case lower_hex clientID_raw of
                            None \<Rightarrow> Inl ''ERROR invalid clientID format\<newline>''
                          | Some out_id \<Rightarrow> Inr out_id)
                | _ \<Rightarrow> Inl ''ERROR invalid syntax\<newline>''))"

text \<open>
  The arguments of REGISTER: name, timeout and whether the PID is checked. Fewer than two or more
  than three conversions, or a third argument other than \<open>ignorepid\<close>, are a syntax error.
\<close>

definition parse_register :: "string \<Rightarrow> (string \<times> u32 \<times> bool) option" where
  "parse_register buf =
     (case sscanf (drop (length CMD_REGISTER) buf) WD_REGISTER_SCANF_FORMAT of
        (n, vs) \<Rightarrow>
          if n < 2 \<or> n > 3 then None
          else (case vs of
                  [SStr nm, SUint tmo] \<Rightarrow> Some (nm, tmo, True)
                | [SStr nm, SUint tmo, SStr opt_flag] \<Rightarrow>
                    if opt_flag = ''ignorepid'' then Some (nm, tmo, False) else None
                | _ \<Rightarrow> None))"

section \<open>The commands\<close>

definition register_slot :: "conn \<Rightarrow> ucred \<Rightarrow> string \<Rightarrow> u32 \<Rightarrow> bool \<Rightarrow> client_t \<Rightarrow> client_t" where
  "register_slot k creds nm tmo chk c =
     c\<lparr>active := True, name := strncpy nm WD_CLIENT_NAME_LEN, pid := cr_pid creds, checkPID := chk,
       timeout_ms := tmo, last_ping := now k,
       clientID := (if anounced c then clientID c else make_clientID (rnd k)),
       anounced := False\<rparr>"

definition handle_register :: "conn \<Rightarrow> ucred \<Rightarrow> string \<Rightarrow> broker \<Rightarrow> broker \<times> effect list" where
  "handle_register k creds buf b =
     (case parse_register buf of
        None \<Rightarrow> (b, write_str k ''ERROR invalid REGISTER syntax\<newline>'')
      | Some (nm, tmo, chk) \<Rightarrow>
          if tmo < WD_CLIENT_TIMEOUT_MIN_MS \<or> tmo > WD_CLIENT_TIMEOUT_MAX_MS
          then (b, write_str k ''ERROR invalid timeout\<newline>'')
          else if list_ex (\<lambda>c. \<not> isprint c \<or> isspace c) nm
          then (b, write_str k ''ERROR invalid client name\<newline>'')
          else (case get_clientInstance_by_name (config b) (clients b) nm (cr_pid creds) of
                  (Some i, lg) \<Rightarrow>
                    (let c = clients b ! i; c' = register_slot k creds nm tmo chk c
                     in (b\<lparr>clients := upd_at i (register_slot k creds nm tmo chk) (clients b)\<rparr>,
                         lg @
                         [Log LOG_INFO ((if anounced c then ''Announced client'' else ''Client'') @ '' '' @
                            quoted (name c') @ '' (PID '' @ show_int (pid c') @ '') registered (timeout '' @
                            show_u32 (timeout_ms c') @ '' ms, pidCheck '' @
                            (if chk then ''enabled'' else ''disabled'') @ '', clientID '' @ clientID c' @ '')'')] @
                         write_str k (''OK '' @ clientID c' @ ''\<newline>'')))
                | (None, lg) \<Rightarrow> (b, lg @ write_str k ''ERROR rejected\<newline>'')))"

definition handle_ping :: "conn \<Rightarrow> ucred \<Rightarrow> string \<Rightarrow> broker \<Rightarrow> broker \<times> effect list" where
  "handle_ping k creds buf b =
     (case parse_clientID buf CMD_PING of
        Inl msg \<Rightarrow> (b, write_str k msg)
      | Inr cid \<Rightarrow>
          (case get_clientInstance_by_clientID (clients b) cid (cr_pid creds) of
             WD_CLIENT_IDENTIFIED i \<Rightarrow>
               (b\<lparr>clients := upd_at i (\<lambda>c. c\<lparr>last_ping := now k\<rparr>) (clients b)\<rparr>, write_str k ''OK\<newline>'')
           | WD_CLIENT_PID_MISMATCH i \<Rightarrow>
               (b, write_str k ''ERROR wrong PID\<newline>'' @
                   [Log LOG_WARNING (''Client '' @ quoted (name (clients b ! i)) @ '', known as PID '' @
                      show_int (pid (clients b ! i)) @ '' has sent PING from PID '' @ show_int (cr_pid creds))])
           | WD_CLIENT_NOT_FOUND \<Rightarrow> (b, write_str k ''ERROR unknown clientID\<newline>'')))"

definition release_slot :: "client_t \<Rightarrow> client_t" where
  "release_slot c = c\<lparr>active := False, anounced := False\<rparr>"

definition handle_unregister :: "conn \<Rightarrow> ucred \<Rightarrow> string \<Rightarrow> broker \<Rightarrow> broker \<times> effect list" where
  "handle_unregister k creds buf b =
     (case parse_clientID buf CMD_UNREGISTER of
        Inl msg \<Rightarrow> (b, write_str k msg)
      | Inr cid \<Rightarrow>
          (case get_clientInstance_by_clientID (clients b) cid (cr_pid creds) of
             WD_CLIENT_IDENTIFIED i \<Rightarrow>
               (let c = clients b ! i
                in if strict_clients (config b) \<and> cr_uid creds \<noteq> 0
                   then (b, [Log LOG_WARNING (''UNREGISTER rejected for client '' @ quoted (name c) @
                                '' (PID '' @ show_int (pid c) @ '') with clientID '' @ clientID c)] @
                            write_str k ''ERROR rejected\<newline>'')
                   else (b\<lparr>clients := upd_at i release_slot (clients b)\<rparr>,
                         [Log LOG_INFO (''Client '' @ quoted (name c) @ '' (PID '' @ show_int (pid c) @
                            '') unregistered (clientID='' @ clientID c @ '')'')] @
                         write_str k ''OK\<newline>''))
           | WD_CLIENT_PID_MISMATCH i \<Rightarrow>
               (let c = clients b ! i
                in if cr_uid creds = 0
                   then (b\<lparr>clients := upd_at i release_slot (clients b)\<rparr>,
                         write_str k ''OK\<newline>'' @
                         [Log LOG_INFO (''Client '' @ quoted (name c) @ '' (PID '' @ show_int (pid c) @
                            '') unregistered by root (clientID='' @ clientID c @ '')'')])
                   else (b, write_str k ''ERROR no permission\<newline>'' @
                            [Log LOG_WARNING (''Client '' @ quoted (name c) @ '', known as PID '' @
                               show_int (pid c) @ '' has sent UNREGISTER from PID '' @ show_int (cr_pid creds))]))
           | WD_CLIENT_NOT_FOUND \<Rightarrow> (b, write_str k ''ERROR unknown clientID\<newline>'')))"

text \<open>\<open>sscanf(buf + strlen(CMD), " %ws", extra) == 1\<close>: something follows the command.\<close>

definition has_extra :: "string \<Rightarrow> string \<Rightarrow> nat \<Rightarrow> bool" where
  "has_extra buf cmd w \<longleftrightarrow> fst (sscanf (drop (length cmd) buf) [Ws, Str w]) = 1"

definition handle_reboot :: "conn \<Rightarrow> ucred \<Rightarrow> string \<Rightarrow> broker \<Rightarrow> broker \<times> effect list" where
  "handle_reboot k creds buf b =
     (if has_extra buf CMD_REBOOT 15 then (b, write_str k ''ERROR invalid syntax\<newline>'')
      else if cr_uid creds \<noteq> 0
      then (b, write_str k ''ERROR no permission\<newline>'' @
               [Log LOG_WARNING (''Client with PID '' @ show_int (cr_pid creds) @
                  '' tried to activate reboot failsafe'')])
      else (b\<lparr>running := False, reboot := True\<rparr>,
            write_str k (''OK, '' @ show_int (reboot_timeout_s (config b)) @ ''\<newline>'') @
            [Log LOG_NOTICE (''Reboot failsafe requested by PID '' @ show_int (cr_pid creds))]))"

text \<open>
  The pieces the status report prints with one snprintf each into \<open>msg[4096]\<close>, and the write of
  the buffer: \<open>Out_of_bounds\<close> when the offset has left the array.
\<close>

definition status_header :: "build_config \<Rightarrow> broker \<Rightarrow> string list" where
  "status_header bc b =
     [''daemon_version='' @ PACKAGE_VERSION bc @ ''\<newline>'',
      ''protocol_version='' @ SOCKET_PROT_VERSION @ ''\<newline>'',
      ''wd_timeout_s='' @ show_int (wd_timeout_s (config b)) @ ''\<newline>'',
      ''reboot_timeout_s='' @ show_int (reboot_timeout_s (config b)) @ ''\<newline>'',
      ''strict_clients='' @ (if strict_clients (config b) then ''true'' else ''false'') @ ''\<newline>'',
      ''unique_clients='' @ (if unique_clients (config b) then ''true'' else ''false'') @ ''\<newline>'',
      ''active_clients='' @ show_nat (length (filter active (clients b))) @ ''\<newline>'']"

definition status_line :: "client_t \<Rightarrow> string" where
  "status_line c =
     clientID c @ '' '' @ show_int (pid c) @ '' '' @ name c @ '' '' @ show_u32 (timeout_ms c) @ '' '' @
     (if checkPID c then ''1'' else ''0'') @ ''\<newline>''"

definition status_pieces :: "build_config \<Rightarrow> broker \<Rightarrow> string list" where
  "status_pieces bc b = status_header bc b @ map status_line (filter live (clients b))"

definition write_pieces :: "conn \<Rightarrow> nat \<Rightarrow> string list \<Rightarrow> effect list" where
  "write_pieces k sz ps =
     (case Option.bind (snprintf_all sz ps ([], 0)) (write_buf sz) of
        None \<Rightarrow> [Out_of_bounds]
      | Some bytes \<Rightarrow>
          if reply_ok k then [Reply bytes]
          else [Log LOG_ERR (''Failed to send status message: '' @ err_text k)])"

definition handle_status :: "build_config \<Rightarrow> conn \<Rightarrow> ucred \<Rightarrow> string \<Rightarrow> broker \<Rightarrow> broker \<times> effect list" where
  "handle_status bc k creds buf b =
     (if has_extra buf CMD_STATUS 31 then (b, write_str k ''ERROR invalid syntax\<newline>'')
      else if cr_pid creds \<noteq> 0 \<and> cr_uid creds \<noteq> 0
      then (b, write_str k ''ERROR no permission\<newline>'' @
               [Log LOG_WARNING (''Client with PID '' @ show_int (cr_pid creds) @ '' tried to list clients'')])
      else (b, write_pieces k 4096 (status_pieces bc b)))"

definition handle_version :: "build_config \<Rightarrow> conn \<Rightarrow> string \<Rightarrow> broker \<Rightarrow> broker \<times> effect list" where
  "handle_version bc k buf b =
     (if has_extra buf CMD_VERSION 31 then (b, write_str k ''ERROR invalid syntax\<newline>'')
      else (b, write_pieces k 128
              [''wd-broker_version='' @ PACKAGE_VERSION bc @ ''\<newline>'',
               ''protocol_version='' @ SOCKET_PROT_VERSION @ ''\<newline>'']))"

section \<open>Dispatch\<close>

definition dispatch :: "build_config \<Rightarrow> conn \<Rightarrow> ucred \<Rightarrow> string \<Rightarrow> broker \<Rightarrow> broker \<times> effect list" where
  "dispatch bc k creds buf b =
     (if strncmp_eq buf CMD_REGISTER (length CMD_REGISTER) then handle_register k creds buf b
      else if strncmp_eq buf CMD_PING (length CMD_PING) then handle_ping k creds buf b
      else if strncmp_eq buf CMD_UNREGISTER (length CMD_UNREGISTER) then handle_unregister k creds buf b
      else if strncmp_eq buf CMD_REBOOT (length CMD_REBOOT) then handle_reboot k creds buf b
      else if strncmp_eq buf CMD_STATUS (length CMD_STATUS) then handle_status bc k creds buf b
      else if strncmp_eq buf CMD_VERSION (length CMD_VERSION) then handle_version bc k buf b
      else (b, write_str k ''ERROR unknown command\<newline>''))"

definition handle_command :: "build_config \<Rightarrow> conn \<Rightarrow> broker \<Rightarrow> broker \<times> effect list" where
  "handle_command bc k b =
     (case peercred k of
        None \<Rightarrow> (b, write_str k ''ERROR reading peercred\<newline>'' @ [Log LOG_ERR (''getsockopt: '' @ err_text k)])
      | Some creds \<Rightarrow>
          (case read_with_timeout (rd_select k) (rd_packet k) 128 of
             (len, bytes) \<Rightarrow>
               if len \<le> 0 then (b, write_str k ''ERROR no input\<newline>'')
               else dispatch bc k creds (cstr (case bytes of Some bs \<Rightarrow> bs | None \<Rightarrow> [])) b))"

section \<open>What the argument parsers accept\<close>

lemma scan_StrE:
  assumes "scan (Str w # ds) s = (v # vs, e)" "0 < w"
  obtains t r where "v = SStr t" "word_ok t" "length t \<le> w" "scan ds r = (vs, e)"
proof -
  let ?s = "dropWhile isspace s" and ?P = "\<lambda>c. \<not> isspace c"
  let ?t = "take w (takeWhile ?P ?s)"
  from assms(1) have ne: "?s \<noteq> []" and sc: "apfst ((#) (SStr ?t)) (scan ds (drop (length ?t) ?s)) = (v # vs, e)"
    by (auto simp: Let_def split: if_splits)
  from ne have "\<not> isspace (hd ?s)" by (rule hd_dropWhile)
  with ne assms(2) have "?t \<noteq> []" by (simp add: takeWhile_eq_Nil_iff)
  moreover have "list_all ?P ?t"
    by (auto simp: list_all_iff dest!: in_set_takeD set_takeWhileD)
  ultimately have "word_ok ?t" by (simp add: word_ok_def)
  with sc show thesis
    by (intro that [of ?t "drop (length ?t) ?s"]) (auto simp: apfst_def map_prod_def split: prod.splits)
qed

lemma parse_register_name:
  assumes "parse_register buf = Some (nm, tmo, chk)"
  shows "word_ok nm" "length nm \<le> 63"
proof -
  let ?r = "scan WD_REGISTER_SCANF_FORMAT (drop (length CMD_REGISTER) buf)"
  obtain vs e where r: "?r = (vs, e)" by (cases ?r)
  with assms obtain vs' where vs: "vs = SStr nm # vs'"
    by (auto simp: parse_register_def sscanf_def split: if_splits list.splits scan_val.splits)
  with r have "scan (Str 63 # [Ws, Uint, Ws, Str 15, Ws, Str 15]) (drop (length CMD_REGISTER) buf) = (SStr nm # vs', e)"
    by (simp only: WD_REGISTER_SCANF_FORMAT_def)
  then show "word_ok nm" "length nm \<le> 63"
    by (rule scan_StrE; simp)+
qed

section \<open>The access policy\<close>

text \<open>
  What one connection may change, as a relation over states: nothing; a registration into a slot
  the name is entitled to; a new heartbeat for a live client that does not check PIDs or belongs to
  the caller; the release of such a client (of any live client by root; under strict_clients by
  root only); the reboot flags, by root. handle_command is shown to stay inside this relation
  below, and what holds of every command is proved from it by rule inversion.
\<close>

definition owns :: "ucred \<Rightarrow> client_t \<Rightarrow> bool" where
  "owns cr c \<longleftrightarrow> \<not> checkPID c \<or> pid c = cr_pid cr"

inductive permitted :: "conn \<Rightarrow> broker \<Rightarrow> broker \<Rightarrow> bool" for k b where
  unchanged: "permitted k b b"
| registered: "peercred k = Some cr \<Longrightarrow> slot_for (config b) (clients b) nm = Some i \<Longrightarrow>
    word_ok nm \<Longrightarrow> length nm \<le> 63 \<Longrightarrow> list_all isprint nm \<Longrightarrow> timeout_ok tmo \<Longrightarrow>
    permitted k b (b\<lparr>clients := upd_at i (register_slot k cr nm tmo chk) (clients b)\<rparr>)"
| pinged: "peercred k = Some cr \<Longrightarrow> i < length (clients b) \<Longrightarrow> live (clients b ! i) \<Longrightarrow>
    owns cr (clients b ! i) \<Longrightarrow>
    permitted k b (b\<lparr>clients := upd_at i (\<lambda>c. c\<lparr>last_ping := now k\<rparr>) (clients b)\<rparr>)"
| released: "peercred k = Some cr \<Longrightarrow> i < length (clients b) \<Longrightarrow> live (clients b ! i) \<Longrightarrow>
    cr_uid cr = 0 \<or> \<not> strict_clients (config b) \<and> owns cr (clients b ! i) \<Longrightarrow>
    permitted k b (b\<lparr>clients := upd_at i release_slot (clients b)\<rparr>)"
| rebooted: "peercred k = Some cr \<Longrightarrow> cr_uid cr = 0 \<Longrightarrow>
    permitted k b (b\<lparr>running := False, reboot := True\<rparr>)"

lemma handle_register_permitted:
  assumes "peercred k = Some cr"
  shows "permitted k b (fst (handle_register k cr buf b))"
proof (cases "parse_register buf")
  case None
  then show ?thesis by (simp add: handle_register_def permitted.unchanged)
next
  case (Some a)
  obtain nm tmo chk where a: "a = (nm, tmo, chk)" by (cases a)
  obtain s lg where g: "get_clientInstance_by_name (config b) (clients b) nm (cr_pid cr) = (s, lg)"
    by (cases "get_clientInstance_by_name (config b) (clients b) nm (cr_pid cr)")
  with by_name_slot_for [of "config b" "clients b" nm "cr_pid cr"] have s: "slot_for (config b) (clients b) nm = s"
    by simp
  show ?thesis
  proof (cases "timeout_ok tmo \<and> list_all isprint nm \<and> s \<noteq> None \<and> \<not> list_ex (\<lambda>c. \<not> isprint c \<or> isspace c) nm")
    case True
    then obtain i where i: "s = Some i" by blast
    have "fst (handle_register k cr buf b) = b\<lparr>clients := upd_at i (register_slot k cr nm tmo chk) (clients b)\<rparr>"
      using True Some a g i by (simp add: handle_register_def timeout_ok_iff Let_def)
    then show ?thesis
      using permitted.registered [OF assms] True s i parse_register_name [of buf nm tmo chk] Some a by simp
  next
    case False
    then have "fst (handle_register k cr buf b) = b"
      using Some a g by (auto simp: handle_register_def timeout_ok_iff list_ex_iff list_all_iff split: option.splits)
    then show ?thesis by (simp add: permitted.unchanged)
  qed
qed

lemma handle_ping_permitted:
  assumes "peercred k = Some cr"
  shows "permitted k b (fst (handle_ping k cr buf b))"
proof (cases "parse_clientID buf CMD_PING")
  case (Inl msg)
  then show ?thesis by (simp add: handle_ping_def permitted.unchanged)
next
  case (Inr cid)
  show ?thesis
  proof (cases rule: by_clientID_cases [of "clients b" cid "cr_pid cr"])
    case (found i)
    with Inr permitted.pinged [OF assms found(1,2)] show ?thesis
      by (auto simp: handle_ping_def owns_def intro: permitted.unchanged)
  next
    case none
    with Inr show ?thesis by (simp add: handle_ping_def permitted.unchanged)
  qed
qed

lemma handle_unregister_permitted:
  assumes "peercred k = Some cr"
  shows "permitted k b (fst (handle_unregister k cr buf b))"
proof (cases "parse_clientID buf CMD_UNREGISTER")
  case (Inl msg)
  then show ?thesis by (simp add: handle_unregister_def permitted.unchanged)
next
  case (Inr cid)
  show ?thesis
  proof (cases rule: by_clientID_cases [of "clients b" cid "cr_pid cr"])
    case (found i)
    with Inr permitted.released [OF assms found(1,2)] show ?thesis
      by (auto simp: handle_unregister_def owns_def Let_def intro: permitted.unchanged)
  next
    case none
    with Inr show ?thesis by (simp add: handle_unregister_def permitted.unchanged)
  qed
qed

lemma dispatch_permitted: "peercred k = Some cr \<Longrightarrow> permitted k b (fst (dispatch bc k cr buf b))"
  by (auto simp: dispatch_def handle_register_permitted handle_ping_permitted handle_unregister_permitted
      handle_reboot_def handle_status_def handle_version_def
      intro: permitted.unchanged permitted.rebooted)

lemma handle_command_permitted: "permitted k b (fst (handle_command bc k b))"
  by (auto simp: handle_command_def dispatch_permitted intro: permitted.unchanged split: option.splits prod.splits)

section \<open>The invariant of the broker\<close>

definition broker_ok :: "build_config \<Rightarrow> broker \<Rightarrow> bool" where
  "broker_ok bc b \<longleftrightarrow> length (clients b) = WD_MAX_CLIENTS bc \<and> table_ok (config b) (clients b)"

lemma table_ok_nth: "table_ok cfg cs \<Longrightarrow> i < length cs \<Longrightarrow> client_ok (cs ! i)"
  by (simp add: table_ok_def list_all_length)

lemma register_slot_simps [simp]:
  "active (register_slot k cr nm tmo chk c)" "\<not> anounced (register_slot k cr nm tmo chk c)"
  "live (register_slot k cr nm tmo chk c)"
  "pid (register_slot k cr nm tmo chk c) = cr_pid cr" "checkPID (register_slot k cr nm tmo chk c) = chk"
  "timeout_ms (register_slot k cr nm tmo chk c) = tmo" "last_ping (register_slot k cr nm tmo chk c) = now k"
  "clientID (register_slot k cr nm tmo chk c) = (if anounced c then clientID c else make_clientID (rnd k))"
  "length nm \<le> 63 \<Longrightarrow> name (register_slot k cr nm tmo chk c) = nm"
  by (simp_all add: register_slot_def live_def strncpy_def WD_CLIENT_NAME_LEN_def)

lemma release_slot_simps [simp]:
  "\<not> active (release_slot c)" "\<not> anounced (release_slot c)" "\<not> live (release_slot c)" "name (release_slot c) = name c"
  by (simp_all add: release_slot_def live_def)

lemma client_ok_register:
  assumes "client_ok c" "word_ok nm" "length nm \<le> 63" "timeout_ok tmo"
  shows "client_ok (register_slot k cr nm tmo chk c)"
  using assms by (auto simp: client_ok_def live_def id_ok_make_clientID WD_CLIENT_NAME_LEN_def)

lemma client_ok_ping: "client_ok c \<Longrightarrow> client_ok (c\<lparr>last_ping := t\<rparr>)"
  by (simp add: client_ok_def live_def)

lemma client_ok_release: "client_ok c \<Longrightarrow> client_ok (release_slot c)"
  by (simp add: client_ok_def)

text \<open>Under unique_clients the registered name is not the name of any other live slot.\<close>

lemma slot_for_unique:
  assumes "table_ok cfg cs" "slot_for cfg cs nm = Some i" "unique_clients cfg"
    "j < length cs" "j \<noteq> i" "live (cs ! j)"
  shows "name (cs ! j) \<noteq> nm"
proof
  assume nm: "name (cs ! j) = nm"
  with slot_forD(5) [OF assms(2,3,4)] have "\<not> active (cs ! j)" by blast
  with assms(6) nm have aw: "awaits nm (cs ! j)" by (simp add: live_def awaits_def)
  with slot_forD(6) [OF assms(2) _ assms(4)] have "anounced (cs ! i)" by blast
  with slot_forD(3) [OF assms(2)] have "live (cs ! i)" "name (cs ! i) = nm" by (simp_all add: live_def)
  moreover have "distinct (map name (filter live cs))"
    using assms(1,3) by (simp add: table_ok_def live_names_def)
  ultimately have "j = i"
    using distinct_map_filterD [of name live cs j i] assms(4,6) nm slot_forD(1) [OF assms(2)] by simp
  with assms(5) show False by blast
qed

lemma table_ok_upd_at:
  assumes "table_ok cfg cs" "i < length cs" "client_ok (g (cs ! i))"
    and "\<And>j. unique_clients cfg \<Longrightarrow> live (g (cs ! i)) \<Longrightarrow> j < length cs \<Longrightarrow> j \<noteq> i \<Longrightarrow> live (cs ! j) \<Longrightarrow>
           name (cs ! j) \<noteq> name (g (cs ! i))"
  shows "table_ok cfg (upd_at i g cs)"
  using assms unfolding table_ok_def live_names_def
  by (auto intro!: list_all_upd_at distinct_map_filter_upd_at)

lemma table_ok_register:
  assumes "table_ok cfg cs" "slot_for cfg cs nm = Some i" "word_ok nm" "length nm \<le> 63" "timeout_ok tmo"
  shows "table_ok cfg (upd_at i (register_slot k cr nm tmo chk) cs)"
proof (rule table_ok_upd_at [OF assms(1)])
  show i: "i < length cs" by (rule slot_forD(1) [OF assms(2)])
  show "client_ok (register_slot k cr nm tmo chk (cs ! i))"
    using client_ok_register [OF table_ok_nth [OF assms(1) i]] assms by blast
  fix j
  assume "unique_clients cfg" "j < length cs" "j \<noteq> i" "live (cs ! j)"
  then have "name (cs ! j) \<noteq> nm" by (rule slot_for_unique [OF assms(1,2)])
  with assms(4) show "name (cs ! j) \<noteq> name (register_slot k cr nm tmo chk (cs ! i))" by simp
qed

lemma table_ok_ping:
  assumes "table_ok cfg cs" "i < length cs" "live (cs ! i)"
  shows "table_ok cfg (upd_at i (\<lambda>c. c\<lparr>last_ping := t\<rparr>) cs)"
proof (rule table_ok_upd_at [OF assms(1,2)])
  show "client_ok ((cs ! i)\<lparr>last_ping := t\<rparr>)"
    by (rule client_ok_ping [OF table_ok_nth [OF assms(1,2)]])
  fix j
  assume "unique_clients cfg" "j < length cs" "j \<noteq> i" "live (cs ! j)"
  with assms distinct_map_filterD [of name live cs j i] show "name (cs ! j) \<noteq> name ((cs ! i)\<lparr>last_ping := t\<rparr>)"
    by (auto simp: table_ok_def live_names_def)
qed

lemma table_ok_release:
  assumes "table_ok cfg cs" "i < length cs"
  shows "table_ok cfg (upd_at i release_slot cs)"
  using table_ok_upd_at [of cfg cs i release_slot, OF assms client_ok_release [OF table_ok_nth [OF assms]]]
  by simp

lemma permitted_config: "permitted k b b' \<Longrightarrow> config b' = config b"
  by (induction rule: permitted.induct) simp_all

lemma permitted_broker_ok: "permitted k b b' \<Longrightarrow> broker_ok bc b \<Longrightarrow> broker_ok bc b'"
  by (induction rule: permitted.induct)
    (simp_all add: broker_ok_def table_ok_register table_ok_ping table_ok_release)

interpretation commands: invariant_machine "\<lambda>b k. fst (handle_command bc k b)" "broker_ok bc" for bc
  by unfold_locales (rule permitted_broker_ok [OF handle_command_permitted])

section \<open>Messages on the wire\<close>

text \<open>A connection that delivers the text \<open>p\<close> with the credentials \<open>cr\<close>.\<close>

definition delivers :: "conn \<Rightarrow> ucred \<Rightarrow> string \<Rightarrow> bool" where
  "delivers k cr p \<longleftrightarrow>
     peercred k = Some cr \<and> rd_select k = Select_ready \<and> rd_packet k = Read_packet p \<and>
     p \<noteq> [] \<and> length p < 128 \<and> NUL \<notin> set p"

lemma handle_command_delivers:
  assumes "delivers k cr p"
  shows "handle_command bc k b = dispatch bc k cr p b"
proof -
  have "cstr p = p" using assms by (auto simp: delivers_def cstr_def)
  with assms show ?thesis
    by (auto simp: handle_command_def delivers_def read_with_timeout_packet)
qed

lemma dispatch_cmd:
  "dispatch bc k cr (CMD_REGISTER @ s) b = handle_register k cr (CMD_REGISTER @ s) b"
  "dispatch bc k cr (CMD_PING @ s) b = handle_ping k cr (CMD_PING @ s) b"
  "dispatch bc k cr (CMD_UNREGISTER @ s) b = handle_unregister k cr (CMD_UNREGISTER @ s) b"
  "dispatch bc k cr (CMD_REBOOT @ s) b = handle_reboot k cr (CMD_REBOOT @ s) b"
  "dispatch bc k cr (CMD_STATUS @ s) b = handle_status bc k cr (CMD_STATUS @ s) b"
  "dispatch bc k cr (CMD_VERSION @ s) b = handle_version bc k (CMD_VERSION @ s) b"
  by (simp_all add: dispatch_def strncmp_eq_def command_defs)

lemma sscanf_values:
  assumes "fst (scan fmt s) = vs" "vs \<noteq> []"
  shows "sscanf s fmt = (int (length vs), vs)"
  using assms by (auto simp: sscanf_def split: prod.splits)

lemma isspace_blank [simp]: "isspace (CHR '' '')" "isspace (CHR 0x0A)"
  by (simp_all add: isspace_def)

lemma word_ok_show_u32 [simp]: "word_ok (show_u32 t)"
  by (simp add: show_u32_def)

lemma parse_register_plain:
  assumes "word_ok nm" "length nm \<le> 63" "list_all isspace r"
  shows "parse_register (CMD_REGISTER @ nm @ '' '' @ show_u32 t @ r) = Some (nm, t, True)"
proof -
  have "fst (scan (Uint # Ws # Str 15 # [Ws, Str 15]) (show_u32 t @ r)) = [SUint t]"
    using assms(3) by (intro uint_token.scan_final) simp_all
  with assms have "fst (scan WD_REGISTER_SCANF_FORMAT (nm @ '' '' @ show_u32 t @ r)) = [SStr nm, SUint t]"
    by (simp add: WD_REGISTER_SCANF_FORMAT_def str_token.scan_then del: scan.simps)
  then show ?thesis
    by (simp add: parse_register_def sscanf_values)
qed

lemma parse_register_ignorepid:
  assumes "word_ok nm" "length nm \<le> 63" "list_all isspace r"
  shows "parse_register (CMD_REGISTER @ nm @ '' '' @ show_u32 t @ '' ignorepid'' @ r) = Some (nm, t, False)"
proof -
  have w: "word_ok ''ignorepid''" by (simp add: word_ok_def isspace_def)
  have "scan (Uint # Ws # [Str 15, Ws, Str 15]) (show_u32 t @ CHR '' '' # ''ignorepid'' @ r) =
        apfst ((#) (SUint t)) (scan [Str 15, Ws, Str 15] (''ignorepid'' @ r))"
    by (rule uint_token.scan_then) (simp_all add: w)
  moreover have "fst (scan (Str 15 # Ws # Str 15 # []) (''ignorepid'' @ r)) = [SStr ''ignorepid'']"
    using w assms(3) by (intro str_token.scan_final) simp_all
  ultimately have "fst (scan WD_REGISTER_SCANF_FORMAT (nm @ '' '' @ show_u32 t @ '' ignorepid'' @ r)) =
      [SStr nm, SUint t, SStr ''ignorepid'']"
    using assms by (simp add: WD_REGISTER_SCANF_FORMAT_def str_token.scan_then del: scan.simps)
  then show ?thesis
    by (simp add: parse_register_def sscanf_values)
qed

lemma lower_hex_eq: "lower_hex t = (if list_all isxdigit t then Some (map tolower t) else None)"
  by (induction t) auto

text \<open>The identifier argument of PING and UNREGISTER, described by the words of the line.\<close>

definition clientID_arg :: "string \<Rightarrow> string + string" where
  "clientID_arg s =
     (case tokens s of
        [t] \<Rightarrow>
          if length t > 16 then Inl ''ERROR invalid syntax\<newline>''
          else if length t < 16 then Inl ''ERROR invalid clientID length\<newline>''
          else if list_all isxdigit t then Inr (map tolower t)
          else Inl ''ERROR invalid clientID format\<newline>''
      | _ \<Rightarrow> Inl ''ERROR invalid syntax\<newline>'')"

lemma scan_clientID_format:
  assumes "tokens s = t # ts"
  obtains vs e where "scan WD_CLIENTID_SCANF_FORMAT s = (SStr (take 16 t) # vs, e)"
    "vs = [] \<longleftrightarrow> length t \<le> 16 \<and> ts = []"
proof -
  from assms obtain r where dw: "dropWhile isspace s = t @ r" and t: "word_ok t" and ts: "ts = tokens r"
    and tw: "takeWhile (\<lambda>c. \<not> isspace c) (t @ r) = t" by (rule tokens_ConsE)
  have "drop (length (take 16 t)) (t @ r) = drop 16 t @ r" by (cases "length t \<le> 16") simp_all
  moreover from t have "t @ r \<noteq> []" by (simp add: word_ok_def)
  ultimately have sc: "scan WD_CLIENTID_SCANF_FORMAT s =
      apfst ((#) (SStr (take 16 t))) (scan [Ws, Str 15] (drop 16 t @ r))"
    by (simp only: WD_CLIENTID_SCANF_FORMAT_def scan.simps(4) Let_def dw tw if_False)
  have blank: "fst (scan [Ws, Str 15] (drop 16 t @ r)) = [] \<longleftrightarrow> length t \<le> 16 \<and> ts = []"
  proof (cases "length t \<le> 16")
    case True
    then show ?thesis by (auto simp: Let_def tokens_eq_Nil ts)
  next
    case long: False
    then have "drop 16 t \<noteq> []" by simp
    moreover have "\<not> isspace (hd (drop 16 t))"
      using t long by (auto simp: word_ok_def list_all_length hd_drop_conv_nth)
    ultimately have "dropWhile isspace (drop 16 t @ r) \<noteq> []"
      by (cases "drop 16 t") auto
    with long show ?thesis by (auto simp: Let_def)
  qed
  obtain vs e where "scan [Ws, Str 15] (drop 16 t @ r) = (vs, e)"
    by (cases "scan [Ws, Str 15] (drop 16 t @ r)")
  with sc blank show thesis by (intro that) (simp_all del: scan.simps)
qed

lemma parse_clientID_arg: "parse_clientID (pre @ s) pre = clientID_arg s"
proof (cases "tokens s")
  case Nil
  then have "sscanf s WD_CLIENTID_SCANF_FORMAT = (-1, [])"
    by (simp add: sscanf_def WD_CLIENTID_SCANF_FORMAT_def tokens_eq_Nil)
  with Nil show ?thesis
    by (simp add: parse_clientID_def clientID_arg_def)
next
  case (Cons t ts)
  then obtain vs e where sc: "scan WD_CLIENTID_SCANF_FORMAT s = (SStr (take 16 t) # vs, e)"
    and vs: "vs = [] \<longleftrightarrow> length t \<le> 16 \<and> ts = []" by (rule scan_clientID_format)
  then have "sscanf s WD_CLIENTID_SCANF_FORMAT = (int (Suc (length vs)), SStr (take 16 t) # vs)"
    by (simp add: sscanf_def)
  with vs Cons show ?thesis
    by (cases "vs = []")
      (auto simp: parse_clientID_def clientID_arg_def lower_hex_eq WD_CLIENTID_FMT_LEN_def split: list.splits)
qed

lemma clientID_arg_id:
  assumes "id_ok cid" "list_all isspace r"
  shows "clientID_arg (cid @ r) = Inr cid"
proof -
  have "ends_word r" using assms(2) by (cases r) simp_all
  with assms have "tokens (cid @ r) = [cid]"
    by (simp add: tokens_word tokens_blank id_ok_word)
  with assms(1) show ?thesis
    by (simp add: clientID_arg_def id_ok_word) (simp add: id_ok_def list_all_iff)
qed

end
