(* ===== verification/Config_Parser.thy ===== *)
theory Config_Parser
  imports Command_Handler
begin

text \<open>
  The configuration file of the broker (trim and parse_config of wd-broker.c): the file is read in
  pieces of at most 255 characters, every piece is a comment, a key with a value or the start of
  a client section, and anything else ends the process. The parser's variables are the record
  \<open>parse_state\<close>; an error is the \<open>exit_report\<close> of fatal_error.
\<close>

section \<open>Reading lines\<close>

definition trim :: "string \<Rightarrow> string" where
  "trim str =
     (let s = dropWhile isspace str
      in if s = [] then s else rev (dropWhile isspace (rev s)))"

definition newline :: char where
  "newline = CHR 0x0A"

text \<open>
  \<open>fgets(line, sizeof(line), f)\<close>: up to \<open>sz - 1\<close> characters, not beyond the end of the line; the rest
  stays in the file. A piece is read as a C string afterwards.
\<close>

definition fgets :: "nat \<Rightarrow> string \<Rightarrow> string \<times> string" where
  "fgets sz f =
     (let k = min (sz - 1) (Suc (length (takeWhile (\<lambda>c. c \<noteq> newline) f))) in (take k f, drop k f))"

function config_lines :: "string \<Rightarrow> string list" where
  "config_lines f = (if f = [] then [] else case fgets 256 f of (line, rest) \<Rightarrow> line # config_lines rest)"
  by pat_completeness auto
termination
  by (relation "measure length") (auto simp: fgets_def Let_def)

declare config_lines.simps [simp del]

section \<open>Parser state\<close>

definition WD_HW_TIMEOUT_DEFAULT_S :: int where
  "WD_HW_TIMEOUT_DEFAULT_S = 10"

definition WD_HW_TIMEOUT_MIN_S :: int where
  "WD_HW_TIMEOUT_MIN_S = WD_HW_TIMEOUT_DEFAULT_S"

definition WD_HW_TIMEOUT_MAX_S :: int where
  "WD_HW_TIMEOUT_MAX_S = 60"

definition WD_REBOOT_TIMEOUT_DEFAULT_S :: int where
  "WD_REBOOT_TIMEOUT_DEFAULT_S = 60"

definition WD_REBOOT_TIMEOUT_MIN_S :: int where
  "WD_REBOOT_TIMEOUT_MIN_S = 10"

definition WD_REBOOT_TIMEOUT_MAX_S :: int where
  "WD_REBOOT_TIMEOUT_MAX_S = 300"

text \<open>
  \<open>next_client\<close> is \<open>client_idx + 1\<close>, the number of client sections read; the randomness and the clock
  reading of section \<open>i\<close> are the \<open>i\<close>-th values of the environment.
\<close>

record parse_state =
  cfg :: wd_config_t
  slots :: "client_t list"
  next_client :: nat
  line_num :: nat

record section_env =
  section_rnd :: "nat \<Rightarrow> entropy"
  section_now :: "nat \<Rightarrow> timespec"

definition default_config :: "build_config \<Rightarrow> wd_config_t" where
  "default_config bc =
     \<lparr>socket_path = strncpy (SOCKET_PATH_DEFAULT bc) WD_CLIENT_SOCKPATH_LEN,
      wd_timeout_s = WD_HW_TIMEOUT_DEFAULT_S, reboot_timeout_s = WD_REBOOT_TIMEOUT_DEFAULT_S,
      strict_clients = False, unique_clients = False\<rparr>"

definition initial_parse :: "build_config \<Rightarrow> parse_state" where
  "initial_parse bc =
     \<lparr>cfg = default_config bc, slots = replicate (WD_MAX_CLIENTS bc) zero_client, next_client = 0, line_num = 0\<rparr>"

section \<open>Keys\<close>

definition in_line :: "string \<Rightarrow> parse_state \<Rightarrow> string \<Rightarrow> exit_report" where
  "in_line msg st rest = fatal_error (msg @ show_nat (line_num st) @ rest)"

definition parse_bool :: "string \<Rightarrow> bool option" where
  "parse_bool v = (if v = ''true'' then Some True else if v = ''false'' then Some False else None)"

definition set_wd_timeout :: "string \<Rightarrow> parse_state \<Rightarrow> exit_report + parse_state" where
  "set_wd_timeout v st =
     (let t = atoi v
      in if t < WD_HW_TIMEOUT_MIN_S \<or> t > WD_HW_TIMEOUT_MAX_S
         then Inl (in_line ''Invalid watchdog timeout set in line '' st
                (''. Must be between '' @ show_int WD_HW_TIMEOUT_MIN_S @ '' and '' @
                 show_int WD_HW_TIMEOUT_MAX_S @ '' seconds.''))
         else Inr (st\<lparr>cfg := (cfg st)\<lparr>wd_timeout_s := t\<rparr>\<rparr>))"

definition set_reboot_timeout :: "string \<Rightarrow> parse_state \<Rightarrow> exit_report + parse_state" where
  "set_reboot_timeout v st =
     (let t = atoi v
      in if t < WD_REBOOT_TIMEOUT_MIN_S \<or> t > WD_REBOOT_TIMEOUT_MAX_S
         then Inl (in_line ''Invalid reboot timeout set in line '' st
                (''. Must be between '' @ show_int WD_REBOOT_TIMEOUT_MIN_S @ '' and '' @
                 show_int WD_REBOOT_TIMEOUT_MAX_S @ '' seconds.''))
         else Inr (st\<lparr>cfg := (cfg st)\<lparr>reboot_timeout_s := t\<rparr>\<rparr>))"

definition set_client_timeout :: "string \<Rightarrow> parse_state \<Rightarrow> exit_report + parse_state" where
  "set_client_timeout v st =
     (if next_client st = 0
      then Inl (in_line ''Unexpected client timeout set in line '' st '' (must be set in a client section)'')
      else (let t = to_uint32 (atoi v)
            in if t < WD_CLIENT_TIMEOUT_MIN_MS \<or> t > WD_CLIENT_TIMEOUT_MAX_MS
               then Inl (in_line ''Invalid client timeout in line '' st
                      ('', must be between '' @ show_u32 WD_CLIENT_TIMEOUT_MIN_MS @ '' and '' @
                       show_u32 WD_CLIENT_TIMEOUT_MAX_MS @ '' ms''))
               else Inr (st\<lparr>slots := upd_at (next_client st - 1) (\<lambda>c. c\<lparr>timeout_ms := t\<rparr>) (slots st)\<rparr>)))"

definition set_key :: "string \<Rightarrow> string \<Rightarrow> parse_state \<Rightarrow> exit_report + parse_state" where
  "set_key k v st =
     (if k = ''socket_path''
      then Inr (st\<lparr>cfg := (cfg st)\<lparr>socket_path := strncpy v (WD_CLIENT_SOCKPATH_LEN - 1)\<rparr>\<rparr>)
      else if k = ''wd_timeout_s'' then set_wd_timeout v st
      else if k = ''reboot_timeout_s'' then set_reboot_timeout v st
      else if k = ''strict_clients''
      then (case parse_bool v of
              Some b \<Rightarrow> Inr (st\<lparr>cfg := (cfg st)\<lparr>strict_clients := b\<rparr>\<rparr>)
            | None \<Rightarrow> Inl (in_line ''Invalid value for strict_clients in line '' st []))
      else if k = ''unique_clients''
      then (case parse_bool v of
              Some b \<Rightarrow> Inr (st\<lparr>cfg := (cfg st)\<lparr>unique_clients := b\<rparr>\<rparr>)
            | None \<Rightarrow> Inl (in_line ''Invalid value for unique_clients in line '' st []))
      else if k = ''timeout_ms'' then set_client_timeout v st
      else Inl (fatal_error (''Unknown config key '' @ quoted k @ '' in line '' @ show_nat (line_num st))))"

section \<open>Client sections\<close>

text \<open>The slot a section announces.\<close>

definition announce :: "section_env \<Rightarrow> nat \<Rightarrow> string \<Rightarrow> client_t \<Rightarrow> client_t" where
  "announce env i nm c =
     c\<lparr>name := strncpy nm WD_CLIENT_NAME_LEN, clientID := make_clientID (section_rnd env i),
       timeout_ms := 5 * 60 * 1000, anounced := True, active := False, last_ping := section_now env i\<rparr>"

definition open_section ::
    "section_env \<Rightarrow> string \<Rightarrow> string \<Rightarrow> string \<Rightarrow> parse_state \<Rightarrow> exit_report + parse_state" where
  "open_section env filename trimmed nm st =
     (let i = next_client st
      in if length (slots st) \<le> i then Inl (fatal_error (''Too many clients defined in '' @ filename))
         else if length trimmed - length nm > length ''[client ]''
         then Inl (in_line ''Invalid client name used in line '' st [])
         else Inr (st\<lparr>slots := upd_at i (announce env i nm) (slots st), next_client := Suc i\<rparr>))"

section \<open>The file\<close>

definition KEY_VALUE_FORMAT :: "directive list" where
  "KEY_VALUE_FORMAT = [NotIn 63 (CHR ''=''), Lit (CHR ''=''), NotIn 127 newline]"

definition SECTION_FORMAT :: "directive list" where
  "SECTION_FORMAT = map Lit ''[client'' @ [Ws, NotIn 63 (CHR '']'')]"

text \<open>\<open>sscanf(trimmed, "%63[^=]=%127[^\n]", key, val) == 2\<close> and \<open>sscanf(trimmed, "[client %63[^]]", name) == 1\<close>.\<close>

definition key_value :: "string \<Rightarrow> (string \<times> string) option" where
  "key_value s = (case snd (sscanf s KEY_VALUE_FORMAT) of [SStr key, SStr val] \<Rightarrow> Some (key, val) | _ \<Rightarrow> None)"

definition section_name :: "string \<Rightarrow> string option" where
  "section_name s = (case snd (sscanf s SECTION_FORMAT) of [SStr nm] \<Rightarrow> Some nm | _ \<Rightarrow> None)"

text \<open>One iteration of the loop over the lines.\<close>

definition parse_line :: "section_env \<Rightarrow> string \<Rightarrow> string \<Rightarrow> parse_state \<Rightarrow> exit_report + parse_state" where
  "parse_line env filename line st0 =
     (let trimmed = trim (cstr line); st = st0\<lparr>line_num := Suc (line_num st0)\<rparr>
      in if trimmed = [] \<or> hd trimmed = CHR ''#'' then Inr st
         else (case key_value trimmed of
                 Some (key, val) \<Rightarrow> set_key (trim key) (trim val) st
               | None \<Rightarrow>
                   (case section_name trimmed of
                      Some nm \<Rightarrow> open_section env filename trimmed nm st
                    | None \<Rightarrow> Inl (in_line ''Invalid config in line: '' st ('': '' @ trimmed @ ''\<newline>'')))))"

fun parse_lines :: "section_env \<Rightarrow> string \<Rightarrow> string list \<Rightarrow> parse_state \<Rightarrow> exit_report + parse_state" where
  "parse_lines env filename [] st = Inr st"
| "parse_lines env filename (l # ls) st =
     (case parse_line env filename l st of
        Inl e \<Rightarrow> Inl e
      | Inr st' \<Rightarrow> parse_lines env filename ls st')"

text \<open>The first announced name that a later slot repeats.\<close>

fun duplicate_name :: "client_t list \<Rightarrow> string option" where
  "duplicate_name [] = None"
| "duplicate_name (c # cs) =
     (if anounced c \<and> list_ex (\<lambda>d. anounced d \<and> name c = name d) cs then Some (name c) else duplicate_name cs)"

definition check_config :: "string \<Rightarrow> parse_state \<Rightarrow> exit_report + (wd_config_t \<times> client_t list)" where
  "check_config filename st =
     (if strict_clients (cfg st) \<and> next_client st = 0
      then Inl (fatal_error (''No client section found in '' @ filename))
      else (case (if unique_clients (cfg st) then duplicate_name (slots st) else None) of
              Some nm \<Rightarrow> Inl (fatal_error (''Duplicate client name '' @ quoted nm @ '' in config file''))
            | None \<Rightarrow> Inr (cfg st, slots st)))"

text \<open>\<open>file\<close> is the content of the file, \<open>None\<close> when fopen fails.\<close>

definition parse_config ::
    "build_config \<Rightarrow> section_env \<Rightarrow> string \<Rightarrow> string option \<Rightarrow> exit_report + (wd_config_t \<times> client_t list)" where
  "parse_config bc env filename file =
     (case file of
        None \<Rightarrow> Inl (fatal_error (''Failed to open '' @ filename))
      | Some f \<Rightarrow>
          (case parse_lines env filename (config_lines f) (initial_parse bc) of
             Inl e \<Rightarrow> Inl e
           | Inr st \<Rightarrow> check_config filename st))"

section \<open>Refusal\<close>

text \<open>Whatever is wrong with the file, the process ends with EXIT_FAILURE.\<close>

lemma exit_code_fatal [simp]:
  "exit_code (fatal_error msg) = EXIT_FAILURE" "exit_code (in_line msg st rest) = EXIT_FAILURE"
  by (simp_all add: fatal_error_def in_line_def)

lemma parse_line_failure: "parse_line env fn l st = Inl x \<Longrightarrow> exit_code x = EXIT_FAILURE"
  by (auto simp: parse_line_def set_key_def set_wd_timeout_def set_reboot_timeout_def set_client_timeout_def
      open_section_def Let_def split: if_splits option.splits)

lemma parse_lines_failure: "parse_lines env fn ls st = Inl x \<Longrightarrow> exit_code x = EXIT_FAILURE"
  by (induction ls arbitrary: st) (auto dest: parse_line_failure split: sum.splits)

lemma parse_config_failure: "parse_config bc env fn file = Inl x \<Longrightarrow> exit_code x = EXIT_FAILURE"
  by (auto simp: parse_config_def check_config_def dest: parse_lines_failure
      split: option.splits sum.splits if_splits)

section \<open>What an accepted file guarantees\<close>

text \<open>
  The parser's invariant: the ranges of the configuration, and a table whose first \<open>next_client\<close> slots
  are announced clients and whose other slots are empty.
\<close>

definition slot_announced :: "client_t \<Rightarrow> bool" where
  "slot_announced c \<longleftrightarrow> client_ok c \<and> anounced c"

definition announced_prefix :: "nat \<Rightarrow> client_t list \<Rightarrow> bool" where
  "announced_prefix n cs \<longleftrightarrow> n \<le> length cs \<and>
     (\<forall>i < n. slot_announced (cs ! i)) \<and> (\<forall>i. n \<le> i \<and> i < length cs \<longrightarrow> cs ! i = zero_client)"

definition parse_ok :: "nat \<Rightarrow> parse_state \<Rightarrow> bool" where
  "parse_ok m st \<longleftrightarrow> length (slots st) = m \<and> config_ok (cfg st) \<and>
     length (socket_path (cfg st)) < WD_CLIENT_SOCKPATH_LEN \<and> announced_prefix (next_client st) (slots st)"

lemma announced_prefix_init: "announced_prefix 0 (replicate m zero_client)"
  by (simp add: announced_prefix_def)

lemma announced_prefix_timeout:
  assumes "announced_prefix n cs" "0 < n" "timeout_ok t"
  shows "announced_prefix n (upd_at (n - 1) (\<lambda>c. c\<lparr>timeout_ms := t\<rparr>) cs)"
proof -
  have "client_ok (c\<lparr>timeout_ms := t\<rparr>)" if "client_ok c" for c
    using that assms(3) by (simp add: client_ok_def live_def)
  with assms show ?thesis by (auto simp: announced_prefix_def slot_announced_def)
qed

lemma announced_prefix_section:
  assumes "announced_prefix n cs" "n < length cs" "length nm \<le> 63"
  shows "announced_prefix (Suc n) (upd_at n (announce env n nm) cs)"
proof -
  have "timeout_ok 300000" by code_simp
  then have "client_ok (announce env n nm zero_client)"
    using assms(3) by (simp add: client_ok_def announce_def zero_client_def live_def id_ok_make_clientID
        WD_CLIENT_NAME_LEN_def strncpy_def)
  moreover have "anounced (announce env n nm c)" for c by (simp add: announce_def)
  ultimately show ?thesis
    using assms(1,2) by (auto simp: announced_prefix_def slot_announced_def)
qed

lemmas config_bounds = config_ok_def WD_HW_TIMEOUT_MIN_S_def WD_HW_TIMEOUT_MAX_S_def
  WD_HW_TIMEOUT_DEFAULT_S_def WD_REBOOT_TIMEOUT_MIN_S_def WD_REBOOT_TIMEOUT_MAX_S_def
  WD_REBOOT_TIMEOUT_DEFAULT_S_def

lemma set_client_timeout_ok:
  assumes "set_client_timeout v st = Inr st'" "parse_ok m st"
  shows "parse_ok m st'"
proof -
  define t where "t = to_uint32 (atoi v)"
  from assms(1) have "0 < next_client st" "timeout_ok t"
    "st' = st\<lparr>slots := upd_at (next_client st - 1) (\<lambda>c. c\<lparr>timeout_ms := t\<rparr>) (slots st)\<rparr>"
    by (simp_all add: set_client_timeout_def Let_def timeout_ok_iff t_def split: if_splits)
  with assms(2) show ?thesis
    by (simp add: parse_ok_def announced_prefix_timeout del: One_nat_def)
qed

lemma set_key_ok:
  assumes "set_key k v st = Inr st'" "parse_ok m st"
  shows "parse_ok m st'"
  using assms
  by (auto simp: set_key_def set_wd_timeout_def set_reboot_timeout_def Let_def
      parse_ok_def config_bounds strncpy_def WD_CLIENT_SOCKPATH_LEN_def
      dest: set_client_timeout_ok split: if_splits option.splits)

lemma scan_Lits_cons: "fst (scan (map Lit p @ ds) s) = v # vs \<Longrightarrow> \<exists>r. fst (scan ds r) = v # vs"
  by (induction p arbitrary: s) (auto split: list.splits if_splits)

lemma section_name_length:
  assumes "section_name s = Some nm"
  shows "length nm \<le> 63"
proof -
  from assms have "snd (sscanf s SECTION_FORMAT) = SStr nm # []"
    by (simp add: section_name_def split: list.splits scan_val.splits)
  then have "fst (scan (map Lit ''[client'' @ [Ws, NotIn 63 (CHR '']'')]) s) = SStr nm # []"
    by (simp only: sscanf_def SECTION_FORMAT_def Let_def split_beta snd_conv)
  then obtain r where "fst (scan [Ws, NotIn 63 (CHR '']'')] r) = [SStr nm]"
    by (blast dest: scan_Lits_cons)
  then show ?thesis by (auto simp: Let_def split: if_splits)
qed

lemma parse_line_ok:
  assumes "parse_line env fn l st = Inr st'" "parse_ok m st"
  shows "parse_ok m st'"
proof -
  let ?t = "trim (cstr l)" and ?st = "st\<lparr>line_num := Suc (line_num st)\<rparr>"
  have ok: "parse_ok m ?st" using assms(2) by (simp add: parse_ok_def)
  show ?thesis
  proof (cases "?t = [] \<or> hd ?t = CHR ''#''")
    case True
    with assms(1) have "st' = ?st" unfolding parse_line_def Let_def by simp
    with ok show ?thesis by simp
  next
    case False
    then have line: "parse_line env fn l st =
        (case key_value ?t of Some (key, val) \<Rightarrow> set_key (trim key) (trim val) ?st
         | None \<Rightarrow> (case section_name ?t of Some nm \<Rightarrow> open_section env fn ?t nm ?st
             | None \<Rightarrow> Inl (in_line ''Invalid config in line: '' ?st ('': '' @ ?t @ ''\<newline>''))))"
      unfolding parse_line_def Let_def by (simp only: if_False)
    show ?thesis
    proof (cases "key_value ?t")
      case (Some kv)
      with line assms(1) ok show ?thesis by (cases kv) (auto intro: set_key_ok)
    next
      case None
      with line assms(1) obtain nm where nm: "section_name ?t = Some nm"
        and op: "open_section env fn ?t nm ?st = Inr st'" by (cases "section_name ?t") auto
      with ok section_name_length [OF nm] show ?thesis
        by (auto simp: open_section_def Let_def parse_ok_def intro!: announced_prefix_section split: if_splits)
    qed
  qed
qed

lemma parse_lines_ok: "parse_lines env fn ls st = Inr st' \<Longrightarrow> parse_ok m st \<Longrightarrow> parse_ok m st'"
  by (induction ls arbitrary: st) (auto split: sum.splits dest: parse_line_ok)

lemma duplicate_name_None:
  "duplicate_name cs = None \<longleftrightarrow> distinct (map name (filter anounced cs))"
  by (induction cs) (auto simp: list_ex_iff)

lemma announced_prefix_set:
  assumes "announced_prefix n cs" "x \<in> set cs"
  shows "slot_announced x \<or> x = zero_client"
proof -
  from assms(2) obtain i where "i < length cs" "x = cs ! i" by (auto simp: in_set_conv_nth)
  with assms(1) show ?thesis by (cases "i < n") (simp_all add: announced_prefix_def)
qed

lemma announced_prefix_table_ok:
  assumes "announced_prefix n cs" "unique_clients c \<longrightarrow> duplicate_name cs = None"
  shows "table_ok c cs"
proof -
  note slot = announced_prefix_set [OF assms(1)]
  have "client_ok zero_client" by (simp add: client_ok_def zero_client_def live_def WD_CLIENT_NAME_LEN_def)
  with slot have ok: "list_all client_ok cs"
    by (auto simp: slot_announced_def list_all_iff)
  have "live x \<longleftrightarrow> anounced x" if "x \<in> set cs" for x
    using slot [OF that] by (auto simp: slot_announced_def live_def zero_client_def client_ok_def)
  then have "filter live cs = filter anounced cs" by (simp cong: filter_cong)
  with ok assms(2) show ?thesis by (simp add: table_ok_def live_names_def duplicate_name_None)
qed

text \<open>The state the broker starts with.\<close>

definition start_broker :: "wd_config_t \<Rightarrow> client_t list \<Rightarrow> broker" where
  "start_broker c cs = \<lparr>config = c, clients = cs, running = True, reboot = False\<rparr>"

lemma parse_config_cases:
  assumes "parse_config bc env fn file = Inr (c, cs)"
  obtains f st where "file = Some f" "parse_lines env fn (config_lines f) (initial_parse bc) = Inr st"
    "c = cfg st" "cs = slots st" "strict_clients c \<longrightarrow> 0 < next_client st"
    "unique_clients c \<longrightarrow> duplicate_name cs = None"
  using assms by (auto simp: parse_config_def check_config_def split: option.splits sum.splits if_splits)

lemma initial_parse_ok:
  "length (SOCKET_PATH_DEFAULT bc) < WD_CLIENT_SOCKPATH_LEN \<Longrightarrow> parse_ok (WD_MAX_CLIENTS bc) (initial_parse bc)"
  by (simp add: parse_ok_def initial_parse_def default_config_def config_bounds strncpy_def
      announced_prefix_init)

lemma parse_config_ok:
  assumes "parse_config bc env fn file = Inr (c, cs)"
    and "length (SOCKET_PATH_DEFAULT bc) < WD_CLIENT_SOCKPATH_LEN"
  shows "config_ok c" "length (socket_path c) < WD_CLIENT_SOCKPATH_LEN" "broker_ok bc (start_broker c cs)"
    "\<exists>n. announced_prefix n cs \<and> (strict_clients c \<longrightarrow> 0 < n)"
proof -
  from assms(1) obtain f st where "parse_lines env fn (config_lines f) (initial_parse bc) = Inr st"
    and st: "c = cfg st" "cs = slots st" "strict_clients c \<longrightarrow> 0 < next_client st"
      "unique_clients c \<longrightarrow> duplicate_name cs = None"
    by (rule parse_config_cases)
  from parse_lines_ok [OF this(1) initial_parse_ok [OF assms(2)]]
  have ok: "parse_ok (WD_MAX_CLIENTS bc) st" .
  with st show "config_ok c" "length (socket_path c) < WD_CLIENT_SOCKPATH_LEN"
    by (simp_all add: parse_ok_def)
  from ok st have pre: "announced_prefix (next_client st) cs" "length cs = WD_MAX_CLIENTS bc"
    by (simp_all add: parse_ok_def)
  with st(3) show "\<exists>n. announced_prefix n cs \<and> (strict_clients c \<longrightarrow> 0 < n)" by blast
  from announced_prefix_table_ok [OF pre(1) st(4)] pre(2) show "broker_ok bc (start_broker c cs)"
    by (simp add: broker_ok_def start_broker_def)
qed

end
