(* ===== verification/Main_Loop.thy ===== *)
theory Main_Loop
  imports Config_Parser
begin

text \<open>
  The main loop of wd-broker.c and what follows it (main from \<open>while (running && all_ok)\<close> on): one
  iteration serves at most one connection, checks every client's heartbeat, and feeds the hardware
  watchdog when its timer has fired. The answers of the operating system to one iteration are an
  \<open>iter_env\<close>; what the process does to the outside is a list of \<open>action\<close>s.
\<close>

section \<open>Actions\<close>

datatype action =
    Out effect
  | Print string
  | Socket_create
  | Timer_create
  | Wd_open
  | Wd_set_timeout int
  | Wd_feed
  | Wd_magic_close
  | Wd_disable
  | Wd_close
  | Timer_set int
  | Timer_close
  | Unlink string
  | Bind string
  | Listen
  | Chmod string nat
  | Chown string uid_t gid_t
  | Setgroups
  | Setgid gid_t
  | Setuid uid_t
  | Fork
  | Detach
  | Openlog facility
  | Closelog

text \<open>Writing the byte \<open>V\<close> and WDIOS\_DISABLECARD stop the hardware watchdog.\<close>

definition disarms :: "action \<Rightarrow> bool" where
  "disarms a \<longleftrightarrow> a = Wd_magic_close \<or> a = Wd_disable"

section \<open>Heartbeat check\<close>

definition late :: "timespec \<Rightarrow> client_t \<Rightarrow> bool" where
  "late t c \<longleftrightarrow> live c \<and> ms_since t (last_ping c) > timeout_ms c"

text \<open>\<open>%d\<close> of the unsigned timeout, which the invariant keeps below \<open>2 ^ 31\<close>.\<close>

definition late_message :: "timespec \<Rightarrow> client_t \<Rightarrow> effect" where
  "late_message t c =
     (if active c
      then Log LOG_ALERT (''Client '' @ quoted (name c) @ '' (PID '' @ show_int (pid c) @ '', clientID='' @
             clientID c @ '') missed heartbeat ('' @ show_u32 (ms_since t (last_ping c)) @ '' ms > '' @
             show_int (to_int32 (uint (timeout_ms c))) @ '' ms)'')
      else Log LOG_WARNING (''Client '' @ quoted (name c) @ '' not registered within '' @
             show_u32 (timeout_ms c) @ '' ms''))"

text \<open>
  The loop over the table from index \<open>i\<close> on; \<open>clk i\<close> is the clock when slot \<open>i\<close> is examined. It stops at the
  first client that is late. The result says whether none was.
\<close>

fun check_clients :: "(nat \<Rightarrow> timespec) \<Rightarrow> nat \<Rightarrow> client_t list \<Rightarrow> bool \<times> effect list" where
  "check_clients clk i [] = (True, [])"
| "check_clients clk i (c # cs) =
     (if late (clk i) c then (False, [late_message (clk i) c]) else check_clients clk (Suc i) cs)"

section \<open>One iteration\<close>

text \<open>
  select: failed (interrupted or not), or returned with the sets telling whether the server socket
  and the timer are readable (neither after the timeout of one second). accept: a connection, an
  error that is retried (EAGAIN, EWOULDBLOCK, ECONNABORTED, EINTR), or another one.
\<close>

datatype loop_select = Sel_interrupted | Sel_failed | Sel_ready bool bool

datatype accept_result = Acc_conn conn | Acc_retry | Acc_failed

record iter_env =
  sel :: loop_select
  acc :: accept_result
  clk :: "nat \<Rightarrow> timespec"
  timer_read_ok :: bool
  feed_ok :: bool
  sig :: "int option"
  errtxt :: string

record loop_state =
  bk :: broker
  all_ok :: bool
  watchdog_open :: bool

definition serve_connection :: "build_config \<Rightarrow> iter_env \<Rightarrow> loop_state \<Rightarrow> loop_state \<times> action list" where
  "serve_connection bc e st =
     (case acc e of
        Acc_conn k \<Rightarrow> (case handle_command bc k (bk st) of (b, es) \<Rightarrow> (st\<lparr>bk := b\<rparr>, map Out es))
      | Acc_retry \<Rightarrow> (st, [])
      | Acc_failed \<Rightarrow> (st\<lparr>all_ok := False\<rparr>, [Out (Log LOG_ERR (''accept: '' @ errtxt e))]))"

definition check_heartbeats :: "iter_env \<Rightarrow> loop_state \<Rightarrow> loop_state \<times> action list" where
  "check_heartbeats e st =
     (case check_clients (clk e) 0 (clients (bk st)) of
        (ok, es) \<Rightarrow> (if ok then st else st\<lparr>all_ok := False\<rparr>, map Out es))"

definition feed_watchdog :: "iter_env \<Rightarrow> loop_state \<Rightarrow> action list \<times> (exit_report + unit)" where
  "feed_watchdog e st =
     (if \<not> timer_read_ok e
      then ([], Inl (fatal_errno ''Failed to read timer file descriptor'' (errtxt e)))
      else if all_ok st \<and> watchdog_open st
      then (if feed_ok e then ([Wd_feed], Inr ())
            else ([], Inl (fatal_error (''Failed to feed watchdog: '' @ errtxt e))))
      else ([], Inr ()))"

text \<open>signal\_handler, which may run at any point of the iteration; the loop condition reads the flag.\<close>

definition signal_handler :: "int \<Rightarrow> loop_state \<Rightarrow> loop_state \<times> action list" where
  "signal_handler s st =
     (st\<lparr>bk := (bk st)\<lparr>running := False\<rparr>\<rparr>,
      [Out (Log LOG_INFO (''Received signal '' @ show_int s @ '', shutting down...''))])"

definition deliver_signal :: "iter_env \<Rightarrow> loop_state \<Rightarrow> loop_state \<times> action list" where
  "deliver_signal e st = (case sig e of None \<Rightarrow> (st, []) | Some s \<Rightarrow> signal_handler s st)"

definition loop_body :: "build_config \<Rightarrow> iter_env \<Rightarrow> loop_state \<Rightarrow> action list \<times> (exit_report + loop_state)" where
  "loop_body bc e st =
     (case sel e of
        Sel_interrupted \<Rightarrow> ([], Inr st)
      | Sel_failed \<Rightarrow> ([Out (Log LOG_CRIT (''select: '' @ errtxt e))], Inr (st\<lparr>all_ok := False\<rparr>))
      | Sel_ready server timer \<Rightarrow>
          (let (st1, a1) = (if server then serve_connection bc e st else (st, []));
               (st2, a2) = check_heartbeats e st1;
               (a3, r) = (if timer then feed_watchdog e st2 else ([], Inr ()))
           in (a1 @ a2 @ a3, case r of Inl x \<Rightarrow> Inl x | Inr _ \<Rightarrow> Inr st2)))"

definition iteration :: "build_config \<Rightarrow> iter_env \<Rightarrow> loop_state \<Rightarrow> action list \<times> (exit_report + loop_state)" where
  "iteration bc e st =
     (case loop_body bc e st of
        (as, Inl x) \<Rightarrow> (as, Inl x)
      | (as, Inr st') \<Rightarrow> (case deliver_signal e st' of (st'', as') \<Rightarrow> (as @ as', Inr st'')))"

text \<open>
  \<open>while (running && all_ok)\<close> over a sequence of iterations: the process is still in the loop when the
  sequence is used up, has left it, or was ended by fatal_error.
\<close>

datatype loop_result = Looping loop_state | Finished loop_state | Died exit_report

fun main_loop :: "build_config \<Rightarrow> iter_env list \<Rightarrow> loop_state \<Rightarrow> action list \<times> loop_result" where
  "main_loop bc es st =
     (if running (bk st) \<and> all_ok st
      then (case es of
              [] \<Rightarrow> ([], Looping st)
            | e # es' \<Rightarrow>
                (case iteration bc e st of
                   (as, Inl x) \<Rightarrow> (as, Died x)
                 | (as, Inr st') \<Rightarrow> apfst ((@) as) (main_loop bc es' st')))
      else ([], Finished st))"

declare main_loop.simps [simp del]

section \<open>After the loop\<close>

text \<open>
  What the operating system answers after the loop: the signal that ends the wait for the reset
  (\<open>None\<close>: none arrives, the watchdog resets the machine), and whether the accesses to the watchdog
  succeed.
\<close>

record exit_env =
  pending_signal :: "int option"
  settimeout_ok :: bool
  last_feed_ok :: bool
  magic_ok :: bool
  disable_ok :: bool
  exit_errtxt :: string

definition reset_pending :: "exit_env \<Rightarrow> loop_state \<Rightarrow> action list \<times> loop_state option" where
  "reset_pending x st =
     (let a = [Out (Log LOG_EMERG ''SYSTEM RESET PENDING!''), Timer_close, Unlink (socket_path (config (bk st)))]
      in if all_ok st then ([], Some st)
         else if \<not> running (bk st) then (a, Some st)
         else (case pending_signal x of
                 None \<Rightarrow> (a, None)
               | Some s \<Rightarrow> (a @ snd (signal_handler s st), Some (fst (signal_handler s st)))))"

definition reboot_failsafe :: "exit_env \<Rightarrow> loop_state \<Rightarrow> action list \<times> (exit_report + unit)" where
  "reboot_failsafe x st =
     (let t = reboot_timeout_s (config (bk st))
      in if \<not> reboot (bk st) then ([], Inr ())
         else if \<not> watchdog_open st
         then ([Out (Log LOG_NOTICE (''No hardware watchdog available, reboot failsafe not active (reboot_timeout_s: '' @
                   show_int t @ '' seconds)''))], Inr ())
         else (let a = (if settimeout_ok x then [Wd_set_timeout t]
                        else [Out (Log LOG_ERR (''Failed to set watchdog reboot timeout: '' @ exit_errtxt x))])
               in if \<not> last_feed_ok x
                  then (a, Inl (fatal_error (''Failed to feed watchdog: '' @ exit_errtxt x)))
                  else (a @ [Wd_feed, Out (Log LOG_NOTICE
                      (''Reboot failsafe activated, hardware watchdog will trigger reboot in '' @ show_int t @
                       '' seconds''))], Inr ())))"

definition stop_watchdog :: "exit_env \<Rightarrow> loop_state \<Rightarrow> action list" where
  "stop_watchdog x st =
     (if \<not> watchdog_open st then []
      else (if reboot (bk st) then []
            else (if magic_ok x then [Wd_magic_close]
                  else [Out (Log LOG_ERR (''Failed to stop watchdog: '' @ exit_errtxt x))]) @
                 (if disable_ok x then [Wd_disable]
                  else [Out (Log LOG_ERR (''Failed to disable watchdog: '' @ exit_errtxt x))])) @
           [Wd_close])"

text \<open>The end of main: the actions and the exit status, \<open>None\<close> while the process waits for the reset.\<close>

definition shutdown :: "exit_env \<Rightarrow> loop_state \<Rightarrow> action list \<times> int option" where
  "shutdown x st =
     (case reset_pending x st of
        (as, None) \<Rightarrow> (as, None)
      | (as, Some st') \<Rightarrow>
          (case reboot_failsafe x st' of
             (bs, Inl r) \<Rightarrow> (as @ bs, Some (exit_code r))
           | (bs, Inr _) \<Rightarrow>
               (as @ bs @ [Out (Log LOG_INFO ''Exiting wd-broker...'')] @ stop_watchdog x st' @
                [Closelog, Timer_close, Unlink (socket_path (config (bk st')))], Some 0)))"

text \<open>Everything from the start of the loop to the end of the process.\<close>

definition serve :: "build_config \<Rightarrow> iter_env list \<Rightarrow> exit_env \<Rightarrow> loop_state \<Rightarrow> action list \<times> int option" where
  "serve bc es x st =
     (case main_loop bc es st of
        (as, Looping _) \<Rightarrow> (as, None)
      | (as, Died r) \<Rightarrow> (as, Some (exit_code r))
      | (as, Finished st') \<Rightarrow> (case shutdown x st' of (bs, c) \<Rightarrow> (as @ bs, c)))"

end
