(* ===== verification/Startup.thy ===== *)
theory Startup
  imports Main_Loop
begin

text \<open>
  main of wd-broker.c up to the main loop: command line, service user and configuration file,
  timer, socket, hardware watchdog, privileges and daemon process, in the order of the source. A
  step is a \<open>proc\<close>: the actions it performs (\<open>Print\<close> is printf) and either the report the process ends
  with or a value for the next step. \<open>Detach\<close> stands for umask and the closing of the three standard
  streams after chdir, \<open>Openlog\<close> for openlog with LOG\_PID and LOG\_NDELAY.
\<close>

section \<open>Steps\<close>

type_synonym 'a proc = "action list \<times> (exit_report + 'a)"

definition and_then :: "'a proc \<Rightarrow> ('a \<Rightarrow> 'b proc) \<Rightarrow> 'b proc" where
  "and_then p f =
     (case p of
        (as, Inl x) \<Rightarrow> (as, Inl x)
      | (as, Inr v) \<Rightarrow> (case f v of (bs, r) \<Rightarrow> (as @ bs, r)))"

definition require :: "bool \<Rightarrow> exit_report \<Rightarrow> unit proc" where
  "require c x = ([], if c then Inr () else Inl x)"

text \<open>A system call: the action when it succeeds, the end of the process when it fails.\<close>

definition attempt :: "action \<Rightarrow> bool \<Rightarrow> exit_report \<Rightarrow> unit proc" where
  "attempt a ok x = (if ok then ([a], Inr ()) else ([], Inl x))"

section \<open>Command line\<close>

text \<open>The values getopt\_long returns; any other one is an option it does not know.\<close>

datatype option_event = Opt_c string | Opt_d | Opt_h | Opt_n | Opt_s string | Opt_u string | Opt_v | Opt_unknown

record options =
  config_file :: string
  daemonize :: bool
  watchdog_enabled :: bool
  syslog_facility :: facility
  service_user :: string

definition exits :: "int \<Rightarrow> exit_report" where
  "exits c = \<lparr>to_stderr = [], exit_code = c\<rparr>"

definition DEFAULT_CONFIG_PATH :: "build_config \<Rightarrow> string" where
  "DEFAULT_CONFIG_PATH bc = SYSCONFDIR bc @ ''/wd-broker.conf''"

definition print_help :: "build_config \<Rightarrow> string" where
  "print_help bc =
     ''Usage: wd-broker [OPTIONS]\<newline>'' @
     ''\<newline>Options:\<newline>'' @
     ''  --help                    Show this help message and exit\<newline>'' @
     ''  --version                 Show version information and exit\<newline>'' @
     ''  --daemonize               Run as a daemon (default: false)\<newline>'' @
     ''  --config-file <file>      Load configuration from file (default: '' @ DEFAULT_CONFIG_PATH bc @ '')\<newline>'' @
     ''  --service-user <user>     Set the service user to drop privileges to (default: '' @ SERVICE_USER_DEFAULT bc @ '')\<newline>'' @
     ''                            ATTENTION: Must not be '' @ quoted ''root'' @ ''\<newline>'' @
     ''  --syslog-facility <name>  Set syslog facility when running as a daemon\<newline>'' @
     ''                            Supported values: LOG_DAEMON (default), LOG_USER,\<newline>'' @
     ''                            LOG_LOCAL0 through LOG_LOCAL7\<newline>'' @
     ''  --no-watchdog             Disable hardware watchdog (test mode, default: false)\<newline>'' @
     ''\<newline>Examples:\<newline>'' @
     ''  wd-broker --no-watchdog --config-file /tmp/test-config\<newline>'' @
     ''  wd-broker --daemonize\<newline>'' @
     ''\<newline>''"

definition default_options :: "build_config \<Rightarrow> options" where
  "default_options bc =
     \<lparr>config_file = DEFAULT_CONFIG_PATH bc, daemonize = False, watchdog_enabled = True,
      syslog_facility = LOG_DAEMON, service_user = SERVICE_USER_DEFAULT bc\<rparr>"

fun parse_options :: "build_config \<Rightarrow> option_event list \<Rightarrow> options \<Rightarrow> options proc" where
  "parse_options bc [] opts = ([], Inr opts)"
| "parse_options bc (ev # evs) opts =
     (case ev of
        Opt_c arg \<Rightarrow> parse_options bc evs (opts\<lparr>config_file := arg\<rparr>)
      | Opt_d \<Rightarrow> parse_options bc evs (opts\<lparr>daemonize := True\<rparr>)
      | Opt_h \<Rightarrow> ([Print (print_help bc)], Inl (exits EXIT_SUCCESS))
      | Opt_n \<Rightarrow> parse_options bc evs (opts\<lparr>watchdog_enabled := False\<rparr>)
      | Opt_s arg \<Rightarrow>
          (case parse_syslog_facility (Some arg) of
             Inl x \<Rightarrow> ([], Inl x)
           | Inr f \<Rightarrow> parse_options bc evs (opts\<lparr>syslog_facility := f\<rparr>))
      | Opt_u arg \<Rightarrow> parse_options bc evs (opts\<lparr>service_user := arg\<rparr>)
      | Opt_v \<Rightarrow> ([Print (''wd-broker v'' @ PACKAGE_VERSION bc @ ''\<newline>'')], Inl (exits 0))
      | Opt_unknown \<Rightarrow> ([Print (print_help bc)], Inl (exits EXIT_FAILURE)))"

section \<open>Environment\<close>

datatype file_type = Regular | Symlink | Socket_file | Other_file

record file_stat =
  st_type :: file_type
  st_perm :: u32
  st_uid :: uid_t

record passwd =
  pw_uid :: uid_t
  pw_gid :: gid_t

datatype connect_result = Connected | Refused | Connect_failed

datatype bind_result = Bound | Bind_denied | Bind_failed

record start_env =
  euid :: uid_t
  getpwnam :: "string \<Rightarrow> passwd option"
  lstat :: "string \<Rightarrow> file_stat option"
  fopen :: "string \<Rightarrow> string option"
  sections :: section_env
  server_socket_ok :: bool
  timerfd_ok :: bool
  settime_ok :: bool
  probe_socket_ok :: bool
  probe :: connect_result
  unlink_ok :: bool
  bind :: bind_result
  listen_ok :: bool
  chmod_ok :: bool
  chown_ok :: bool
  wd_open_ok :: bool
  wd_settimeout_ok :: bool
  setgroups_ok :: bool
  setgid_ok :: bool
  setuid_ok :: bool
  fork_pid :: int
  setsid_ok :: bool
  chdir_ok :: bool
  bootstatus :: "u32 option"
  strerror :: string

definition started_as_root :: "start_env \<Rightarrow> bool" where
  "started_as_root env \<longleftrightarrow> euid env = 0"

text \<open>
  main creates the server socket and the timer in its declarations, before it looks at anything else,
  and does not check the descriptors: a failure shows when they are used. The socket has no address
  yet and the timer is not armed.
\<close>

definition open_descriptors :: "start_env \<Rightarrow> unit proc" where
  "open_descriptors env =
     ((if server_socket_ok env then [Socket_create] else []) @ (if timerfd_ok env then [Timer_create] else []), Inr ())"

section \<open>Checks\<close>

definition LOGIN_NAME_MAX :: nat where
  "LOGIN_NAME_MAX = 256"

definition check_service_user :: "start_env \<Rightarrow> options \<Rightarrow> passwd proc" where
  "check_service_user env opts =
     (let u = service_user opts
      in if length u = 0 \<or> length u > LOGIN_NAME_MAX
         then ([], Inl (fatal_error (''Invalid service user name '' @ quoted u @ ''.\<newline>'')))
         else (case getpwnam env u of
                 None \<Rightarrow> ([], Inl (fatal_error (''Service user '' @ quoted u @ '' does not exist.\<newline>'')))
               | Some pw \<Rightarrow>
                   if pw_uid pw = 0
                   then ([], Inl (fatal_error
                          ''Refusing to drop privileges to root, use a different service user.\<newline>''))
                   else ([], Inr pw)))"

unbundle bit_operations_syntax

definition check_config_file :: "start_env \<Rightarrow> options \<Rightarrow> passwd \<Rightarrow> unit proc" where
  "check_config_file env opts pw =
     (let f = config_file opts; q = ''Config file '' @ quoted f
      in case lstat env f of
           None \<Rightarrow> ([], Inl (fatal_error (''Cannot stat config file '' @ quoted f @ '': '' @ strerror env)))
         | Some st \<Rightarrow>
             and_then (require (st_type st = Regular) (fatal_error (q @ '' is not a regular file''))) (\<lambda>_.
             and_then (require (st_type st \<noteq> Symlink) (fatal_error (q @ '' must not be a symlink''))) (\<lambda>_.
             and_then (require (st_uid st = pw_uid pw)
                (fatal_error (q @ '' must be owned by '' @ quoted (service_user opts) @ '' (uid '' @
                   show_nat (pw_uid pw) @ '')\<newline>''))) (\<lambda>_.
             require (st_perm st AND 0x12 = 0)
                (fatal_error (q @ '' must not be writable by group or others''))))))"


definition read_config :: "build_config \<Rightarrow> start_env \<Rightarrow> options \<Rightarrow> (wd_config_t \<times> client_t list) proc" where
  "read_config bc env opts = ([], parse_config bc (sections env) (config_file opts) (fopen env (config_file opts)))"

section \<open>Timer and socket\<close>

definition timer_interval :: "wd_config_t \<Rightarrow> int" where
  "timer_interval c = trunc_div (wd_timeout_s c) 2"

definition start_timer :: "start_env \<Rightarrow> wd_config_t \<Rightarrow> unit proc" where
  "start_timer env c =
     attempt (Timer_set (timer_interval c)) (timerfd_ok env \<and> settime_ok env) (fatal_errno ''timerfd_settime failed'' (strerror env))"

definition remove_stale_socket :: "start_env \<Rightarrow> wd_config_t \<Rightarrow> unit proc" where
  "remove_stale_socket env c =
     (let p = socket_path c
      in case lstat env p of
           None \<Rightarrow> ([], Inr ())
         | Some st \<Rightarrow>
             and_then (require (st_type st = Socket_file)
                (fatal_error (''Cannot use '' @ quoted p @ ''. File exists but is not a socket.\<newline>'' @
                   ''Hint: Remove the file or choose a different path.''))) (\<lambda>_.
             and_then (require (probe_socket_ok env)
                (fatal_errno ''Could not create socket to test for active broker'' (strerror env))) (\<lambda>_.
             and_then (require (probe env \<noteq> Connected)
                (fatal_error (''Active wd-broker instance detected at '' @ quoted p @ ''.\<newline>''))) (\<lambda>_.
             and_then (require (probe env = Refused)
                (fatal_errno ''Unexpected error when probing existing socket'' (strerror env))) (\<lambda>_.
             and_then (attempt (Unlink p) (unlink_ok env)
                (fatal_errno ''Could not remove stale socket file'' (strerror env))) (\<lambda>_.
             ([Print (''Removed stale socket at '' @ quoted p @ ''\<newline>'')], Inr ())))))))"

text \<open>bind on a descriptor that is not open fails with EBADF.\<close>

definition bind_server :: "start_env \<Rightarrow> bind_result" where
  "bind_server env = (if server_socket_ok env then bind env else Bind_failed)"

definition bind_error :: "start_env \<Rightarrow> wd_config_t \<Rightarrow> exit_report" where
  "bind_error env c =
     (if bind_server env = Bind_denied
      then \<lparr>to_stderr = ''Error: Permission denied to bind to socket path '' @ quoted (socket_path c) @ ''\<newline>'' @
              (if started_as_root env then [] else ''Please run as root or use a different socket path\<newline>''),
            exit_code = EXIT_FAILURE\<rparr>
      else fatal_error (''Failed to bind to socket path '' @ quoted (socket_path c) @ ''\<newline>''))"

text \<open>The octal mode 0660.\<close>

definition SOCKET_MODE :: nat where
  "SOCKET_MODE = 6 * 64 + 6 * 8"

definition create_socket :: "start_env \<Rightarrow> passwd \<Rightarrow> wd_config_t \<Rightarrow> unit proc" where
  "create_socket env pw c =
     (let p = socket_path c
      in and_then (attempt (Bind p) (bind_server env = Bound) (bind_error env c)) (\<lambda>_.
         and_then (attempt Listen (listen_ok env)
            (fatal_errno ''Could not listen on the server socket'' (strerror env))) (\<lambda>_.
         and_then (attempt (Chmod p SOCKET_MODE) (chmod_ok env)
            (fatal_errno ''Could not set socket permissions'' (strerror env))) (\<lambda>_.
         if started_as_root env
         then attempt (Chown p (pw_uid pw) (pw_gid pw)) (chown_ok env) (fatal_errno ''Could not set socket ownership'' (strerror env))
         else ([], Inr ())))))"

section \<open>Watchdog and privileges\<close>

definition open_watchdog :: "start_env \<Rightarrow> options \<Rightarrow> wd_config_t \<Rightarrow> unit proc" where
  "open_watchdog env opts c =
     (if \<not> watchdog_enabled opts then ([], Inr ())
      else and_then (require (started_as_root env) (fatal_error ''wd-broker must be started as root!\<newline>'')) (\<lambda>_.
           and_then (attempt Wd_open (wd_open_ok env)
              (fatal_error (''Failed to open /dev/watchdog: '' @ strerror env @ ''\<newline>''))) (\<lambda>_.
           and_then ([Out (Log LOG_INFO ''Opened hardware watchdog device /dev/watchdog'')], Inr ()) (\<lambda>_.
           attempt (Wd_set_timeout (wd_timeout_s c)) (wd_settimeout_ok env)
              (fatal_error (''Failed to set watchdog timeout: '' @ strerror env @ ''\<newline>''))))))"

definition drop_privileges :: "start_env \<Rightarrow> passwd \<Rightarrow> unit proc" where
  "drop_privileges env pw =
     (if \<not> started_as_root env then ([], Inr ())
      else and_then (attempt Setgroups (setgroups_ok env)
              (fatal_errno ''Failed to drop supplementary groups'' (strerror env))) (\<lambda>_.
           and_then (attempt (Setgid (pw_gid pw)) (setgid_ok env)
              (fatal_errno ''Failed to drop group privileges'' (strerror env))) (\<lambda>_.
           attempt (Setuid (pw_uid pw)) (setuid_ok env)
              (fatal_errno ''Failed to drop user privileges'' (strerror env)))))"

text \<open>The parent ends with success, the child goes on.\<close>

definition daemonize_process :: "start_env \<Rightarrow> options \<Rightarrow> unit proc" where
  "daemonize_process env opts =
     (if \<not> daemonize opts then ([], Inr ())
      else if fork_pid env < 0 then ([], Inl (fatal_errno ''Could not create daemon process'' (strerror env)))
      else if fork_pid env > 0 then ([Fork, Print (''Daemon started with PID: '' @ show_int (fork_pid env) @ ''\<newline>'')], Inl (exits EXIT_SUCCESS))
      else and_then ([Fork], Inr ()) (\<lambda>_.
           and_then (require (setsid_ok env) (fatal_errno ''Could not detach from terminal'' (strerror env))) (\<lambda>_.
           and_then (attempt Detach (chdir_ok env)
             (fatal_errno (''Could not change working directory to '' @ quoted ''/'') (strerror env))) (\<lambda>_.
           ([Openlog (syslog_facility opts)], Inr ())))))"

section \<open>The whole start\<close>

definition startup_logs :: "build_config \<Rightarrow> start_env \<Rightarrow> options \<Rightarrow> wd_config_t \<Rightarrow> client_t list \<Rightarrow> effect list" where
  "startup_logs bc env opts c cs =
     [Log LOG_NOTICE (''wd-broker v'' @ PACKAGE_VERSION bc @ '' started on socket '' @ socket_path c)] @
     (if watchdog_enabled opts
      then Log LOG_INFO (''Hardware watchdog timeout: '' @ show_int (wd_timeout_s c) @ '' seconds'') #
           (case bootstatus env of
              None \<Rightarrow> [Log LOG_ERR (''Failed to get boot status: '' @ strerror env)]
            | Some bs \<Rightarrow> log_bootstatus bs)
      else [Log LOG_INFO ''Running in test mode, no hardware watchdog used'']) @
     map (\<lambda>cl. Log LOG_INFO (''Client '' @ quoted (name cl) @ '' announced, expected within '' @
            show_int (to_int32 (uint (timeout_ms cl))) @ '' ms'')) (takeWhile anounced cs)"

text \<open>Everything before the hardware watchdog is touched, once the options are read.\<close>

definition prepare :: "build_config \<Rightarrow> start_env \<Rightarrow> options \<Rightarrow> (passwd \<times> wd_config_t \<times> client_t list) proc" where
  "prepare bc env opts =
     and_then (check_service_user env opts) (\<lambda>pw.
     and_then (check_config_file env opts pw) (\<lambda>_.
     and_then (read_config bc env opts) (\<lambda>(c, cs).
     and_then (start_timer env c) (\<lambda>_.
     and_then (remove_stale_socket env c) (\<lambda>_.
     and_then (create_socket env pw c) (\<lambda>_. ([], Inr (pw, c, cs))))))))"

definition startup :: "build_config \<Rightarrow> start_env \<Rightarrow> options \<Rightarrow> loop_state proc" where
  "startup bc env opts =
     and_then (prepare bc env opts) (\<lambda>(pw, c, cs).
     and_then (open_watchdog env opts c) (\<lambda>_.
     and_then (drop_privileges env pw) (\<lambda>_.
     and_then (daemonize_process env opts) (\<lambda>_.
       (map Out (startup_logs bc env opts c cs),
        Inr \<lparr>bk = start_broker c cs, all_ok = True, watchdog_open = watchdog_enabled opts\<rparr>)))))"

text \<open>The process from its command line to its end.\<close>

definition main :: "build_config \<Rightarrow> option_event list \<Rightarrow> start_env \<Rightarrow> iter_env list \<Rightarrow> exit_env \<Rightarrow> action list \<times> int option" where
  "main bc argv env es x =
     (case and_then (open_descriptors env) (\<lambda>_. and_then (parse_options bc argv (default_options bc)) (startup bc env)) of
        (as, Inl r) \<Rightarrow> (as, Some (exit_code r))
      | (as, Inr st) \<Rightarrow> (case serve bc es x st of (bs, c) \<Rightarrow> (as @ bs, c)))"

end
