(* ===== verification/Broker_Properties.thy ===== *)
theory Broker_Properties
  imports Command_Handler
begin

text \<open>
  What handle_command guarantees: the invariant of the client table over arbitrary sequences of
  connections, who may change what, the effect of every command, and the report buffers. The
  sample values at the start are the inputs of the witnesses.
\<close>

section \<open>Sample values\<close>

definition sample_build :: build_config where
  "sample_build = \<lparr>SOCKET_PATH_DEFAULT = ''/run/wd-broker.sock'', SERVICE_USER_DEFAULT = ''wd-broker'',
     WD_MAX_CLIENTS = 3, PACKAGE_VERSION = ''2.1.0'', SYSCONFDIR = ''/etc''\<rparr>"

definition sample_config :: "bool \<Rightarrow> bool \<Rightarrow> wd_config_t" where
  "sample_config strict uniq = \<lparr>socket_path = ''/run/wd-broker.sock'', wd_timeout_s = 10,
     reboot_timeout_s = 60, strict_clients = strict, unique_clients = uniq\<rparr>"

definition sample_entropy :: entropy where
  "sample_entropy = \<lparr>urandom = Some [1, 2, 3, 4, 250, 6, 7, 8], seed_parts = (0, 0, 0, 0),
     libc_random = (\<lambda>_ _. 0)\<rparr>"

definition sample_conn :: "pid_t \<Rightarrow> uid_t \<Rightarrow> string \<Rightarrow> conn" where
  "sample_conn p u msg = \<lparr>peercred = Some \<lparr>cr_pid = p, cr_uid = u\<rparr>, rd_select = Select_ready,
     rd_packet = Read_packet msg, now = \<lparr>tv_sec = 70, tv_nsec = 5\<rparr>, rnd = sample_entropy,
     err_text = ''Broken pipe'', reply_ok = True\<rparr>"

text \<open>An announced client, an active one that checks its PID (4711), and a free slot.\<close>

definition sample_client :: client_t where
  "sample_client = \<lparr>clientID = ''00000000000000bb'', name = ''beta'', pid = 4711, timeout_ms = 8000,
     last_ping = \<lparr>tv_sec = 60, tv_nsec = 0\<rparr>, active = True, anounced = False, checkPID = True\<rparr>"

definition sample_clients :: "client_t list" where
  "sample_clients =
     [zero_client\<lparr>clientID := ''00000000000000aa'', name := ''alpha'', timeout_ms := 5000, anounced := True\<rparr>,
      sample_client, zero_client]"

definition sample_broker :: "bool \<Rightarrow> bool \<Rightarrow> broker" where
  "sample_broker strict uniq = \<lparr>config = sample_config strict uniq, clients = sample_clients,
     running = True, reboot = False\<rparr>"

lemmas sample_defs = sample_build_def sample_config_def sample_entropy_def sample_conn_def
  sample_client_def sample_clients_def sample_broker_def zero_client_def

lemma sample_broker_ok: "broker_ok sample_build (sample_broker strict uniq)"
  by (cases strict; cases uniq; code_simp)

section \<open>The invariant\<close>

text \<open>
  C9. Whatever sequence of connections the broker serves, its table stays well-formed: it keeps its
  size, no slot is announced and active at once, every live slot has a 16-digit lower-case hex
  identifier and a timeout between 5 s and 300 s, names fit their buffers, and under
  unique_clients no two live slots share a name.
\<close>

theorem commands_keep_invariant:
  "broker_ok bc b \<Longrightarrow> broker_ok bc (run (\<lambda>b k. fst (handle_command bc k b)) b ks)"
  by (rule commands.run_inv)

theorem commands_keep_invariant_witness:
  "broker_ok sample_build (run (\<lambda>b k. fst (handle_command sample_build k b)) (sample_broker False True)
     [sample_conn 99 1000 ''REGISTER gamma 5000\<newline>'', sample_conn 4711 1000 ''PING 00000000000000BB\<newline>''])"
  by (rule commands_keep_invariant [OF sample_broker_ok])

text \<open>
  C5. handle_command stays inside the access policy for every state, peer and message: it changes
  nothing, or registers a printable name of at most 63 characters with a timeout in range into the
  slot that name is entitled to, or renews or releases a client the peer owns (release under
  strict_clients and of foreign clients only for root), or sets the reboot flags for root.
\<close>

theorem handle_command_policy: "permitted k b (fst (handle_command bc k b))"
  by (rule handle_command_permitted)

section \<open>Who may change what\<close>

text \<open>The slots of the table after a permitted change.\<close>

lemma permitted_nth:
  assumes "permitted k b b'" "i < length (clients b)"
  obtains (same) "clients b' ! i = clients b ! i"
  | (registered) cr nm tmo chk where "peercred k = Some cr" "slot_for (config b) (clients b) nm = Some i"
      "word_ok nm" "length nm \<le> 63" "clients b' ! i = register_slot k cr nm tmo chk (clients b ! i)"
  | (pinged) cr where "peercred k = Some cr" "live (clients b ! i)" "owns cr (clients b ! i)"
      "clients b' ! i = (clients b ! i)\<lparr>last_ping := now k\<rparr>"
  | (released) cr where "peercred k = Some cr" "live (clients b ! i)"
      "cr_uid cr = 0 \<or> \<not> strict_clients (config b) \<and> owns cr (clients b ! i)"
      "clients b' ! i = release_slot (clients b ! i)"
  using assms(1)
proof (cases rule: permitted.cases)
  case unchanged
  then show ?thesis by (intro same) simp
next
  case (registered cr nm j tmo chk)
  with assms(2) show ?thesis
    by (cases "j = i") (auto intro: same that(2) [of cr nm tmo chk])
next
  case (pinged cr j)
  with assms(2) show ?thesis by (cases "j = i") (auto intro: same that(3) [of cr])
next
  case (released cr j)
  with assms(2) show ?thesis by (cases "j = i") (auto intro: same that(4) [of cr])
next
  case (rebooted cr)
  then show ?thesis by (intro same) simp
qed

lemma permitted_length: "permitted k b b' \<Longrightarrow> length (clients b') = length (clients b)"
  by (induction rule: permitted.induct) simp_all

text \<open>
  C6. A process other than the owner that is not root cannot affect an active client that checks its
  PID: whatever it sends, the client's slot is unchanged, so it can neither keep a dead client
  alive nor remove it from supervision.
\<close>

theorem foreign_peer_leaves_client_alone:
  assumes "peercred k = Some cr" "cr_uid cr \<noteq> 0"
    and "i < length (clients b)" "active (clients b ! i)" "checkPID (clients b ! i)" "pid (clients b ! i) \<noteq> cr_pid cr"
  shows "clients (fst (handle_command bc k b)) ! i = clients b ! i"
  using handle_command_permitted [of k b bc] assms(3)
proof (cases rule: permitted_nth)
  case (registered cr' nm tmo chk)
  with slot_forD(2) assms(4) show ?thesis by blast
qed (use assms in \<open>auto simp: owns_def\<close>)

theorem foreign_peer_leaves_client_alone_witness:
  "clients (fst (handle_command sample_build (sample_conn 99 1000 ''UNREGISTER 00000000000000bb\<newline>'')
     (sample_broker False False))) ! 1 = sample_client"
proof -
  let ?k = "sample_conn 99 1000 ''UNREGISTER 00000000000000bb\<newline>''" and ?b = "sample_broker False False"
  have "clients (fst (handle_command sample_build ?k ?b)) ! 1 = clients ?b ! 1"
    by (rule foreign_peer_leaves_client_alone [of ?k "\<lparr>cr_pid = 99, cr_uid = 1000\<rparr>"])
      (simp_all add: sample_defs)
  then show ?thesis by (simp add: sample_broker_def sample_clients_def)
qed

text \<open>Commands that do not come from root.\<close>

definition unprivileged :: "conn \<Rightarrow> bool" where
  "unprivileged k \<longleftrightarrow> (case peercred k of Some cr \<Rightarrow> cr_uid cr \<noteq> 0 | None \<Rightarrow> True)"

text \<open>The clients under supervision: which slots are live, and under which name and identifier.\<close>

definition supervised :: "broker \<Rightarrow> (string \<times> string) option list" where
  "supervised b = map (\<lambda>c. if live c then Some (name c, clientID c) else None) (clients b)"

lemma permitted_strict_supervised:
  assumes "permitted k b b'" "strict_clients (config b)" "unprivileged k"
  shows "supervised b' = supervised b"
proof (rule nth_equalityI)
  show "length (supervised b') = length (supervised b)"
    using permitted_length [OF assms(1)] by (simp add: supervised_def)
  fix i
  assume "i < length (supervised b')"
  then have i: "i < length (clients b)" "i < length (clients b')"
    using permitted_length [OF assms(1)] by (simp_all add: supervised_def)
  from assms(1) i(1) show "supervised b' ! i = supervised b ! i"
  proof (cases rule: permitted_nth)
    case (registered cr nm tmo chk)
    with slot_forD(3,4) [OF registered(2)] assms(2) i show ?thesis
      by (simp add: supervised_def live_def)
  qed (use i assms(2,3) in \<open>auto simp: supervised_def unprivileged_def live_def\<close>)
qed

interpretation strict_commands: guarded_machine "\<lambda>b k. fst (handle_command bc k b)"
    "\<lambda>b. strict_clients (config b) \<and> supervised b = sv" unprivileged for bc sv
proof
  fix b k
  assume "strict_clients (config b) \<and> supervised b = sv" "unprivileged k"
  with handle_command_permitted [of k b bc]
  show "strict_clients (config (fst (handle_command bc k b))) \<and> supervised (fst (handle_command bc k b)) = sv"
    by (simp add: permitted_config [OF handle_command_permitted] permitted_strict_supervised)
qed

text \<open>
  C7. Under strict_clients the set of supervised clients is frozen for everybody but root: no sequence
  of commands of unprivileged peers adds a client that was not announced, removes one, or renames
  one; the announced clients can only become active.
\<close>

theorem strict_mode_freezes_clients:
  assumes "strict_clients (config b)" "list_all unprivileged ks"
  shows "supervised (run (\<lambda>b k. fst (handle_command bc k b)) b ks) = supervised b"
  using strict_commands.guarded_run [of b "supervised b" ks bc] assms by simp

theorem strict_mode_freezes_clients_witness:
  "supervised (run (\<lambda>b k. fst (handle_command sample_build k b)) (sample_broker True False)
     [sample_conn 99 1000 ''REGISTER gamma 5000\<newline>'', sample_conn 4711 1000 ''UNREGISTER 00000000000000bb\<newline>'',
      sample_conn 5 1000 ''REGISTER alpha 6000\<newline>''])
   = [Some (''alpha'', ''00000000000000aa''), Some (''beta'', ''00000000000000bb''), None]"
  by (subst strict_mode_freezes_clients)
    (simp_all add: sample_defs unprivileged_def supervised_def live_def)

text \<open>
  C8. Only root can stop the broker through the socket: after any command of an unprivileged peer the
  flags running and reboot are as before.
\<close>

theorem reboot_needs_root:
  assumes "unprivileged k"
  shows "running (fst (handle_command bc k b)) = running b \<and> reboot (fst (handle_command bc k b)) = reboot b"
  using handle_command_permitted [of k b bc] assms
  by (cases rule: permitted.cases) (auto simp: unprivileged_def)

theorem reboot_needs_root_witness:
  "running (fst (handle_command sample_build (sample_conn 99 1000 ''REBOOT'') (sample_broker False False)))
   \<and> \<not> reboot (fst (handle_command sample_build (sample_conn 99 1000 ''REBOOT'') (sample_broker False False)))"
  using reboot_needs_root [of "sample_conn 99 1000 ''REBOOT''" sample_build "sample_broker False False"]
  by (simp add: unprivileged_def sample_conn_def sample_broker_def)

end
