(* ===== verification/Wd_Client.thy ===== *)
theory Wd_Client
  imports Common
begin

text \<open>
  libwd-client (wd-client.c, wd-client.h): the functions an application calls to register with the
  broker, renew its heartbeat and unregister. Each opens a connection of its own, sends one command
  and reads one reply. The other end is a \<open>server\<close>, a function of its state and the packet it
  receives; \<open>net\<close> holds the answers of the operating system on the client's side (\<open>epipe\<close>: a failed write set
  errno to EPIPE). A client is
  always given (the sources dereference a NULL pointer when they report it as invalid).
\<close>

section \<open>Data\<close>

definition WD_CLIENT_STATUS_LEN :: nat where
  "WD_CLIENT_STATUS_LEN = 256"

definition WD_CLIENT_OK :: int where
  "WD_CLIENT_OK = 0"

definition WD_CLIENT_ERR :: int where
  "WD_CLIENT_ERR = -1"

definition WD_CLIENT_EPARAM :: int where
  "WD_CLIENT_EPARAM = -2"

definition WD_CLIENT_ETIMEOUT :: int where
  "WD_CLIENT_ETIMEOUT = -3"

definition WD_CLIENT_EVERSION :: int where
  "WD_CLIENT_EVERSION = -4"

lemmas return_codes = WD_CLIENT_OK_def WD_CLIENT_ERR_def WD_CLIENT_EPARAM_def WD_CLIENT_ETIMEOUT_def
  WD_CLIENT_EVERSION_def

record wd_client_t =
  cl_socket_path :: string
  cl_name :: string
  cl_clientID :: string
  cl_status :: string

definition WD_CLIENT_INIT :: "build_config \<Rightarrow> wd_client_t" where
  "WD_CLIENT_INIT bc = \<lparr>cl_socket_path = SOCKET_PATH_DEFAULT bc, cl_name = [], cl_clientID = [], cl_status = []\<rparr>"

definition WD_SET_STATUS :: "wd_client_t \<Rightarrow> string \<Rightarrow> wd_client_t" where
  "WD_SET_STATUS client msg = client\<lparr>cl_status := snprintf WD_CLIENT_STATUS_LEN msg\<rparr>"

section \<open>The other end\<close>

record net =
  socket_ok :: bool
  connect_ok :: bool
  write_ok :: bool
  epipe :: bool
  wait :: select_result
  net_err :: string

type_synonym 's server = "'s \<Rightarrow> string \<Rightarrow> 's \<times> read_result"

text \<open>
  write and read\_with\_timeout on one connection: \<open>None\<close> when the write fails, otherwise the new state of
  the other end, the return value of the read and the reply as a C string.
\<close>

definition transact :: "'s server \<Rightarrow> net \<Rightarrow> string \<Rightarrow> nat \<Rightarrow> 's \<Rightarrow> ('s \<times> int \<times> string) option" where
  "transact srv n cmd bufsize s =
     (if \<not> write_ok n then None
      else (case srv s cmd of
              (s', r) \<Rightarrow>
                (case read_with_timeout (wait n) r bufsize of
                   (len, bytes) \<Rightarrow> Some (s', len, cstr (case bytes of Some b \<Rightarrow> b | None \<Rightarrow> [])))))"

section \<open>Connecting\<close>

definition wd_client_connect :: "net \<Rightarrow> wd_client_t \<Rightarrow> (int + unit) \<times> wd_client_t" where
  "wd_client_connect n client =
     (if cl_socket_path client = [] then (Inl WD_CLIENT_EPARAM, WD_SET_STATUS client ''Invalid parameters'')
      else if \<not> socket_ok n
      then (Inl WD_CLIENT_ERR, WD_SET_STATUS client (''Failed to create socket: '' @ net_err n))
      else if \<not> connect_ok n
      then (Inl WD_CLIENT_ERR, WD_SET_STATUS client
             (''Failed to connect to socket '' @ cl_socket_path client @ '': '' @ net_err n))
      else (Inr (), WD_SET_STATUS client (''Successfully connected via '' @ cl_socket_path client)))"

section \<open>Protocol version\<close>

definition wd_client_check_prot_version :: "'s server \<Rightarrow> net \<Rightarrow> wd_client_t \<Rightarrow> 's \<Rightarrow> 's \<times> int \<times> wd_client_t" where
  "wd_client_check_prot_version srv n client s =
     (case wd_client_connect n client of
        (Inl e, c) \<Rightarrow> (s, e, c)
      | (Inr _, c) \<Rightarrow>
          (case transact srv n ''VERSION\<newline>'' 128 s of
             None \<Rightarrow> (s, WD_CLIENT_ERR, WD_SET_STATUS c (''Failed to send VERSION command: '' @ net_err n))
           | Some (s', len, buffer) \<Rightarrow>
               if len \<le> 0 then (s', WD_CLIENT_ERR, WD_SET_STATUS c ''Failed to read VERSION response'')
               else (case strstr buffer ''protocol_version='' of
                       None \<Rightarrow> (s', WD_CLIENT_ERR, WD_SET_STATUS c (''VERSION response malformed: '' @ buffer))
                     | Some p \<Rightarrow>
                         (let ver = drop (length ''protocol_version='') p
                          in if \<not> strncmp_eq ver SOCKET_PROT_VERSION (length SOCKET_PROT_VERSION)
                             then (s', WD_CLIENT_EVERSION, WD_SET_STATUS c
                                    (''Incompatible protocol version '' @ ver @ '', expect '' @ SOCKET_PROT_VERSION))
                             else (s', WD_CLIENT_OK, c)))))"

section \<open>Register, ping, unregister\<close>

text \<open>The line sent for a registration.\<close>

definition register_line :: "string \<Rightarrow> u32 \<Rightarrow> bool \<Rightarrow> string" where
  "register_line nm tmo chk = CMD_REGISTER @ nm @ '' '' @ show_u32 tmo @ (if chk then [] else '' ignorepid'') @ ''\<newline>''"

text \<open>\<open>n1\<close> is the connection of the version check, \<open>n2\<close> the one of the command.\<close>

definition wd_client_register ::
    "'s server \<Rightarrow> net \<Rightarrow> net \<Rightarrow> wd_client_t \<Rightarrow> u32 \<Rightarrow> bool \<Rightarrow> 's \<Rightarrow> 's \<times> int \<times> wd_client_t" where
  "wd_client_register srv n1 n2 client tmo ignore_pid s =
     (if cl_name client = [] then (s, WD_CLIENT_EPARAM, WD_SET_STATUS client ''Invalid parameters'')
      else if tmo < WD_CLIENT_TIMEOUT_MIN_MS \<or> tmo > WD_CLIENT_TIMEOUT_MAX_MS
      then (s, WD_CLIENT_EPARAM, WD_SET_STATUS client ''Invalid timeout value'')
      else (case wd_client_check_prot_version srv n1 client s of
              (s1, ret, c1) \<Rightarrow>
                if ret \<noteq> WD_CLIENT_OK then (s1, ret, c1)
                else (case wd_client_connect n2 c1 of
                        (Inl e, c2) \<Rightarrow> (s1, e, c2)
                      | (Inr _, c2) \<Rightarrow>
                          (case transact srv n2 (snprintf 128 (register_line (cl_name client) tmo (\<not> ignore_pid))) 128 s1 of
                             None \<Rightarrow> (s1, WD_CLIENT_ERR,
                                     WD_SET_STATUS c2 (''Failed to send REGISTER command: '' @ net_err n2))
                           | Some (s2, len, response) \<Rightarrow>
                               if len < 0
                               then (s2, WD_CLIENT_ERR,
                                     WD_SET_STATUS c2 (''Failed to read REGISTER response: '' @ net_err n2))
                               else if len = 0
                               then (s2, WD_CLIENT_ETIMEOUT,
                                     WD_SET_STATUS c2 ''Timeout while waiting for REGISTER response'')
                               else if strncmp_eq response ''OK '' 3
                               then (let cid = strncpy (drop 3 response) (WD_CLIENTID_LEN - 1)
                                     in (s2, WD_CLIENT_OK, WD_SET_STATUS (c2\<lparr>cl_clientID := cid\<rparr>)
                                          (''Client registered successfully with ID: '' @ cid)))
                               else (s2, WD_CLIENT_ERR,
                                     WD_SET_STATUS c2 (''REGISTER failed at wd-broker: '' @ response))))))"

definition wd_client_ping :: "'s server \<Rightarrow> net \<Rightarrow> wd_client_t \<Rightarrow> 's \<Rightarrow> 's \<times> int \<times> wd_client_t" where
  "wd_client_ping srv n client s =
     (if cl_clientID client = [] then (s, WD_CLIENT_EPARAM, WD_SET_STATUS client ''Invalid parameters'')
      else (case wd_client_connect n client of
              (Inl e, c) \<Rightarrow> (s, e, c)
            | (Inr _, c) \<Rightarrow>
                (case transact srv n (snprintf 64 (CMD_PING @ cl_clientID client @ ''\<newline>'')) 64 s of
                   None \<Rightarrow> (s, WD_CLIENT_ERR, WD_SET_STATUS c (''Failed to send PING command: '' @ net_err n))
                 | Some (s', len, response) \<Rightarrow>
                     if len < 0
                     then (s', WD_CLIENT_ERR, WD_SET_STATUS c (''Failed to read PING response: '' @ net_err n))
                     else if len = 0
                     then (s', WD_CLIENT_ETIMEOUT, WD_SET_STATUS c ''Timeout while waiting for PING response'')
                     else if strncmp_eq response ''OK'' 2
                     then (s', WD_CLIENT_OK, WD_SET_STATUS c
                            (''PING successful for client '' @ cl_name c @ '' ('' @ cl_clientID c @ '') ''))
                     else (s', WD_CLIENT_ERR, WD_SET_STATUS c (''PING failed at wd-broker: '' @ response)))))"

definition wd_client_unregister :: "'s server \<Rightarrow> net \<Rightarrow> wd_client_t \<Rightarrow> 's \<Rightarrow> 's \<times> int \<times> wd_client_t" where
  "wd_client_unregister srv n client s =
     (if cl_clientID client = [] then (s, WD_CLIENT_EPARAM, WD_SET_STATUS client ''Invalid parameters'')
      else (case wd_client_connect n client of
              (Inl e, c) \<Rightarrow> (s, e, c)
            | (Inr _, c) \<Rightarrow>
                (case transact srv n (snprintf 64 (CMD_UNREGISTER @ cl_clientID client @ ''\<newline>'')) 64 s of
                   None \<Rightarrow> (s, WD_CLIENT_ERR, WD_SET_STATUS c (''Failed to send UNREGISTER command: '' @ net_err n))
                 | Some (s', len, response) \<Rightarrow>
                     if len < 0
                     then (s', WD_CLIENT_ERR, WD_SET_STATUS c (''Failed to read UNREGISTER response: '' @ net_err n))
                     else if len = 0
                     then (s', WD_CLIENT_ETIMEOUT, WD_SET_STATUS c ''Timeout while waiting for UNREGISTER response'')
                     else if strncmp_eq response ''OK'' 2
                     then (s', WD_CLIENT_OK, WD_SET_STATUS c
                            (''UNREGISTER successful for client '' @ cl_name c @ '' ('' @ cl_clientID c @ '') ''))
                     else (s', WD_CLIENT_ERR, WD_SET_STATUS c (''UNREGISTER failed at wd-broker: '' @ response)))))"

section \<open>A connection that works\<close>

definition net_up :: "net \<Rightarrow> bool" where
  "net_up n \<longleftrightarrow> socket_ok n \<and> connect_ok n \<and> write_ok n \<and> wait n = Select_ready"

lemma connect_up:
  "net_up n \<Longrightarrow> cl_socket_path c \<noteq> [] \<Longrightarrow>
   wd_client_connect n c = (Inr (), WD_SET_STATUS c (''Successfully connected via '' @ cl_socket_path c))"
  by (simp add: wd_client_connect_def net_up_def)

lemma transact_up:
  assumes "net_up n" "srv s cmd = (s', Read_packet r)" "r \<noteq> []" "length r < sz" "NUL \<notin> set r"
  shows "transact srv n cmd sz s = Some (s', int (length r), r)"
proof -
  have "cstr r = r" using assms(5) by (simp add: cstr_def takeWhile_without)
  with assms show ?thesis by (simp add: transact_def net_up_def read_with_timeout_packet)
qed

lemma WD_SET_STATUS_simps [simp]:
  "cl_socket_path (WD_SET_STATUS c m) = cl_socket_path c" "cl_name (WD_SET_STATUS c m) = cl_name c"
  "cl_clientID (WD_SET_STATUS c m) = cl_clientID c"
  by (simp_all add: WD_SET_STATUS_def)

text \<open>WD\_CLIENT\_OK of a ping means an answer of the server that starts with OK.\<close>

lemma ping_OK:
  assumes "wd_client_ping srv n c s = (s', WD_CLIENT_OK, c')"
  shows "\<exists>len resp. transact srv n (snprintf 64 (CMD_PING @ cl_clientID c @ ''\<newline>'')) 64 s = Some (s', len, resp) \<and>
    0 < len \<and> strncmp_eq resp ''OK'' 2"
proof -
  have conn: "fst (wd_client_connect n c) = Inl e \<Longrightarrow> e \<noteq> WD_CLIENT_OK" for e
    by (auto simp: wd_client_connect_def return_codes split: if_splits)
  obtain u c1 where "wd_client_connect n c = (u, c1)" by (cases "wd_client_connect n c")
  with assms conn show ?thesis
    by (cases u; cases "transact srv n (snprintf 64 (CMD_PING @ cl_clientID c @ ''\<newline>'')) 64 s")
      (auto simp: wd_client_ping_def return_codes split: if_splits)
qed

end
