(* ===== verification/Registry.thy ===== *)
theory Registry
  imports Broker_Properties Wd_Client
begin

text \<open>
  The abstract view of the broker: a finite map from identifiers to clients. PING and UNREGISTER are
  specified on the map, branch by branch with their replies, and the handlers over the array of
  slots are shown to implement them. The array search finds the first slot with an identifier, so
  the map is faithful exactly while live slots have distinct identifiers; the identifiers are random
  and the code never compares them, so this is a hypothesis on the randomness a registration draws.
\<close>

section \<open>The map\<close>

definition index_of :: "client_t list \<Rightarrow> string \<Rightarrow> nat option" where
  "index_of cs cid = find_index (\<lambda>c. live c \<and> clientID c = cid) cs"

definition registry :: "client_t list \<Rightarrow> string \<rightharpoonup> client_t" where
  "registry cs cid = map_option ((!) cs) (index_of cs cid)"

definition ids_ok :: "client_t list \<Rightarrow> bool" where
  "ids_ok cs \<longleftrightarrow> distinct (live_ids cs) \<and> list_all (\<lambda>c. live c \<longrightarrow> length (clientID c) = 16) cs"

lemma index_of_SomeD:
  "index_of cs cid = Some i \<Longrightarrow> i < length cs \<and> live (cs ! i) \<and> clientID (cs ! i) = cid"
  by (auto simp: index_of_def dest: find_index_SomeD)

lemma index_of_iff:
  assumes "ids_ok cs"
  shows "index_of cs cid = Some i \<longleftrightarrow> i < length cs \<and> live (cs ! i) \<and> clientID (cs ! i) = cid"
proof
  show "index_of cs cid = Some i \<Longrightarrow> i < length cs \<and> live (cs ! i) \<and> clientID (cs ! i) = cid"
    by (rule index_of_SomeD)
  assume "i < length cs \<and> live (cs ! i) \<and> clientID (cs ! i) = cid"
  with assms show "index_of cs cid = Some i"
    unfolding index_of_def
    by (intro find_index_unique) (auto simp: ids_ok_def live_ids_def dest: distinct_map_filterD)
qed

text \<open>The search of the source, which compares 16 characters, is the map's lookup.\<close>

lemma by_clientID_registry:
  assumes "ids_ok cs" "length cid = 16"
  shows "get_clientInstance_by_clientID cs cid p =
    (case index_of cs cid of
       None \<Rightarrow> WD_CLIENT_NOT_FOUND
     | Some i \<Rightarrow> if \<not> checkPID (cs ! i) \<or> pid (cs ! i) = p then WD_CLIENT_IDENTIFIED i
                else WD_CLIENT_PID_MISMATCH i)"
proof -
  have "find_index (\<lambda>c. live c \<and> strncmp_eq (clientID c) cid 16) cs = index_of cs cid"
    unfolding index_of_def using assms
    by (intro find_index_cong) (auto simp: ids_ok_def list_all_length strncmp_eq_def)
  then show ?thesis by (simp add: get_clientInstance_by_clientID_def split: option.splits)
qed

lemma registry_update:
  assumes "ids_ok cs" "index_of cs cid = Some i"
    and "live (g (cs ! i))" "clientID (g (cs ! i)) = cid"
  shows "registry (upd_at i g cs) = (registry cs)(cid \<mapsto> g (cs ! i))"
proof
  fix x
  from assms(2) have i: "i < length cs" "live (cs ! i)" "clientID (cs ! i) = cid"
    by (simp_all add: index_of_iff [OF assms(1)])
  have same: "index_of (upd_at i g cs) x = index_of cs x"
    unfolding index_of_def using i assms(3,4) by (intro find_index_cong) auto
  show "registry (upd_at i g cs) x = ((registry cs)(cid \<mapsto> g (cs ! i))) x"
  proof (cases "x = cid")
    case True
    with i same assms(2) show ?thesis by (simp add: registry_def)
  next
    case False
    with i have "index_of cs x \<noteq> Some i" by (auto simp: index_of_iff [OF assms(1)])
    with same False show ?thesis
      by (cases "index_of cs x") (auto simp: registry_def dest: index_of_SomeD)
  qed
qed

lemma registry_remove:
  assumes "ids_ok cs" "index_of cs cid = Some i" "\<not> live (g (cs ! i))"
  shows "registry (upd_at i g cs) = (registry cs)(cid := None)"
proof
  fix x
  from assms(2) have i: "i < length cs" "live (cs ! i)" "clientID (cs ! i) = cid"
    by (simp_all add: index_of_iff [OF assms(1)])
  show "registry (upd_at i g cs) x = ((registry cs)(cid := None)) x"
  proof (cases "x = cid")
    case True
    have "index_of (upd_at i g cs) x = None"
    proof (rule ccontr)
      assume "index_of (upd_at i g cs) x \<noteq> None"
      then obtain j where "index_of (upd_at i g cs) x = Some j" by blast
      from index_of_SomeD [OF this]
      have j: "j < length cs" "live (upd_at i g cs ! j)" "clientID (upd_at i g cs ! j) = x"
        unfolding length_upd_at by blast+
      with assms(3) have "j \<noteq> i" by auto
      with j True have "index_of cs cid = Some j" by (simp add: index_of_iff [OF assms(1)])
      with assms(2) \<open>j \<noteq> i\<close> show False by simp
    qed
    with True show ?thesis by (simp add: registry_def)
  next
    case False
    with i have "index_of (upd_at i g cs) x = index_of cs x"
      unfolding index_of_def using assms(3) by (intro find_index_cong) auto
    moreover from False i have "index_of cs x \<noteq> Some i" by (auto simp: index_of_iff [OF assms(1)])
    ultimately show ?thesis using False
      by (cases "index_of cs x") (auto simp: registry_def dest: index_of_SomeD)
  qed
qed

section \<open>The commands on the map\<close>

text \<open>Argument: what clientID_arg makes of the line (an error message or an identifier).\<close>

definition spec_ping ::
    "conn \<Rightarrow> ucred \<Rightarrow> string + string \<Rightarrow> (string \<rightharpoonup> client_t) \<Rightarrow> (string \<rightharpoonup> client_t) \<times> string" where
  "spec_ping k cr arg m =
     (case arg of
        Inl msg \<Rightarrow> (m, msg)
      | Inr cid \<Rightarrow>
          (case m cid of
             None \<Rightarrow> (m, ''ERROR unknown clientID\<newline>'')
           | Some c \<Rightarrow> if owns cr c then (m(cid \<mapsto> c\<lparr>last_ping := now k\<rparr>), ''OK\<newline>'')
                       else (m, ''ERROR wrong PID\<newline>'')))"

definition spec_unregister ::
    "bool \<Rightarrow> ucred \<Rightarrow> string + string \<Rightarrow> (string \<rightharpoonup> client_t) \<Rightarrow> (string \<rightharpoonup> client_t) \<times> string" where
  "spec_unregister strict cr arg m =
     (case arg of
        Inl msg \<Rightarrow> (m, msg)
      | Inr cid \<Rightarrow>
          (case m cid of
             None \<Rightarrow> (m, ''ERROR unknown clientID\<newline>'')
           | Some c \<Rightarrow>
               if cr_uid cr = 0 \<or> \<not> strict \<and> owns cr c then (m(cid := None), ''OK\<newline>'')
               else if owns cr c then (m, ''ERROR rejected\<newline>'') else (m, ''ERROR no permission\<newline>'')))"

lemma clientID_arg_length: "clientID_arg s = Inr cid \<Longrightarrow> length cid = 16"
  by (auto simp: clientID_arg_def split: list.splits if_splits)

lemma write_str_ok [simp]: "reply_ok k \<Longrightarrow> write_str k msg = [Reply msg]"
  by (simp add: write_str_def)

text \<open>
  C12. PING implements its specification: under distinct identifiers the map of clients after the
  command and the reply are exactly those of the specification, on every branch (bad argument,
  unknown identifier, wrong PID, success).
\<close>

theorem ping_refines_spec:
  assumes "delivers k cr (CMD_PING @ s)" "reply_ok k" "ids_ok (clients b)"
  shows "(registry (clients (fst (handle_command bc k b))), replies (snd (handle_command bc k b))) =
         apsnd (\<lambda>r. [r]) (spec_ping k cr (clientID_arg s) (registry (clients b)))"
proof (cases "clientID_arg s")
  case (Inl msg)
  with assms show ?thesis
    by (simp add: handle_command_delivers dispatch_cmd handle_ping_def parse_clientID_arg spec_ping_def)
next
  case (Inr cid)
  then have len: "length cid = 16" by (rule clientID_arg_length)
  have hc: "handle_command bc k b = handle_ping k cr (CMD_PING @ s) b"
    by (simp add: handle_command_delivers [OF assms(1)] dispatch_cmd)
  show ?thesis
  proof (cases "index_of (clients b) cid")
    case None
    with Inr assms(2,3) len show ?thesis
      by (simp add: hc handle_ping_def parse_clientID_arg spec_ping_def by_clientID_registry registry_def)
  next
    case (Some i)
    then have i: "live (clients b ! i)" "clientID (clients b ! i) = cid"
      by (simp_all add: index_of_iff [OF assms(3)])
    have "registry (upd_at i (\<lambda>c. c\<lparr>last_ping := now k\<rparr>) (clients b)) =
        (registry (clients b))(cid \<mapsto> (clients b ! i)\<lparr>last_ping := now k\<rparr>)"
      by (rule registry_update [OF assms(3) Some]) (use i in \<open>simp_all add: live_def\<close>)
    moreover have "registry (clients b) cid = Some (clients b ! i)" using Some by (simp add: registry_def)
    ultimately show ?thesis using Inr assms(2,3) len Some
      by (simp add: hc handle_ping_def parse_clientID_arg spec_ping_def by_clientID_registry owns_def)
  qed
qed

theorem ping_refines_spec_witness:
  "(registry (clients (fst (handle_command sample_build (sample_conn 4711 1000 ''PING 00000000000000bb\<newline>'')
      (sample_broker False False)))) ''00000000000000bb'' =
      Some (sample_client\<lparr>last_ping := \<lparr>tv_sec = 70, tv_nsec = 5\<rparr>\<rparr>)) \<and>
   replies (snd (handle_command sample_build (sample_conn 4711 1000 ''PING 00000000000000bb\<newline>'')
      (sample_broker False False))) = [''OK\<newline>'']"
proof -
  let ?k = "sample_conn 4711 1000 ''PING 00000000000000bb\<newline>''" and ?b = "sample_broker False False"
  let ?cr = "\<lparr>cr_pid = 4711, cr_uid = 1000\<rparr>"
  have "delivers ?k ?cr (CMD_PING @ ''00000000000000bb\<newline>'')" "reply_ok ?k"
    by (simp_all add: delivers_def sample_conn_def CMD_PING_def NUL_def)
  moreover have "ids_ok (clients ?b)" by code_simp
  ultimately have "(registry (clients (fst (handle_command sample_build ?k ?b))),
      replies (snd (handle_command sample_build ?k ?b))) =
      apsnd (\<lambda>r. [r]) (spec_ping ?k ?cr (clientID_arg ''00000000000000bb\<newline>'') (registry (clients ?b)))"
    by (rule ping_refines_spec)
  moreover have "clientID_arg ''00000000000000bb\<newline>'' = Inr ''00000000000000bb''" by code_simp
  moreover have "registry (clients ?b) ''00000000000000bb'' = Some sample_client"
    by (simp add: registry_def index_of_def sample_broker_def sample_clients_def sample_client_def zero_client_def live_def)
  ultimately show ?thesis
    by (simp add: spec_ping_def owns_def sample_client_def sample_conn_def)
qed

text \<open>
  C11. UNREGISTER implements its specification on every branch: root releases any client; the owner
  releases its client unless strict_clients is set (then it is rejected); anybody else is refused;
  a released client disappears from the map and every other client keeps its state.
\<close>

theorem unregister_refines_spec:
  assumes "delivers k cr (CMD_UNREGISTER @ s)" "reply_ok k" "ids_ok (clients b)"
  shows "(registry (clients (fst (handle_command bc k b))), replies (snd (handle_command bc k b))) =
         apsnd (\<lambda>r. [r]) (spec_unregister (strict_clients (config b)) cr (clientID_arg s) (registry (clients b)))"
proof (cases "clientID_arg s")
  case (Inl msg)
  with assms show ?thesis
    by (simp add: handle_command_delivers dispatch_cmd handle_unregister_def parse_clientID_arg spec_unregister_def)
next
  case (Inr cid)
  then have len: "length cid = 16" by (rule clientID_arg_length)
  have hc: "handle_command bc k b = handle_unregister k cr (CMD_UNREGISTER @ s) b"
    by (simp add: handle_command_delivers [OF assms(1)] dispatch_cmd)
  show ?thesis
  proof (cases "index_of (clients b) cid")
    case None
    with Inr assms(2,3) len show ?thesis
      by (simp add: hc handle_unregister_def parse_clientID_arg spec_unregister_def by_clientID_registry registry_def)
  next
    case (Some i)
    have "registry (upd_at i release_slot (clients b)) = (registry (clients b))(cid := None)"
      by (rule registry_remove [OF assms(3) Some]) simp
    moreover have "registry (clients b) cid = Some (clients b ! i)" using Some by (simp add: registry_def)
    ultimately show ?thesis using Inr assms(2,3) len Some
      by (auto simp: hc handle_unregister_def parse_clientID_arg spec_unregister_def by_clientID_registry
          owns_def Let_def)
  qed
qed

theorem unregister_refines_spec_witness:
  "registry (clients (fst (handle_command sample_build (sample_conn 1 0 ''UNREGISTER 00000000000000bb\<newline>'')
      (sample_broker True False)))) ''00000000000000bb'' = None"
proof -
  let ?k = "sample_conn 1 0 ''UNREGISTER 00000000000000bb\<newline>''" and ?b = "sample_broker True False"
  let ?cr = "\<lparr>cr_pid = 1, cr_uid = 0\<rparr>"
  have "delivers ?k ?cr (CMD_UNREGISTER @ ''00000000000000bb\<newline>'')" "reply_ok ?k"
    by (simp_all add: delivers_def sample_conn_def CMD_UNREGISTER_def NUL_def)
  moreover have "ids_ok (clients ?b)" by code_simp
  ultimately have "(registry (clients (fst (handle_command sample_build ?k ?b))),
      replies (snd (handle_command sample_build ?k ?b))) =
      apsnd (\<lambda>r. [r]) (spec_unregister (strict_clients (config ?b)) ?cr
        (clientID_arg ''00000000000000bb\<newline>'') (registry (clients ?b)))"
    by (rule unregister_refines_spec)
  moreover have "clientID_arg ''00000000000000bb\<newline>'' = Inr ''00000000000000bb''" by code_simp
  ultimately show ?thesis
    by (auto simp: spec_unregister_def split: option.splits)
qed

section \<open>Registration\<close>

lemma parse_register_line:
  "word_ok nm \<Longrightarrow> length nm \<le> 63 \<Longrightarrow> parse_register (register_line nm tmo chk) = Some (nm, tmo, chk)"
  using parse_register_plain [of nm "''\<newline>''" tmo] parse_register_ignorepid [of nm "''\<newline>''" tmo]
  by (simp add: register_line_def)

text \<open>What a well-formed REGISTER line does, by the slot its name is entitled to.\<close>

lemma register_line_effect:
  assumes "delivers k cr (register_line nm tmo chk)" "reply_ok k"
    and "word_ok nm" "length nm \<le> 63" "list_all isprint nm" "timeout_ok tmo"
  shows "case slot_for (config b) (clients b) nm of
      None \<Rightarrow> fst (handle_command bc k b) = b \<and> replies (snd (handle_command bc k b)) = [''ERROR rejected\<newline>'']
    | Some i \<Rightarrow>
        fst (handle_command bc k b) = b\<lparr>clients := upd_at i (register_slot k cr nm tmo chk) (clients b)\<rparr> \<and>
        replies (snd (handle_command bc k b)) =
          [''OK '' @ clientID (clients (fst (handle_command bc k b)) ! i) @ ''\<newline>'']"
proof -
  have hc: "handle_command bc k b = handle_register k cr (register_line nm tmo chk) b"
    using handle_command_delivers [OF assms(1)] by (simp add: register_line_def dispatch_cmd)
  obtain s lg where g: "get_clientInstance_by_name (config b) (clients b) nm (cr_pid cr) = (s, lg)"
    by (cases "get_clientInstance_by_name (config b) (clients b) nm (cr_pid cr)")
  with by_name_slot_for [of "config b" "clients b" nm "cr_pid cr"]
  have s: "slot_for (config b) (clients b) nm = s" by simp
  have lg: "replies lg = []"
    using g by (auto simp: get_clientInstance_by_name_def split: option.splits if_splits prod.splits)
  have ok: "\<not> list_ex (\<lambda>c. \<not> isprint c \<or> isspace c) nm"
    using assms(3,5) by (auto simp: word_ok_def list_ex_iff list_all_iff)
  show ?thesis
    using assms(2,6) s lg ok parse_register_line [OF assms(3,4)] slot_forD(1) [of "config b" "clients b" nm]
    by (cases s) (auto simp: hc handle_register_def g timeout_ok_iff Let_def)
qed

text \<open>
  C13. A well-formed REGISTER either gets the slot its name is entitled to or is rejected without any
  change: on success that slot is active, bound to the peer's PID, with the requested timeout and
  PID check and its heartbeat set to now; the reply is the identifier the slot then carries (the
  announced one, or a fresh one); no other slot changes.
\<close>

theorem register_command:
  assumes "delivers k cr (register_line nm tmo chk)" "reply_ok k"
    and "word_ok nm" "length nm \<le> 63" "list_all isprint nm" "timeout_ok tmo"
  shows "case slot_for (config b) (clients b) nm of
      None \<Rightarrow> fst (handle_command bc k b) = b \<and> replies (snd (handle_command bc k b)) = [''ERROR rejected\<newline>'']
    | Some i \<Rightarrow>
        fst (handle_command bc k b) = b\<lparr>clients := upd_at i (register_slot k cr nm tmo chk) (clients b)\<rparr> \<and>
        replies (snd (handle_command bc k b)) =
          [''OK '' @ clientID (clients (fst (handle_command bc k b)) ! i) @ ''\<newline>'']"
  using assms by (rule register_line_effect)

theorem register_command_witness:
  "case slot_for (config (sample_broker True False)) (clients (sample_broker True False)) ''alpha'' of
      None \<Rightarrow> False
    | Some i \<Rightarrow> i = 0 \<and> replies (snd (handle_command sample_build
        (sample_conn 5 1000 (register_line ''alpha'' 6000 True)) (sample_broker True False))) = [''OK 00000000000000aa\<newline>'']"
proof -
  let ?k = "sample_conn 5 1000 (register_line ''alpha'' 6000 True)" and ?b = "sample_broker True False"
  let ?cr = "\<lparr>cr_pid = 5, cr_uid = 1000\<rparr>"
  have d: "delivers ?k ?cr (register_line ''alpha'' 6000 True)" "reply_ok ?k"
    by (simp_all add: delivers_def sample_conn_def) (code_simp)
  have n: "word_ok ''alpha''" "length ''alpha'' \<le> 63" "list_all isprint ''alpha''" "timeout_ok 6000"
    by code_simp+
  have "slot_for (config ?b) (clients ?b) ''alpha'' = Some 0" by code_simp
  with register_command [OF d n, where b = ?b and bc = sample_build] show ?thesis
    by (simp add: sample_broker_def sample_clients_def)
qed

text \<open>Identifiers stay distinct when the one a registration draws is not in use.\<close>

definition fresh_id :: "conn \<Rightarrow> broker \<Rightarrow> bool" where
  "fresh_id k b \<longleftrightarrow> make_clientID (rnd k) \<notin> set (live_ids (clients b))"

lemma live_ids_nth: "i < length cs \<Longrightarrow> live (cs ! i) \<Longrightarrow> clientID (cs ! i) \<in> set (live_ids cs)"
  by (auto simp: live_ids_def)

lemma ids_ok_register:
  assumes "ids_ok (clients b)" "i < length (clients b)" "\<not> active (clients b ! i)" "fresh_id k b"
  shows "ids_ok (upd_at i (register_slot k cr nm tmo chk) (clients b))"
proof -
  have "clientID (clients b ! j) \<noteq> clientID (register_slot k cr nm tmo chk (clients b ! i))"
    if j: "j < length (clients b)" "j \<noteq> i" "live (clients b ! j)" for j
  proof (cases "anounced (clients b ! i)")
    case True
    then have "live (clients b ! i)" by (simp add: live_def)
    with True assms(1,2) j distinct_map_filterD [of clientID live "clients b" j i] show ?thesis
      by (auto simp: ids_ok_def live_ids_def)
  next
    case False
    with j live_ids_nth [of j "clients b"] assms(4) show ?thesis by (auto simp: fresh_id_def)
  qed
  then have "distinct (live_ids (upd_at i (register_slot k cr nm tmo chk) (clients b)))"
    using assms(1,2) unfolding live_ids_def ids_ok_def
    by (intro distinct_map_filter_upd_at) auto
  moreover have "list_all (\<lambda>c. live c \<longrightarrow> length (clientID c) = 16)
      (upd_at i (register_slot k cr nm tmo chk) (clients b))"
    using assms(1,2) id_ok_make_clientID [of "rnd k"]
    by (intro list_all_upd_at) (auto simp: ids_ok_def list_all_length id_ok_def live_def)
  ultimately show ?thesis by (simp add: ids_ok_def)
qed

lemma ping_line_reply:
  assumes "delivers k cr (CMD_PING @ cid @ ''\<newline>'')" "reply_ok k" "ids_ok (clients b)"
    and "i < length (clients b)" "live (clients b ! i)" "clientID (clients b ! i) = cid" "id_ok cid"
    and "owns cr (clients b ! i)"
  shows "handle_command bc k b =
    (b\<lparr>clients := upd_at i (\<lambda>c. c\<lparr>last_ping := now k\<rparr>) (clients b)\<rparr>, [Reply ''OK\<newline>''])"
proof -
  have "index_of (clients b) cid = Some i" using assms by (simp add: index_of_iff)
  moreover have "length cid = 16" using assms(7) by (simp add: id_ok_def)
  moreover have "clientID_arg (cid @ ''\<newline>'') = Inr cid" using assms(7) by (intro clientID_arg_id) simp_all
  ultimately show ?thesis
    using assms by (simp add: handle_command_delivers dispatch_cmd handle_ping_def parse_clientID_arg
        by_clientID_registry owns_def)
qed

text \<open>
  C14. Register and ping: a client that registers successfully and then sends PING with the identifier
  it was given, from the same process or from any process if it asked for ignorepid, is answered OK
  and its slot carries the new heartbeat; nothing else changes. (The identifier the registration
  drew must not be in use already.)
\<close>

theorem register_then_ping:
  assumes "broker_ok bc b" "ids_ok (clients b)" "fresh_id k1 b"
    and "delivers k1 cr (register_line nm tmo chk)" "reply_ok k1"
    and "word_ok nm" "length nm \<le> 63" "list_all isprint nm" "timeout_ok tmo"
    and "slot_for (config b) (clients b) nm = Some i"
    and "b1 = fst (handle_command bc k1 b)" "cid = clientID (clients b1 ! i)"
    and "delivers k2 cr2 (CMD_PING @ cid @ ''\<newline>'')" "reply_ok k2" "chk \<longrightarrow> cr_pid cr2 = cr_pid cr"
  shows "replies (snd (handle_command bc k1 b)) = [''OK '' @ cid @ ''\<newline>''] \<and>
         handle_command bc k2 b1 =
           (b1\<lparr>clients := upd_at i (\<lambda>c. c\<lparr>last_ping := now k2\<rparr>) (clients b1)\<rparr>, [Reply ''OK\<newline>''])"
proof -
  note slot = slot_forD(1,2) [OF assms(10)]
  have b1: "b1 = b\<lparr>clients := upd_at i (register_slot k1 cr nm tmo chk) (clients b)\<rparr>"
    and r: "replies (snd (handle_command bc k1 b)) = [''OK '' @ cid @ ''\<newline>'']"
    using register_line_effect [OF assms(4-9), where b = b and bc = bc] assms(10-12) by simp_all
  have "broker_ok bc b1"
    using commands.step_inv [OF assms(1)] assms(11) by simp
  then have "table_ok (config b1) (clients b1)" by (simp only: broker_ok_def)
  then have "client_ok (clients b1 ! i)"
    by (rule table_ok_nth) (simp add: b1 slot)
  moreover have live: "live (clients b1 ! i)" using b1 slot by simp
  ultimately have "id_ok cid" using assms(12) by (simp add: client_ok_def)
  moreover have "ids_ok (clients b1)" using ids_ok_register [OF assms(2) slot assms(3)] b1 by simp
  moreover have "owns cr2 (clients b1 ! i)" using b1 slot assms(15) by (auto simp: owns_def)
  ultimately have "handle_command bc k2 b1 =
      (b1\<lparr>clients := upd_at i (\<lambda>c. c\<lparr>last_ping := now k2\<rparr>) (clients b1)\<rparr>, [Reply ''OK\<newline>''])"
    using ping_line_reply [OF assms(13,14)] slot(1) b1 live assms(12) by simp
  with r show ?thesis by blast
qed

theorem register_then_ping_witness:
  "let b = sample_broker False True; k1 = sample_conn 7 1000 (register_line ''gamma'' 6000 True);
       b1 = fst (handle_command sample_build k1 b); k2 = sample_conn 7 1000 (CMD_PING @ ''01020304fa060708'' @ ''\<newline>'')
   in replies (snd (handle_command sample_build k1 b)) = [''OK 01020304fa060708\<newline>''] \<and>
      replies (snd (handle_command sample_build k2 b1)) = [''OK\<newline>'']"
proof -
  let ?b = "sample_broker False True" and ?k1 = "sample_conn 7 1000 (register_line ''gamma'' 6000 True)"
  let ?k2 = "sample_conn 7 1000 (CMD_PING @ ''01020304fa060708'' @ ''\<newline>'')" and ?cr = "\<lparr>cr_pid = 7, cr_uid = 1000\<rparr>"
  have i: "ids_ok (clients ?b)" "fresh_id ?k1 ?b" by code_simp+
  have d: "delivers ?k1 ?cr (register_line ''gamma'' 6000 True)" "reply_ok ?k1"
    "delivers ?k2 ?cr (CMD_PING @ ''01020304fa060708'' @ ''\<newline>'')" "reply_ok ?k2"
    by (simp_all add: delivers_def sample_conn_def NUL_def CMD_PING_def) (code_simp)
  have n: "word_ok ''gamma''" "length ''gamma'' \<le> 63" "list_all isprint ''gamma''" "timeout_ok 6000"
    "slot_for (config ?b) (clients ?b) ''gamma'' = Some 2" by code_simp+
  have c: "''01020304fa060708'' = clientID (clients (fst (handle_command sample_build ?k1 ?b)) ! 2)"
    by code_simp
  show ?thesis
    using register_then_ping [OF sample_broker_ok i d(1,2) n refl c d(3,4)] unfolding Let_def by simp
qed

end
