(* ===== verification/Status_Report.thy ===== *)
theory Status_Report
  imports Registry
begin

text \<open>
  The STATUS and VERSION replies and the fixed buffers they are composed in: what the report says,
  when it fits, and that a full table does not fit.
\<close>

section \<open>Sizes\<close>

lemma length_show_int: "- (2 ^ 31) \<le> i \<Longrightarrow> i < 2 ^ 31 \<Longrightarrow> length (show_int i) \<le> 11"
  using length_show_nat [of "nat i" 10] length_show_nat [of "nat (- i)" 10]
  by (cases "i < 0") (simp_all add: show_int_def nat_less_iff)

lemma length_show_timeout:
  assumes "timeout_ok t"
  shows "length (show_u32 t) \<le> 6" "4 \<le> length (show_u32 t)"
proof -
  from assms have "unat t \<le> 300000" "5000 \<le> unat t"
    by (simp_all add: timeout_ok_def WD_CLIENT_TIMEOUT_MIN_MS_def WD_CLIENT_TIMEOUT_MAX_MS_def word_le_nat_alt)
  then show "length (show_u32 t) \<le> 6" "4 \<le> length (show_u32 t)"
    using length_show_nat [of "unat t" 6] length_show_nat_ge [of 3 "unat t"] by (simp_all add: show_u32_def)
qed

lemma length_status_line:
  "length (status_line c) = length (clientID c) + length (show_int (pid c)) + length (name c) +
     length (show_u32 (timeout_ms c)) + 6"
  by (simp add: status_line_def)

definition pid_ok :: "client_t \<Rightarrow> bool" where
  "pid_ok c \<longleftrightarrow> - (2 ^ 31) \<le> pid c \<and> pid c < 2 ^ 31"

lemma status_line_le:
  assumes "client_ok c" "live c" "pid_ok c"
  shows "length (status_line c) \<le> 102"
proof -
  have "length (clientID c) = 16" "length (name c) \<le> 63" "timeout_ok (timeout_ms c)"
    using assms by (auto simp: client_ok_def id_ok_def WD_CLIENT_NAME_LEN_def)
  with length_show_timeout(1) [of "timeout_ms c"] length_show_int [of "pid c"] assms(3) show ?thesis
    by (simp add: length_status_line pid_ok_def)
qed

lemma status_line_ge:
  assumes "client_ok c" "live c" "length (name c) = 63"
  shows "90 \<le> length (status_line c)"
proof -
  have "length (clientID c) = 16" "timeout_ok (timeout_ms c)"
    using assms by (auto simp: client_ok_def id_ok_def)
  moreover have "1 \<le> length (show_int (pid c))"
    using word_ok_show_int [of "pid c"] by (simp add: word_ok_def Suc_le_eq)
  moreover note length_show_timeout(2) [of "timeout_ms c"] assms(3)
  ultimately show ?thesis unfolding length_status_line by linarith
qed

lemma length_concat_le: "list_all (\<lambda>x. length x \<le> m) xs \<Longrightarrow> length (concat xs) \<le> m * length xs"
  by (induction xs) auto

lemma length_concat_ge: "list_all (\<lambda>x. m \<le> length x) xs \<Longrightarrow> m * length xs \<le> length (concat xs)"
  by (induction xs) auto

lemma length_show_int_nonneg: "0 \<le> i \<Longrightarrow> i < 10 ^ k \<Longrightarrow> 0 < k \<Longrightarrow> length (show_int i) \<le> k"
  using length_show_nat [of "nat i" k] by (simp add: show_int_def nat_less_iff)

lemma status_header_le:
  assumes "config_ok (config b)" "length (filter active (clients b)) < 100"
  shows "length (concat (status_header bc b)) \<le> 134 + length (PACKAGE_VERSION bc)"
  using assms length_show_int_nonneg [of "wd_timeout_s (config b)" 2]
    length_show_int_nonneg [of "reboot_timeout_s (config b)" 3]
    length_show_nat [of "length (filter active (clients b))" 2]
  by (simp add: status_header_def SOCKET_PROT_VERSION_def config_ok_def)

section \<open>The report\<close>

text \<open>The words after the command of a line, as STATUS, VERSION and REBOOT check them.\<close>

lemma has_extra_tokens: "has_extra (cmd @ s) cmd w \<longleftrightarrow> tokens s \<noteq> []"
  by (simp add: has_extra_def sscanf_def tokens_eq_Nil Let_def split: prod.splits)

lemma write_pieces_fits:
  assumes "length (concat ps) < sz" "reply_ok k"
  shows "write_pieces k sz ps = [Reply (concat ps)]"
  using assms snprintf_all_fits [of "[]" ps sz] write_buf_fits [of "concat ps" sz]
  by (simp add: write_pieces_def)

text \<open>
  Enough for the two replies to fit their buffers: at most 38 live clients in a well-formed table, and
  a version of at most 32 characters.
\<close>

definition status_fits :: "build_config \<Rightarrow> broker \<Rightarrow> bool" where
  "status_fits bc b \<longleftrightarrow> broker_ok bc b \<and> list_all pid_ok (clients b) \<and> config_ok (config b) \<and>
     length (filter live (clients b)) \<le> 38 \<and> length (PACKAGE_VERSION bc) \<le> 32"

lemma status_fits_length:
  assumes "status_fits bc b"
  shows "length (concat (status_pieces bc b)) < 4096"
proof -
  let ?lines = "map status_line (filter live (clients b))"
  have "list_all (\<lambda>x. length x \<le> 102) ?lines"
    using assms by (auto simp: status_fits_def list_all_iff broker_ok_def table_ok_def intro: status_line_le)
  then have "length (concat ?lines) \<le> 102 * 38"
    using length_concat_le [of 102 ?lines] assms by (simp add: status_fits_def)
  moreover have "length (filter active (clients b)) \<le> length (filter live (clients b))"
    by (rule length_filter_mono) (simp add: live_def)
  then have "length (concat (status_header bc b)) \<le> 166"
    using status_header_le [of b bc] assms by (simp add: status_fits_def)
  ultimately show ?thesis by (simp add: status_pieces_def)
qed

text \<open>The report as a whole, while it fits.\<close>

lemma status_report_text:
  assumes "delivers k cr (CMD_STATUS @ s)" "tokens s = []" "reply_ok k" "cr_uid cr = 0"
    and "broker_ok bc b" "list_all pid_ok (clients b)" "config_ok (config b)"
    and "length (filter live (clients b)) \<le> 38" "length (PACKAGE_VERSION bc) \<le> 32"
  shows "handle_command bc k b =
    (b, [Reply (concat (status_header bc b) @ concat (map status_line (filter live (clients b))))])"
proof -
  let ?lines = "map status_line (filter live (clients b))"
  have "length (concat (status_pieces bc b)) < 4096"
    using assms(5-9) by (intro status_fits_length) (simp add: status_fits_def)
  from write_pieces_fits [OF this assms(3)]
  have "write_pieces k 4096 (status_pieces bc b) = [Reply (concat (status_header bc b) @ concat ?lines)]"
    by (simp add: status_pieces_def)
  with assms(1,2,4) show ?thesis
    by (simp add: handle_command_delivers dispatch_cmd handle_status_def has_extra_tokens)
qed

text \<open>
  C29. Up to 38 live clients the status report is sent to root completely, whatever names, PIDs and
  timeouts they have: the header lines followed by one line per live slot in table order, and no
  access leaves the 4096-byte buffer. The table is not changed.
\<close>

theorem status_report_complete:
  assumes "delivers k cr (CMD_STATUS @ s)" "tokens s = []" "reply_ok k" "cr_uid cr = 0"
    and "broker_ok bc b" "list_all pid_ok (clients b)" "config_ok (config b)"
    and "length (filter live (clients b)) \<le> 38" "length (PACKAGE_VERSION bc) \<le> 32"
  shows "handle_command bc k b =
    (b, [Reply (concat (status_header bc b) @ concat (map status_line (filter live (clients b))))])"
  using assms by (rule status_report_text)

theorem status_report_complete_witness:
  "handle_command sample_build (sample_conn 1 0 ''STATUS'') (sample_broker False True) =
    (sample_broker False True,
     [Reply (concat (status_header sample_build (sample_broker False True)) @
        ''00000000000000aa 0 alpha 5000 0\<newline>00000000000000bb 4711 beta 8000 1\<newline>'')])"
proof -
  let ?k = "sample_conn 1 0 ''STATUS''" and ?b = "sample_broker False True"
  have d: "delivers ?k \<lparr>cr_pid = 1, cr_uid = 0\<rparr> (CMD_STATUS @ [])" "reply_ok ?k" "cr_uid \<lparr>cr_pid = 1, cr_uid = 0\<rparr> = 0"
    by (simp_all add: delivers_def sample_conn_def CMD_STATUS_def NUL_def)
  have h: "list_all pid_ok (clients ?b)" "config_ok (config ?b)" "length (filter live (clients ?b)) \<le> 38"
    "length (PACKAGE_VERSION sample_build) \<le> 32" and t: "tokens [] = []"
    by code_simp+
  have "concat (map status_line (filter live (clients ?b))) =
      ''00000000000000aa 0 alpha 5000 0\<newline>00000000000000bb 4711 beta 8000 1\<newline>''" by code_simp
  with status_report_complete [OF d(1) t d(2,3) sample_broker_ok h] show ?thesis by simp
qed

section \<open>A full table\<close>

lemma status_report_overflow:
  assumes "delivers k cr (CMD_STATUS @ s)" "tokens s = []" "cr_uid cr = 0"
    and "list_all client_ok (clients b)" "list_all (\<lambda>c. live c \<longrightarrow> length (name c) = 63) (clients b)"
    and "47 \<le> length (filter live (clients b))"
  shows "snd (handle_command bc k b) = [Out_of_bounds]"
proof -
  let ?lines = "map status_line (filter live (clients b))"
  have "list_all (\<lambda>x. 90 \<le> length x) (butlast ?lines)"
    using assms(4,5) by (auto simp: list_all_iff status_line_ge dest!: in_set_butlastD)
  then have "90 * 46 \<le> length (concat (butlast ?lines))"
    using length_concat_ge [of 90 "butlast ?lines"] assms(6) by simp
  moreover have "?lines \<noteq> []" using assms(6) by auto
  ultimately have "4096 < 0 + length (concat (butlast (status_pieces bc b)))" "status_pieces bc b \<noteq> []"
    by (simp_all add: status_pieces_def butlast_append)
  then have "snprintf_all 4096 (status_pieces bc b) ([], 0) = None"
    by (rule snprintf_all_overflow)
  with assms(1,2,3) show ?thesis
    by (simp add: handle_command_delivers dispatch_cmd handle_status_def has_extra_tokens write_pieces_def)
qed

text \<open>Registrations of one long name fill the free slots one after the other.\<close>

definition long_name :: string where
  "long_name = replicate 63 (CHR ''x'')"

definition register_conn :: "nat \<Rightarrow> conn" where
  "register_conn i = \<lparr>peercred = Some \<lparr>cr_pid = 4711, cr_uid = 1000\<rparr>, rd_select = Select_ready,
     rd_packet = Read_packet (register_line long_name 5000 True), now = \<lparr>tv_sec = 0, tv_nsec = 0\<rparr>,
     rnd = \<lparr>urandom = Some [word_of_nat i, 0, 0, 0, 0, 0, 0, 0], seed_parts = (0, 0, 0, 0), libc_random = (\<lambda>_ _. 0)\<rparr>,
     err_text = [], reply_ok = True\<rparr>"

definition empty_broker :: "nat \<Rightarrow> broker" where
  "empty_broker n = \<lparr>config = sample_config False False, clients = replicate n zero_client,
     running = True, reboot = False\<rparr>"

lemma find_index_append:
  "list_all (\<lambda>x. \<not> P x) xs \<Longrightarrow> find_index P (xs @ ys) = map_option (\<lambda>i. length xs + i) (find_index P ys)"
proof (induction xs)
  case Nil
  show ?case by (simp add: option.map_ident del: find_index_None)
next
  case (Cons x xs)
  then show ?case by (simp add: option.map_comp comp_def map_option_Suc_add)
qed

lemma upd_at_append: "upd_at (length xs) f (xs @ y # ys) = xs @ f y # ys"
  by (simp add: upd_at_def list_update_append)

lemma register_conn_step:
  assumes "config b = sample_config False False" "clients b = cs @ zero_client # rest"
    and "list_all (\<lambda>c. active c \<and> \<not> anounced c) cs" "list_all (\<lambda>c. \<not> anounced c) rest"
  shows "fst (handle_command bc (register_conn i) b) =
    b\<lparr>clients := cs @ register_slot (register_conn i) \<lparr>cr_pid = 4711, cr_uid = 1000\<rparr> long_name 5000 True zero_client # rest\<rparr>"
proof -
  let ?k = "register_conn i" and ?cr = "\<lparr>cr_pid = 4711, cr_uid = 1000\<rparr>"
  have len: "length long_name \<le> 63" by (simp add: long_name_def)
  have d: "delivers ?k ?cr (register_line long_name 5000 True)" "reply_ok ?k"
    by (simp_all add: delivers_def register_conn_def) (code_simp)
  have n: "word_ok long_name" "length long_name \<le> 63" "list_all isprint long_name" "timeout_ok 5000"
    by code_simp+
  have "find_index (awaits long_name) (clients b) = None"
    using assms by (auto simp: list_all_iff awaits_def zero_client_def)
  moreover have "find_index free_slot (clients b) = Some (length cs)"
    unfolding assms(2) by (subst find_index_append)
      (use assms(3) in \<open>auto simp: list_all_iff free_slot_def zero_client_def\<close>)
  ultimately have "slot_for (config b) (clients b) long_name = Some (length cs)"
    by (simp add: slot_for_def assms(1) sample_config_def del: find_index_None)
  with register_line_effect [OF d n, where b = b and bc = bc] show ?thesis
    by (simp add: assms(2) upd_at_append)
qed

lemma register_conn_run:
  assumes "config b = sample_config False False" "clients b = cs @ replicate (length is) zero_client"
    and "list_all (\<lambda>c. active c \<and> \<not> anounced c \<and> name c = long_name \<and> client_ok c) cs"
  shows "\<exists>cs'. clients (run (\<lambda>b k. fst (handle_command bc k b)) b (map register_conn is)) = cs' \<and>
           length cs' = length cs + length is \<and>
           list_all (\<lambda>c. active c \<and> \<not> anounced c \<and> name c = long_name \<and> client_ok c) cs'"
  using assms
proof (induction "is" arbitrary: b cs)
  case Nil
  then show ?case by simp
next
  case (Cons i "is")
  let ?c = "register_slot (register_conn i) \<lparr>cr_pid = 4711, cr_uid = 1000\<rparr> long_name 5000 True zero_client"
  have long: "word_ok long_name" "length long_name \<le> 63" "timeout_ok 5000" by code_simp+
  have "client_ok zero_client"
    by (simp add: client_ok_def zero_client_def live_def WD_CLIENT_NAME_LEN_def)
  with long have c: "active ?c \<and> \<not> anounced ?c \<and> name ?c = long_name \<and> client_ok ?c"
    by (simp add: client_ok_register)
  have step: "fst (handle_command bc (register_conn i) b) =
      b\<lparr>clients := cs @ ?c # replicate (length is) zero_client\<rparr>"
    by (rule register_conn_step)
      (use Cons.prems in \<open>auto simp: list_all_iff zero_client_def\<close>)
  show ?case
    using Cons.IH [of "b\<lparr>clients := cs @ ?c # replicate (length is) zero_client\<rparr>" "cs @ [?c]"]
      Cons.prems c by (simp add: step)
qed

text \<open>
  C30. The report overruns its buffer on a table that clients can fill: on a broker with 64 empty
  slots, unprivileged registrations under names of 63 characters lead to a state in which root's
  STATUS makes the offset pass the end of \<open>msg[4096]\<close>, and the next snprintf writes behind it.
\<close>

theorem status_report_can_overflow:
  "\<exists>ks k. list_all unprivileged ks \<and>
     Out_of_bounds \<in> set (snd (handle_command bc k (run (\<lambda>b k. fst (handle_command bc k b)) (empty_broker 64) ks)))"
proof -
  let ?ks = "map register_conn [0 ..< 64]" and ?k = "sample_conn 1 0 ''STATUS''"
  define b where "b = run (\<lambda>b k. fst (handle_command bc k b)) (empty_broker 64) ?ks"
  obtain cs where cs: "clients b = cs" "length cs = 64"
    "list_all (\<lambda>c. active c \<and> \<not> anounced c \<and> name c = long_name \<and> client_ok c) cs"
    using register_conn_run [of "empty_broker 64" "[]" "[0 ..< 64]" bc]
    by (auto simp: b_def empty_broker_def)
  have "delivers ?k \<lparr>cr_pid = 1, cr_uid = 0\<rparr> (CMD_STATUS @ [])"
      "cr_uid \<lparr>cr_pid = 1, cr_uid = 0\<rparr> = 0" and "tokens [] = []"
    by (simp_all add: delivers_def sample_conn_def CMD_STATUS_def NUL_def tokens_blank)
  moreover have "list_all client_ok (clients b)" "list_all (\<lambda>c. live c \<longrightarrow> length (name c) = 63) (clients b)"
    using cs by (auto simp: list_all_iff long_name_def)
  moreover have "filter live cs = cs" using cs(3) by (auto simp: list_all_iff live_def filter_id_conv)
  then have "47 \<le> length (filter live (clients b))" using cs by simp
  ultimately have "snd (handle_command bc ?k b) = [Out_of_bounds]"
    using status_report_overflow by blast
  moreover have "list_all unprivileged ?ks"
    by (simp add: list_all_iff unprivileged_def register_conn_def)
  ultimately show ?thesis unfolding b_def by (metis list.set_intros(1))
qed

end
