(* ===== verification/Loop_Properties.thy ===== *)
theory Loop_Properties
  imports Main_Loop Status_Report
begin

text \<open>
  What the main loop guarantees about the hardware watchdog: it is fed only while every client is in
  time, a missed deadline is detected and ends the feeding for good, the invariant of the client
  table holds in every state, and the watchdog is stopped on no other path than the regular exit.
\<close>

section \<open>The heartbeat check\<close>

lemma check_clients_iff:
  "fst (check_clients tm i cs) \<longleftrightarrow> (\<forall>j < length cs. \<not> late (tm (i + j)) (cs ! j))"
  by (induction cs arbitrary: i) (auto simp: All_less_Suc2)

definition in_time :: "iter_env \<Rightarrow> broker \<Rightarrow> bool" where
  "in_time e b \<longleftrightarrow> (\<forall>i < length (clients b). \<not> late (clk e i) (clients b ! i))"

lemma check_heartbeats_state:
  "fst (check_heartbeats e st) = (if in_time e (bk st) then st else st\<lparr>all_ok := False\<rparr>)"
  using check_clients_iff [of "clk e" 0 "clients (bk st)"]
  by (auto simp: check_heartbeats_def in_time_def split: prod.splits)

text \<open>Replies and messages are neither feeding nor stopping the watchdog.\<close>

definition only_out :: "action list \<Rightarrow> bool" where
  "only_out as \<longleftrightarrow> (\<forall>a \<in> set as. \<exists>x. a = Out x)"

lemma only_outD: "only_out as \<Longrightarrow> Wd_feed \<notin> set as \<and> \<not> list_ex disarms as"
  by (auto simp: only_out_def list_ex_iff disarms_def)

lemma only_out_simps [simp]:
  "only_out []" "only_out (map Out es)" "only_out [Out x]" "only_out (xs @ ys) \<longleftrightarrow> only_out xs \<and> only_out ys"
  by (auto simp: only_out_def)

lemma serve_connection_out: "only_out (snd (serve_connection bc e st))"
  by (simp add: serve_connection_def split: accept_result.splits prod.splits)

lemma check_heartbeats_out: "only_out (snd (check_heartbeats e st))"
  by (simp add: check_heartbeats_def split: prod.splits)

lemma deliver_signal_out: "only_out (snd (deliver_signal e st))"
  by (simp add: deliver_signal_def signal_handler_def split: option.splits)

text \<open>The state between the connection and the heartbeat check.\<close>

definition served :: "build_config \<Rightarrow> iter_env \<Rightarrow> bool \<Rightarrow> loop_state \<Rightarrow> loop_state" where
  "served bc e server st = (if server then fst (serve_connection bc e st) else st)"

lemma loop_body_ready:
  assumes "sel e = Sel_ready server timer"
  obtains a where "only_out a"
    "loop_body bc e st =
       (let st2 = fst (check_heartbeats e (served bc e server st));
            f = (if timer then feed_watchdog e st2 else ([], Inr ()))
        in (a @ fst f, case snd f of Inl x \<Rightarrow> Inl x | Inr _ \<Rightarrow> Inr st2))"
proof -
  let ?c = "if server then serve_connection bc e st else (st, [])"
  let ?h = "check_heartbeats e (fst ?c)"
  have "only_out (snd ?c @ snd ?h)"
    by (simp add: serve_connection_out check_heartbeats_out)
  moreover have "served bc e server st = fst ?c" by (simp add: served_def)
  ultimately show thesis
    by (intro that [of "snd ?c @ snd ?h"]) (simp_all add: loop_body_def assms split_beta Let_def)
qed

lemma feed_watchdog_cases:
  "feed_watchdog e st = ([Wd_feed], Inr ()) \<and> all_ok st \<and> watchdog_open st \<or>
   fst (feed_watchdog e st) = [] \<and>
     (case snd (feed_watchdog e st) of Inl x \<Rightarrow> exit_code x = EXIT_FAILURE | Inr _ \<Rightarrow> True)"
  by (auto simp: feed_watchdog_def fatal_error_def fatal_errno_def)

lemma iteration_state:
  "iteration bc e st =
     (case snd (loop_body bc e st) of
        Inl x \<Rightarrow> (fst (loop_body bc e st), Inl x)
      | Inr st' \<Rightarrow> (fst (loop_body bc e st) @ snd (deliver_signal e st'), Inr (fst (deliver_signal e st'))))"
  by (auto simp: iteration_def split: prod.splits sum.splits)

lemma deliver_signal_state:
  "fst (deliver_signal e st) = (if sig e = None then st else st\<lparr>bk := (bk st)\<lparr>running := False\<rparr>\<rparr>)"
  by (simp add: deliver_signal_def signal_handler_def split: option.splits)

section \<open>Feeding\<close>

lemma iteration_feeds:
  assumes "iteration bc e st = (as, r)" "Wd_feed \<in> set as"
  shows "\<exists>st'. r = Inr st' \<and> all_ok st' \<and> in_time e (bk st') \<and> watchdog_open st'"
proof -
  have feeds: "Wd_feed \<in> set (fst (loop_body bc e st))"
    using assms only_outD [OF deliver_signal_out]
    by (auto simp: iteration_state split: sum.splits)
  then obtain server timer where sl: "sel e = Sel_ready server timer"
    by (auto simp: loop_body_def split: loop_select.splits)
  let ?st1 = "served bc e server st"
  let ?st2 = "fst (check_heartbeats e ?st1)"
  let ?f = "if timer then feed_watchdog e ?st2 else ([], Inr ())"
  from loop_body_ready [OF sl, of bc st] obtain a where a: "only_out a"
    and lb: "loop_body bc e st = (a @ fst ?f, case snd ?f of Inl x \<Rightarrow> Inl x | Inr _ \<Rightarrow> Inr ?st2)"
    by (metis (no_types, lifting))
  with feeds only_outD [OF a] have "Wd_feed \<in> set (fst ?f)" by auto
  with feed_watchdog_cases [of e ?st2]
  have ok: "snd ?f = Inr ()" "all_ok ?st2" "watchdog_open ?st2" by (auto split: if_splits)
  then have "in_time e (bk ?st1)" using check_heartbeats_state [of e ?st1] by (auto split: if_splits)
  then have "in_time e (bk ?st2)" using check_heartbeats_state [of e ?st1] by simp
  moreover have "r = Inr (fst (deliver_signal e ?st2))"
    using assms(1) lb ok(1) by (simp add: iteration_state)
  ultimately show ?thesis using ok(2,3) by (auto simp: deliver_signal_state in_time_def)
qed

lemma iteration_never_disarms: "\<not> list_ex disarms (fst (iteration bc e st))"
proof -
  have "\<not> list_ex disarms (fst (loop_body bc e st))"
  proof (cases "sel e")
    case (Sel_ready server timer)
    let ?st2 = "fst (check_heartbeats e (served bc e server st))"
    from loop_body_ready [OF Sel_ready, of bc st] obtain a where a: "only_out a"
      and "fst (loop_body bc e st) = a @ fst (if timer then feed_watchdog e ?st2 else ([], Inr ()))"
      by (metis (no_types, lifting) fst_conv)
    with only_outD [OF a] feed_watchdog_cases [of e ?st2] show ?thesis
      by (auto simp: disarms_def)
  qed (simp_all add: loop_body_def disarms_def)
  with only_outD [OF deliver_signal_out] show ?thesis
    by (auto simp: iteration_state split: sum.splits)
qed

lemma main_loop_left: "\<not> (running (bk st) \<and> all_ok st) \<Longrightarrow> main_loop bc es st = ([], Finished st)"
  by (subst main_loop.simps) auto

lemma main_loop_Cons:
  "running (bk st) \<Longrightarrow> all_ok st \<Longrightarrow> main_loop bc (e # es) st =
     (case snd (iteration bc e st) of
        Inl x \<Rightarrow> (fst (iteration bc e st), Died x)
      | Inr st' \<Rightarrow> apfst ((@) (fst (iteration bc e st))) (main_loop bc es st'))"
  by (subst main_loop.simps) (simp split: prod.splits sum.splits)

lemma iteration_Died: "snd (iteration bc e st) = Inl x \<Longrightarrow> exit_code x = EXIT_FAILURE"
proof -
  assume "snd (iteration bc e st) = Inl x"
  then have "snd (loop_body bc e st) = Inl x" by (auto simp: iteration_state split: sum.splits)
  then show ?thesis
  proof (cases "sel e")
    case (Sel_ready server timer)
    let ?st2 = "fst (check_heartbeats e (served bc e server st))"
    let ?f = "if timer then feed_watchdog e ?st2 else ([], Inr ())"
    from loop_body_ready [OF Sel_ready, of bc st]
    have "snd (loop_body bc e st) = (case snd ?f of Inl x \<Rightarrow> Inl x | Inr _ \<Rightarrow> Inr ?st2)"
      by (metis (no_types, lifting) snd_conv)
    with \<open>snd (loop_body bc e st) = Inl x\<close> have "snd (feed_watchdog e ?st2) = Inl x"
      by (auto split: sum.splits if_splits)
    with feed_watchdog_cases [of e ?st2] show ?thesis by auto
  qed (simp_all add: loop_body_def)
qed

lemma main_loop_safe:
  "\<not> list_ex disarms (fst (main_loop bc es st)) \<and>
   (\<forall>x. snd (main_loop bc es st) = Died x \<longrightarrow> exit_code x = EXIT_FAILURE)"
proof (induction es arbitrary: st)
  case Nil
  show ?case by (subst (1 2) main_loop.simps) simp
next
  case (Cons e es)
  show ?case
  proof (cases "running (bk st) \<and> all_ok st")
    case True
    with Cons.IH iteration_never_disarms [of bc e st] iteration_Died [of bc e st] show ?thesis
      by (auto simp: main_loop_Cons split: sum.splits)
  qed (simp add: main_loop_left)
qed

section \<open>The invariant\<close>

lemma serve_connection_keeps:
  assumes "broker_ok bc (bk st)"
  shows "broker_ok bc (bk (fst (serve_connection bc e st)))"
    and "watchdog_open (fst (serve_connection bc e st)) = watchdog_open st"
    and "config (bk (fst (serve_connection bc e st))) = config (bk st)"
  using assms commands.step_inv [OF assms] permitted_config [OF handle_command_permitted [of _ "bk st" bc]]
  by (cases "acc e"; simp add: serve_connection_def split_beta)+

definition loop_ok :: "build_config \<Rightarrow> wd_config_t \<Rightarrow> bool \<Rightarrow> loop_state \<Rightarrow> bool" where
  "loop_ok bc c wd st \<longleftrightarrow> broker_ok bc (bk st) \<and> config (bk st) = c \<and> watchdog_open st = wd"

lemma iteration_keeps:
  assumes "loop_ok bc c wd st" "snd (iteration bc e st) = Inr st'"
  shows "loop_ok bc c wd st'"
proof -
  have flags: "loop_ok bc c wd (st\<lparr>all_ok := x\<rparr>) \<longleftrightarrow> loop_ok bc c wd st"
    "loop_ok bc c wd (st\<lparr>bk := (bk st)\<lparr>running := x\<rparr>\<rparr>) \<longleftrightarrow> loop_ok bc c wd st" for st x
    by (simp_all add: loop_ok_def broker_ok_def)
  have served: "loop_ok bc c wd (served bc e server st)" for server
    using assms(1) serve_connection_keeps [of bc st e] by (simp add: loop_ok_def served_def)
  have "loop_ok bc c wd st2" if "snd (loop_body bc e st) = Inr st2" for st2
  proof (cases "sel e")
    case (Sel_ready server timer)
    from loop_body_ready [OF Sel_ready, of bc st] that have "st2 = fst (check_heartbeats e (served bc e server st))"
      by (metis (no_types, lifting) Inr_inject sum.case_eq_if sum.distinct(1) snd_conv)
    with served [of server] show ?thesis by (simp add: check_heartbeats_state flags)
  qed (use that assms(1) in \<open>auto simp: loop_body_def flags\<close>)
  with assms(2) show ?thesis
    by (auto simp: iteration_state deliver_signal_state flags split: sum.splits)
qed

interpretation loop: invariant_machine "\<lambda>st e. case snd (iteration bc e st) of Inr st' \<Rightarrow> st' | Inl _ \<Rightarrow> st"
    "loop_ok bc c wd" for bc c wd
  by unfold_locales (auto dest: iteration_keeps split: sum.splits)

text \<open>Every state the loop is in or leaves with is a state of a run of iterations.\<close>

lemma main_loop_run:
  assumes "snd (main_loop bc es st) = Looping st' \<or> snd (main_loop bc es st) = Finished st'"
  shows "\<exists>es'. st' = run (\<lambda>st e. case snd (iteration bc e st) of Inr st' \<Rightarrow> st' | Inl _ \<Rightarrow> st) st es'"
  using assms
proof (induction es arbitrary: st)
  case Nil
  then have "st' = st" by (subst (asm) (1 2) main_loop.simps) (auto split: if_splits)
  then show ?case by (intro exI [of _ "[]"]) simp
next
  case (Cons e es)
  show ?case
  proof (cases "running (bk st) \<and> all_ok st")
    case True
    with Cons.prems obtain st1 where st1: "snd (iteration bc e st) = Inr st1"
      "snd (main_loop bc es st1) = Looping st' \<or> snd (main_loop bc es st1) = Finished st'"
      by (auto simp: main_loop_Cons split: sum.splits)
    from Cons.IH [OF this(2)] obtain es' where
      "st' = run (\<lambda>st e. case snd (iteration bc e st) of Inr st' \<Rightarrow> st' | Inl _ \<Rightarrow> st) st1 es'" ..
    with st1(1) show ?thesis by (intro exI [of _ "e # es'"]) simp
  next
    case False
    with Cons.prems show ?thesis by (intro exI [of _ "[]"]) (simp add: main_loop_left)
  qed
qed

section \<open>Properties\<close>

text \<open>
  An iteration at second \<open>s\<close> that serves \<open>k\<close> (or no connection) and finds the timer expired, and an
  environment in which all accesses to the watchdog succeed.
\<close>

definition sample_iter :: "conn option \<Rightarrow> int \<Rightarrow> iter_env" where
  "sample_iter k s = \<lparr>sel = Sel_ready (k \<noteq> None) True,
     acc = (case k of Some c \<Rightarrow> Acc_conn c | None \<Rightarrow> Acc_retry), clk = (\<lambda>_. \<lparr>tv_sec = s, tv_nsec = 0\<rparr>),
     timer_read_ok = True, feed_ok = True, sig = None, errtxt = []\<rparr>"

definition sample_exit :: "int option \<Rightarrow> exit_env" where
  "sample_exit s = \<lparr>pending_signal = s, settimeout_ok = True, last_feed_ok = True, magic_ok = True,
     disable_ok = True, exit_errtxt = []\<rparr>"

definition sample_state :: "bool \<Rightarrow> loop_state" where
  "sample_state ok = \<lparr>bk = (sample_broker False False)\<lparr>clients := [sample_client, zero_client, zero_client]\<rparr>,
     all_ok = ok, watchdog_open = True\<rparr>"

lemmas sample_loop_defs = sample_iter_def sample_exit_def sample_state_def sample_client_def sample_broker_def
  sample_config_def zero_client_def live_def

text \<open>
  C1. The hardware watchdog is fed only while every client is alive: when an iteration feeds it, then
  in the state it ends with no active or announced client has been silent for its timeout plus one
  millisecond (for silences below the 49 days after which the 32-bit age wraps), and the loop has
  seen no failure.
\<close>

theorem fed_only_if_all_clients_alive:
  assumes "iteration bc e st = (as, r)" "Wd_feed \<in> set as"
  shows "\<exists>st'. r = Inr st' \<and> all_ok st' \<and>
    (\<forall>i < length (clients (bk st')). let c = clients (bk st') ! i; age = elapsed_ns (clk e i) (last_ping c)
       in live c \<and> age < (2 ^ 32 - 1) * 1000000 \<longrightarrow> age < (uint (timeout_ms c) + 1) * 1000000)"
proof -
  from iteration_feeds [OF assms] obtain st' where st': "r = Inr st'" "all_ok st'" "in_time e (bk st')" by blast
  have "elapsed_ns (clk e i) (last_ping c) < (uint (timeout_ms c) + 1) * 1000000"
    if "i < length (clients (bk st'))" "c = clients (bk st') ! i" "live c"
      "elapsed_ns (clk e i) (last_ping c) < (2 ^ 32 - 1) * 1000000" for i c
  proof (rule ccontr)
    assume "\<not> ?thesis"
    then have "timeout_ms c < ms_since (clk e i) (last_ping c)" using that(4) by (intro ms_since_late) simp_all
    with that st'(3) show False by (auto simp: in_time_def late_def)
  qed
  with st' show ?thesis by (auto simp: Let_def)
qed

theorem fed_only_if_all_clients_alive_witness:
  "\<exists>st'. snd (iteration sample_build (sample_iter None 65) (sample_state True)) = Inr st' \<and> all_ok st'"
proof -
  have "Wd_feed \<in> set (fst (iteration sample_build (sample_iter None 65) (sample_state True)))" by code_simp
  with fed_only_if_all_clients_alive [OF prod.collapse [symmetric]] show ?thesis by blast
qed

text \<open>A late client ends the feeding in the iteration that sees it.\<close>

lemma late_iteration:
  assumes "sel e = Sel_ready server timer" "\<not> in_time e (bk (served bc e server st))" "sig e = None"
  shows "Wd_feed \<notin> set (fst (iteration bc e st)) \<and>
    (\<forall>st'. snd (iteration bc e st) = Inr st' \<longrightarrow> st' = (served bc e server st)\<lparr>all_ok := False\<rparr>)"
proof -
  let ?st2 = "(served bc e server st)\<lparr>all_ok := False\<rparr>"
  let ?f = "if timer then feed_watchdog e ?st2 else ([], Inr ())"
  have hb: "fst (check_heartbeats e (served bc e server st)) = ?st2"
    using assms(2) by (simp add: check_heartbeats_state)
  from loop_body_ready [OF assms(1), of bc st, unfolded hb] obtain a where a: "only_out a"
    and lb: "loop_body bc e st = (a @ fst ?f, case snd ?f of Inl x \<Rightarrow> Inl x | Inr _ \<Rightarrow> Inr ?st2)"
    by (metis (no_types, lifting))
  have "fst ?f = []" using feed_watchdog_cases [of e ?st2] by auto
  with lb only_outD [OF a] assms(3) show ?thesis
    by (auto simp: iteration_state deliver_signal_def split: sum.splits)
qed

lemma serve_after_failure:
  assumes "\<not> all_ok st" "running (bk st)" "pending_signal x = None"
  shows "serve bc es x st = ([Out (Log LOG_EMERG ''SYSTEM RESET PENDING!''), Timer_close,
    Unlink (socket_path (config (bk st)))], None)"
  using assms by (simp add: serve_def main_loop_left shutdown_def reset_pending_def)

text \<open>
  C2. A missed deadline leads to a reset: if in some iteration, after the pending connection was
  served, a client has been silent for its timeout plus a millisecond and root has not requested a
  reboot, then from that iteration on the watchdog is never fed again and, while no signal ends the
  wait for the reset, neither stopped nor does the process exit successfully, whatever connections
  would follow.
\<close>

theorem missed_deadline_ends_feeding:
  assumes "running (bk st)" "all_ok st" "sel e = Sel_ready server timer"
    and "st1 = served bc e server st" "i < length (clients (bk st1))" "c = clients (bk st1) ! i" "live c"
    and "(uint (timeout_ms c) + 1) * 1000000 \<le> elapsed_ns (clk e i) (last_ping c)"
    and "elapsed_ns (clk e i) (last_ping c) < (2 ^ 32 - 1) * 1000000"
    and "running (bk st1)" "sig e = None" "pending_signal x = None"
  shows "Wd_feed \<notin> set (fst (serve bc (e # es) x st)) \<and> \<not> list_ex disarms (fst (serve bc (e # es) x st)) \<and>
         snd (serve bc (e # es) x st) \<noteq> Some 0"
proof -
  let ?it = "iteration bc e st"
  have "late (clk e i) c" using ms_since_late [OF assms(8,9)] assms(7) by (simp add: late_def)
  then have nt: "\<not> in_time e (bk (served bc e server st))" using assms(4-6) by (auto simp: in_time_def)
  from late_iteration [OF assms(3) nt assms(11)]
  have it: "Wd_feed \<notin> set (fst ?it)" "\<And>st'. snd ?it = Inr st' \<Longrightarrow> st' = st1\<lparr>all_ok := False\<rparr>"
    unfolding assms(4) by blast+
  show ?thesis
  proof (cases "snd ?it")
    case (Inl r)
    with it(1) iteration_never_disarms [of bc e st] iteration_Died [OF Inl] show ?thesis
      by (simp add: serve_def main_loop_Cons assms(1,2) EXIT_FAILURE_def)
  next
    case (Inr st')
    have "\<not> all_ok (st1\<lparr>all_ok := False\<rparr>)" "running (bk (st1\<lparr>all_ok := False\<rparr>))" using assms(10) by simp_all
    note rest = serve_after_failure [OF this assms(12), of bc es]
    have "serve bc (e # es) x st = apfst ((@) (fst ?it)) (serve bc es x st')"
      using Inr by (simp add: serve_def main_loop_Cons assms(1,2) split: prod.splits loop_result.splits)
    with it(1) it(2) [OF Inr] rest iteration_never_disarms [of bc e st] show ?thesis
      by (simp add: disarms_def)
  qed
qed

theorem missed_deadline_ends_feeding_witness:
  "Wd_feed \<notin> set (fst (serve sample_build [sample_iter None 69, sample_iter None 70] (sample_exit None) (sample_state True)))"
proof -
  have "Wd_feed \<notin> set (fst (serve sample_build (sample_iter None 69 # [sample_iter None 70]) (sample_exit None) (sample_state True))) \<and>
    \<not> list_ex disarms (fst (serve sample_build (sample_iter None 69 # [sample_iter None 70]) (sample_exit None) (sample_state True))) \<and>
    snd (serve sample_build (sample_iter None 69 # [sample_iter None 70]) (sample_exit None) (sample_state True)) \<noteq> Some 0"
    by (rule missed_deadline_ends_feeding [where i = 0 and server = False and timer = True, OF _ _ _ refl _ refl])
      (simp_all add: sample_loop_defs served_def elapsed_ns_def)
  then show ?thesis by blast
qed

text \<open>In time for the check means in time on the clock.\<close>

lemma in_timeI:
  assumes "broker_ok bc b"
    and "\<And>i. i < length (clients b) \<Longrightarrow> live (clients b ! i) \<Longrightarrow>
      0 \<le> elapsed_ns (clk e i) (last_ping (clients b ! i)) \<and>
      elapsed_ns (clk e i) (last_ping (clients b ! i)) \<le> uint (timeout_ms (clients b ! i)) * 1000000"
  shows "in_time e b"
  unfolding in_time_def
proof (intro allI impI notI)
  fix i
  assume i: "i < length (clients b)" and l: "late (clk e i) (clients b ! i)"
  then have lv: "live (clients b ! i)" by (simp add: late_def)
  have "client_ok (clients b ! i)" using assms(1) i table_ok_nth [of "config b"] by (simp add: broker_ok_def)
  with lv have "timeout_ms (clients b ! i) \<le> 300000"
    by (simp add: client_ok_def timeout_ok_def WD_CLIENT_TIMEOUT_MAX_MS_def)
  then have "timeout_ms (clients b ! i) < 2 ^ 32 - 1" by (rule order.strict_trans1) simp
  with assms(2) [OF i lv] have "ms_since (clk e i) (last_ping (clients b ! i)) \<le> timeout_ms (clients b ! i)"
    by (intro ms_since_in_time) simp_all
  with l show False by (auto simp: late_def)
qed

lemma in_time_iteration:
  assumes "sel e = Sel_ready server timer" "in_time e (bk (served bc e server st))"
  obtains a where "only_out a"
    "iteration bc e st =
       (let f = (if timer then feed_watchdog e (served bc e server st) else ([], Inr ()))
        in (case snd f of
              Inl x \<Rightarrow> (a @ fst f, Inl x)
            | Inr _ \<Rightarrow> (a @ fst f @ snd (deliver_signal e (served bc e server st)),
                        Inr (fst (deliver_signal e (served bc e server st))))))"
proof -
  let ?st2 = "served bc e server st"
  let ?f = "if timer then feed_watchdog e ?st2 else ([], Inr ())"
  have hb: "fst (check_heartbeats e ?st2) = ?st2"
    using assms(2) by (simp add: check_heartbeats_state)
  from loop_body_ready [OF assms(1), of bc st, unfolded hb] obtain a where a: "only_out a"
    and lb: "loop_body bc e st = (a @ fst ?f, case snd ?f of Inl x \<Rightarrow> Inl x | Inr _ \<Rightarrow> Inr ?st2)"
    by (metis (no_types, lifting))
  show thesis
    by (rule that [OF a]) (simp add: iteration_state lb Let_def split: sum.splits)
qed

text \<open>
  C3. No false alarm: while every active or announced client has been heard of within its timeout,
  an iteration in which the timer has fired feeds the watchdog, keeps all_ok and leaves the process
  running unless a command or a signal stops it.
\<close>

theorem in_time_clients_keep_watchdog_fed:
  assumes "all_ok st" "watchdog_open st" "sel e = Sel_ready server True" "server \<longrightarrow> acc e \<noteq> Acc_failed"
    and "timer_read_ok e" "feed_ok e" "st1 = served bc e server st" "broker_ok bc (bk st)"
    and "\<forall>i < length (clients (bk st1)). let c = clients (bk st1) ! i; age = elapsed_ns (clk e i) (last_ping c)
       in live c \<longrightarrow> 0 \<le> age \<and> age \<le> uint (timeout_ms c) * 1000000"
  shows "Wd_feed \<in> set (fst (iteration bc e st)) \<and>
    (\<exists>st'. snd (iteration bc e st) = Inr st' \<and> all_ok st' \<and>
      running (bk st') = (running (bk st1) \<and> sig e = None))"
proof -
  have ok: "all_ok st1" "watchdog_open st1"
    using assms(1,2,4,7) by (auto simp: served_def serve_connection_def split: accept_result.splits prod.splits)
  have "broker_ok bc (bk st1)"
    using assms(7,8) serve_connection_keeps(1) [of bc st e] by (simp add: served_def)
  then have "in_time e (bk st1)" using assms(9) by (intro in_timeI) (auto simp: Let_def)
  then have "in_time e (bk (served bc e server st))" using assms(7) by simp
  from in_time_iteration [OF assms(3) this] obtain a where
    "iteration bc e st = (a @ [Wd_feed] @ snd (deliver_signal e st1), Inr (fst (deliver_signal e st1)))"
    using ok assms(5,6,7) by (auto simp: feed_watchdog_def Let_def)
  with ok show ?thesis by (auto simp: deliver_signal_state)
qed

theorem in_time_clients_keep_watchdog_fed_witness:
  "Wd_feed \<in> set (fst (iteration sample_build (sample_iter None 68) (sample_state True)))"
proof -
  have "broker_ok sample_build (bk (sample_state True))" by code_simp
  from in_time_clients_keep_watchdog_fed [OF _ _ _ _ _ _ refl this, of "sample_iter None 68" False]
  show ?thesis
    by (auto simp: sample_loop_defs served_def elapsed_ns_def less_Suc_eq Let_def numeral_3_eq_3)
qed

text \<open>
  C19. The reboot failsafe: when root sends REBOOT while all clients are in time, the broker answers
  with the configured seconds, leaves the loop, sets the hardware timeout to reboot_timeout_s, feeds
  the watchdog one last time and closes it without stopping it, so the hardware resets the machine
  if the reboot hangs.
\<close>

theorem root_reboot_arms_failsafe:
  assumes "running (bk st)" "all_ok st" "watchdog_open st" "sel e = Sel_ready True timer" "acc e = Acc_conn k"
    and "delivers k cr (CMD_REBOOT @ s)" "tokens s = []" "cr_uid cr = 0" "reply_ok k"
    and "in_time e (bk st)" "timer \<longrightarrow> timer_read_ok e \<and> feed_ok e" "sig e = None" "settimeout_ok x" "last_feed_ok x"
    and "t = reboot_timeout_s (config (bk st))"
  shows "\<exists>as. serve bc (e # es) x st = (as @ [Wd_set_timeout t, Wd_feed,
      Out (Log LOG_NOTICE (''Reboot failsafe activated, hardware watchdog will trigger reboot in '' @ show_int t @ '' seconds'')),
      Out (Log LOG_INFO ''Exiting wd-broker...''), Wd_close, Closelog, Timer_close, Unlink (socket_path (config (bk st)))], Some 0) \<and>
    Out (Reply (''OK, '' @ show_int t @ ''\<newline>'')) \<in> set as \<and> \<not> list_ex disarms as"
proof -
  let ?b = "(bk st)\<lparr>running := False, reboot := True\<rparr>" and ?it = "iteration bc e st"
  have hc: "handle_command bc k (bk st) = (?b, [Reply (''OK, '' @ show_int t @ ''\<newline>''),
      Log LOG_NOTICE (''Reboot failsafe requested by PID '' @ show_int (cr_pid cr))])"
    using assms(7-9,15) by (simp add: handle_command_delivers [OF assms(6)] dispatch_cmd handle_reboot_def
        has_extra_tokens write_str_def)
  then have st1: "served bc e True st = st\<lparr>bk := ?b\<rparr>"
    by (simp add: served_def serve_connection_def assms(5))
  have it: "snd ?it = Inr (st\<lparr>bk := ?b\<rparr>)" and rep: "Out (Reply (''OK, '' @ show_int t @ ''\<newline>'')) \<in> set (fst ?it)"
    using hc assms(2-5,10-12) check_heartbeats_state [of e "st\<lparr>bk := ?b\<rparr>"]
    by (auto simp: iteration_def loop_body_def serve_connection_def deliver_signal_def in_time_def feed_watchdog_def
        split: prod.splits)
  have "shutdown x (st\<lparr>bk := ?b\<rparr>) = ([Wd_set_timeout t, Wd_feed,
      Out (Log LOG_NOTICE (''Reboot failsafe activated, hardware watchdog will trigger reboot in '' @ show_int t @ '' seconds'')),
      Out (Log LOG_INFO ''Exiting wd-broker...''), Wd_close, Closelog, Timer_close, Unlink (socket_path (config (bk st)))], Some 0)"
    using assms(2,3,13-15) by (simp add: shutdown_def reset_pending_def reboot_failsafe_def stop_watchdog_def Let_def)
  then have "serve bc (e # es) x st = (fst ?it @ fst (shutdown x (st\<lparr>bk := ?b\<rparr>)), snd (shutdown x (st\<lparr>bk := ?b\<rparr>)))"
    using assms(1,2) it by (simp add: serve_def main_loop_Cons main_loop_left)
  with \<open>shutdown x _ = _\<close> rep iteration_never_disarms [of bc e st] show ?thesis
    by (intro exI [of _ "fst ?it"]) simp
qed

theorem root_reboot_arms_failsafe_witness:
  "let r = serve sample_build [sample_iter (Some (sample_conn 1 0 ''REBOOT\<newline>'')) 61] (sample_exit None) (sample_state True)
   in Wd_set_timeout 60 \<in> set (fst r) \<and> snd r = Some 0"
proof -
  let ?e = "sample_iter (Some (sample_conn 1 0 ''REBOOT\<newline>'')) 61" and ?k = "sample_conn 1 0 ''REBOOT\<newline>''"
  have d: "delivers ?k \<lparr>cr_pid = 1, cr_uid = 0\<rparr> (CMD_REBOOT @ ''\<newline>'')" "tokens ''\<newline>'' = []"
    "cr_uid \<lparr>cr_pid = 1, cr_uid = 0\<rparr> = 0" "reply_ok ?k"
    by (simp_all add: delivers_def sample_conn_def CMD_REBOOT_def NUL_def tokens_blank)
  have "in_time ?e (bk (sample_state True))"
    unfolding in_time_def by (auto simp: sample_loop_defs less_Suc_eq numeral_3_eq_3 late_def; code_simp)
  moreover have "running (bk (sample_state True))" "all_ok (sample_state True)" "watchdog_open (sample_state True)"
    "sel ?e = Sel_ready True True" "acc ?e = Acc_conn ?k" "True \<longrightarrow> timer_read_ok ?e \<and> feed_ok ?e" "sig ?e = None"
    "settimeout_ok (sample_exit None)" "last_feed_ok (sample_exit None)" "60 = reboot_timeout_s (config (bk (sample_state True)))"
    by (simp_all add: sample_loop_defs)
  ultimately obtain as where "serve sample_build [?e] (sample_exit None) (sample_state True) =
      (as @ [Wd_set_timeout 60, Wd_feed,
      Out (Log LOG_NOTICE (''Reboot failsafe activated, hardware watchdog will trigger reboot in '' @ show_int 60 @ '' seconds'')),
      Out (Log LOG_INFO ''Exiting wd-broker...''), Wd_close, Closelog, Timer_close,
      Unlink (socket_path (config (bk (sample_state True))))], Some 0)"
    using root_reboot_arms_failsafe [of _ ?e True ?k] d by blast
  then show ?thesis by simp
qed

text \<open>Stopping the watchdog is the work of \<open>stop_watchdog\<close> alone.\<close>

lemma serve_disarms:
  assumes "serve bc es x st = (as, c)" "list_ex disarms as"
  shows "c = Some 0 \<and> (\<exists>st'. snd (main_loop bc es st) = Finished st' \<and> watchdog_open st' \<and> \<not> reboot (bk st'))"
proof -
  have loop: "\<not> list_ex disarms (fst (main_loop bc es st))" using main_loop_safe by blast
  with assms obtain st' where fin: "snd (main_loop bc es st) = Finished st'"
    and sd: "list_ex disarms (fst (shutdown x st'))" "c = snd (shutdown x st')"
    by (auto simp: serve_def split: prod.splits loop_result.splits)
  have pending: "\<not> list_ex disarms (fst (reset_pending x st'))" for x st'
    by (simp add: reset_pending_def signal_handler_def disarms_def Let_def split: option.splits)
  have failsafe: "\<not> list_ex disarms (fst (reboot_failsafe x st'))" for x st'
    by (simp add: reboot_failsafe_def disarms_def Let_def)
  have flags: "reboot (bk st'') = reboot (bk st') \<and> watchdog_open st'' = watchdog_open st'"
    if "snd (reset_pending x st') = Some st''" for st''
    using that by (auto simp: reset_pending_def signal_handler_def Let_def split: if_splits option.splits)
  have stop: "list_ex disarms (stop_watchdog x st'') \<Longrightarrow> watchdog_open st'' \<and> \<not> reboot (bk st'')" for st''
    by (auto simp: stop_watchdog_def disarms_def split: if_splits)
  have "c = Some 0 \<and> watchdog_open st' \<and> \<not> reboot (bk st')"
    using sd pending [of x st'] failsafe [of x] flags stop
    by (auto simp: shutdown_def split_beta disarms_def split: option.splits sum.splits)
  with fin show ?thesis by blast
qed

section \<open>Termination\<close>

lemma iteration_signal:
  assumes "snd (iteration bc e st) = Inr st'" "sig e \<noteq> None"
  shows "\<not> running (bk st')"
  using assms by (auto simp: iteration_state deliver_signal_def signal_handler_def split: sum.splits option.splits)

lemma iteration_survives:
  assumes "timer_read_ok e" "feed_ok e"
  shows "\<exists>st'. snd (iteration bc e st) = Inr st'"
proof -
  have "\<exists>st'. snd (loop_body bc e st) = Inr st'"
    using assms by (auto simp: loop_body_def feed_watchdog_def split: loop_select.splits prod.splits)
  then show ?thesis by (auto simp: iteration_state)
qed

lemma main_loop_ends:
  assumes "list_ex (\<lambda>e. sig e \<noteq> None) es"
  shows "(\<exists>st'. snd (main_loop bc es st) = Finished st') \<or>
    (\<exists>x. snd (main_loop bc es st) = Died x \<and> \<not> list_all (\<lambda>e. timer_read_ok e \<and> feed_ok e) es)"
  using assms
proof (induction es arbitrary: st)
  case Nil
  then show ?case by simp
next
  case (Cons e es)
  show ?case
  proof (cases "running (bk st) \<and> all_ok st")
    case False
    then show ?thesis by (simp add: main_loop_left)
  next
    case True
    note step = main_loop_Cons [OF conjunct1 [OF True] conjunct2 [OF True], of bc e es]
    show ?thesis
    proof (cases "snd (iteration bc e st)")
      case (Inl x)
      with step iteration_survives [of e bc st] show ?thesis by auto
    next
      case (Inr st')
      show ?thesis
      proof (cases "sig e = None")
        case False
        with iteration_signal [OF Inr] have "main_loop bc es st' = ([], Finished st')" by (simp add: main_loop_left)
        with step Inr show ?thesis by simp
      next
        case True
        with Cons.prems Cons.IH [of st'] step Inr show ?thesis by auto
      qed
    qed
  qed
qed

text \<open>
  C21. The broker ends when it is told to: if a signal arrives in some iteration of the main loop (and
  another one ends the wait for the reset, should the loop have been left because of a failure), the
  process exits; its status is 0 unless reading the timer or feeding the watchdog fails, which
  ends it with EXIT_FAILURE.
\<close>

theorem signal_ends_process:
  assumes "list_ex (\<lambda>e. sig e \<noteq> None) es" "pending_signal x \<noteq> None"
  shows "snd (serve bc es x st) = Some 0 \<or>
    snd (serve bc es x st) = Some EXIT_FAILURE \<and> \<not> (list_all (\<lambda>e. timer_read_ok e \<and> feed_ok e) es \<and> last_feed_ok x)"
  using main_loop_ends [OF assms(1), of bc st]
proof (elim disjE exE conjE)
  fix st'
  assume "snd (main_loop bc es st) = Finished st'"
  then have "snd (serve bc es x st) = snd (shutdown x st')" by (auto simp: serve_def split: prod.splits)
  with assms(2) show ?thesis
    by (auto simp: shutdown_def reset_pending_def reboot_failsafe_def fatal_error_def Let_def split: prod.splits if_splits)
next
  fix r
  assume "snd (main_loop bc es st) = Died r" and fail: "\<not> list_all (\<lambda>e. timer_read_ok e \<and> feed_ok e) es"
  moreover from this have "exit_code r = EXIT_FAILURE" using main_loop_safe by blast
  ultimately show ?thesis by (auto simp: serve_def split: prod.splits)
qed

theorem signal_ends_process_witness:
  "snd (serve sample_build [sample_iter None 61, (sample_iter None 62)\<lparr>sig := Some 15\<rparr>] (sample_exit (Some 15)) (sample_state True)) = Some 0"
proof -
  let ?es = "[sample_iter None 61, (sample_iter None 62)\<lparr>sig := Some 15\<rparr>]"
  have "list_ex (\<lambda>e. sig e \<noteq> None) ?es" "pending_signal (sample_exit (Some 15)) \<noteq> None"
    "list_all (\<lambda>e. timer_read_ok e \<and> feed_ok e) ?es" "last_feed_ok (sample_exit (Some 15))"
    by (simp_all add: sample_loop_defs)
  with signal_ends_process [of ?es "sample_exit (Some 15)" sample_build "sample_state True"] show ?thesis by blast
qed

section \<open>A departure from the manual\<close>

text \<open>
  C39. After a missed deadline a signal still stops the hardware watchdog: the wait for the reset
  ends, and the regular exit writes the stop byte, so the pending reset does not happen. The manual
  promises to stop the watchdog only if no client timed out.
\<close>

theorem signal_after_missed_deadline_stops_watchdog:
  assumes "\<not> all_ok st" "running (bk st)" "\<not> reboot (bk st)" "watchdog_open st"
    and "pending_signal x = Some s" "magic_ok x"
  shows "Wd_magic_close \<in> set (fst (serve bc es x st)) \<and> snd (serve bc es x st) = Some 0"
  using assms by (simp add: serve_def main_loop_left shutdown_def reset_pending_def reboot_failsafe_def
      stop_watchdog_def signal_handler_def)

theorem signal_after_missed_deadline_stops_watchdog_witness:
  "Wd_magic_close \<in> set (fst (serve sample_build [] (sample_exit (Some 15)) (sample_state False)))"
  using signal_after_missed_deadline_stops_watchdog [of "sample_state False" "sample_exit (Some 15)" 15 sample_build "[]"]
  by (simp add: sample_loop_defs)

end
