(* ===== verification/Config_Properties.thy ===== *)
theory Config_Properties
  imports Config_Parser Status_Report
begin

text \<open>
  Properties of the configuration parser: what an accepted file guarantees to the rest of the
  broker, that a printed configuration is read back as it is, and how the parser treats input the
  manual does not describe.
\<close>

section \<open>Lines\<close>

lemma trim_line:
  assumes "s \<noteq> []" "\<not> isspace (hd s)" "\<not> isspace (last s)" "list_all isspace r"
  shows "trim (s @ r) = s"
proof -
  have "dropWhile isspace (s @ r) = s @ r" using assms(1,2) by (cases s) simp_all
  moreover have "dropWhile isspace (rev (s @ r)) = rev s"
    unfolding rev_append using assms by (intro dropWhile_app_stop) (simp_all add: hd_rev)
  ultimately show ?thesis using assms(1) by (simp add: trim_def Let_def)
qed

lemma trim_word: "s \<noteq> [] \<Longrightarrow> \<not> isspace (hd s) \<Longrightarrow> \<not> isspace (last s) \<Longrightarrow> trim s = s"
  using trim_line [of s "[]"] by simp

lemma trim_Cons: "\<not> isspace c \<Longrightarrow> \<exists>r. trim (c # s) = c # r"
  by (simp add: trim_def Let_def dropWhile_append) (metis rev_rev_ident)

lemma config_lines_concat:
  "list_all (\<lambda>l. \<exists>s. l = s @ [newline] \<and> newline \<notin> set s \<and> length s < 255) ls \<Longrightarrow>
   config_lines (concat ls) = ls"
proof (induction ls)
  case Nil
  show ?case by (simp add: config_lines.simps)
next
  case (Cons l ls)
  then obtain s where s: "l = s @ [newline]" "newline \<notin> set s" "length s < 255" by auto
  then have "takeWhile (\<lambda>c. c \<noteq> newline) (l @ concat ls) = s" by (simp add: takeWhile_upto)
  with s have "fgets 256 (l @ concat ls) = (l, concat ls)" by (simp add: fgets_def)
  with s Cons show ?case by (subst config_lines.simps) simp
qed

lemma key_value_line:
  assumes "k \<noteq> []" "CHR ''='' \<notin> set k" "length k \<le> 63" "v \<noteq> []" "newline \<notin> set v" "length v \<le> 127"
  shows "key_value (k @ CHR ''='' # v) = Some (k, v)"
proof -
  have "takeWhile (\<lambda>x. x \<noteq> CHR ''='') (k @ CHR ''='' # v) = k"
    using assms(2) by (rule takeWhile_upto)
  then show ?thesis using assms takeWhile_without [OF assms(5)]
    by (simp add: key_value_def sscanf_def KEY_VALUE_FORMAT_def Let_def del: takeWhile_eq_all_conv)
qed

lemma key_value_None:
  assumes "CHR ''='' \<notin> set s"
  shows "key_value s = None"
proof -
  let ?t = "take 63 s"
  have tw: "takeWhile (\<lambda>x. x \<noteq> CHR ''='') s = s" using assms by (rule takeWhile_without)
  have "fst (scan [Lit (CHR ''=''), NotIn 127 newline] (drop (length ?t) s)) = []"
  proof (cases "drop (length ?t) s")
    case (Cons x r)
    then have "x \<in> set s" by (metis in_set_dropD list.set_intros(1))
    with assms Cons show ?thesis by auto
  qed simp
  then have "fst (scan KEY_VALUE_FORMAT s) = (if s = [] then [] else [SStr ?t])"
    by (simp add: KEY_VALUE_FORMAT_def tw Let_def del: scan.simps(3))
  then show ?thesis
    by (simp add: key_value_def sscanf_def split_beta Let_def)
qed

lemma section_name_line:
  assumes "nm \<noteq> []" "\<not> isspace (hd nm)" "CHR '']'' \<notin> set nm" "length nm \<le> 63"
  shows "section_name (''[client '' @ nm @ '']'') = Some nm"
proof -
  have "dropWhile isspace (CHR '' '' # nm @ '']'') = nm @ '']''"
    using assms(1,2) by (cases nm) simp_all
  moreover have "takeWhile (\<lambda>x. x \<noteq> CHR '']'') (nm @ '']'') = nm"
    using assms(3) by (rule takeWhile_upto)
  ultimately show ?thesis using assms
    by (simp add: section_name_def sscanf_def SECTION_FORMAT_def Let_def isspace_def del: dropWhile.simps)
qed

lemma atoi_show_int: "- (2 ^ 31) \<le> i \<Longrightarrow> i < 2 ^ 31 \<Longrightarrow> atoi (show_int i) = i"
  using atoi_word [of "[]"] by simp

lemma atoi_show_u32:
  assumes "timeout_ok t"
  shows "to_uint32 (atoi (show_u32 t)) = t"
proof -
  have "show_u32 t = show_int (uint t)" by (simp add: show_u32_def show_int_def)
  moreover have "uint t \<le> 300000"
    using assms by (simp add: timeout_ok_def WD_CLIENT_TIMEOUT_MAX_MS_def word_le_def)
  moreover have "- (2 ^ 31) \<le> uint t" by (rule order.trans [OF _ unsigned_greater_eq]) simp
  ultimately show ?thesis using atoi_show_int [of "uint t"] by (simp add: to_uint32_def)
qed

section \<open>Printing a configuration\<close>

text \<open>The file a user would write for a configuration and a list of announced clients.\<close>

definition key_line :: "string \<Rightarrow> string \<Rightarrow> string" where
  "key_line k v = (k @ CHR ''='' # v) @ [newline]"

definition section_line :: "string \<Rightarrow> string" where
  "section_line nm = (''[client '' @ nm @ '']'') @ [newline]"

definition section_lines :: "string \<times> u32 \<Rightarrow> string list" where
  "section_lines a = [section_line (fst a), key_line ''timeout_ms'' (show_u32 (snd a))]"

definition show_bool :: "bool \<Rightarrow> string" where
  "show_bool b = (if b then ''true'' else ''false'')"

definition config_text :: "wd_config_t \<Rightarrow> (string \<times> u32) list \<Rightarrow> string list" where
  "config_text c anns =
     [key_line ''socket_path'' (socket_path c), key_line ''wd_timeout_s'' (show_int (wd_timeout_s c)),
      key_line ''reboot_timeout_s'' (show_int (reboot_timeout_s c)),
      key_line ''strict_clients'' (show_bool (strict_clients c)),
      key_line ''unique_clients'' (show_bool (unique_clients c))] @ concat (map section_lines anns)"

text \<open>The slots such a file announces, from index \<open>i\<close> on.\<close>

primrec announced_slots :: "section_env \<Rightarrow> nat \<Rightarrow> (string \<times> u32) list \<Rightarrow> client_t list" where
  "announced_slots env i [] = []"
| "announced_slots env i (a # as) =
     (announce env i (fst a) zero_client)\<lparr>timeout_ms := snd a\<rparr> # announced_slots env (Suc i) as"

definition value_ok :: "nat \<Rightarrow> string \<Rightarrow> bool" where
  "value_ok n v \<longleftrightarrow> v \<noteq> [] \<and> length v \<le> n \<and> \<not> isspace (hd v) \<and> \<not> isspace (last v) \<and>
     newline \<notin> set v \<and> NUL \<notin> set v"

definition name_ok :: "string \<Rightarrow> bool" where
  "name_ok nm \<longleftrightarrow> value_ok 63 nm \<and> CHR '']'' \<notin> set nm \<and> CHR ''='' \<notin> set nm"

lemma parse_key_line [config_simps]:
  assumes "value_ok 127 v" "value_ok 63 k" "CHR ''='' \<notin> set k" "hd k \<noteq> CHR ''#''"
  shows "parse_line env fn (key_line k v) st = set_key k v (st\<lparr>line_num := Suc (line_num st)\<rparr>)"
proof -
  let ?s = "k @ CHR ''='' # v"
  have "NUL \<notin> set (key_line k v)"
    using assms(1,2) by (auto simp: key_line_def value_ok_def NUL_def newline_def)
  then have c: "cstr (key_line k v) = ?s @ [newline]"
    by (simp add: cstr_without_NUL key_line_def)
  have t: "trim (?s @ [newline]) = ?s"
    by (rule trim_line) (use assms(1,2) in \<open>auto simp: value_ok_def newline_def\<close>)
  have kv: "key_value ?s = Some (k, v)"
    using assms by (intro key_value_line) (auto simp: value_ok_def)
  have tr: "trim k = k" "trim v = v" using assms(1,2) by (auto simp: value_ok_def intro!: trim_word)
  from assms(2,4) have "\<not> (?s = [] \<or> hd ?s = CHR ''#'')" by (simp add: value_ok_def)
  then show ?thesis
    unfolding parse_line_def Let_def c t kv by (simp add: tr)
qed

lemma parse_section_line:
  assumes "name_ok nm" "next_client st < length (slots st)"
  shows "parse_line env fn (section_line nm) st =
    Inr (st\<lparr>line_num := Suc (line_num st), slots := upd_at (next_client st) (announce env (next_client st) nm) (slots st),
      next_client := Suc (next_client st)\<rparr>)"
proof -
  let ?s = "''[client '' @ nm @ '']''"
  have "NUL \<notin> set (?s @ [newline])"
    using assms(1) by (auto simp: name_ok_def value_ok_def NUL_def newline_def)
  then have c: "cstr (?s @ [newline]) = ?s @ [newline]" by (rule cstr_without_NUL)
  have t: "trim (?s @ [newline]) = ?s"
    by (rule trim_line) (auto simp: newline_def isspace_def)
  have kv: "key_value ?s = None" using assms(1) by (intro key_value_None) (auto simp: name_ok_def)
  have sn: "section_name ?s = Some nm"
    using assms(1) by (intro section_name_line) (auto simp: name_ok_def value_ok_def)
  have "\<not> (?s = [] \<or> hd ?s = CHR ''#'')" by simp
  then show ?thesis
    unfolding section_line_def parse_line_def Let_def c t kv sn using assms(2) by (simp add: open_section_def Let_def)
qed

lemma value_ok_show [simp]:
  "timeout_ok t \<Longrightarrow> value_ok 127 (show_u32 t)"
  "- (2 ^ 31) \<le> i \<Longrightarrow> i < 2 ^ 31 \<Longrightarrow> value_ok 127 (show_int i)"
  "value_ok 127 (show_bool b)"
proof -
  have word: "value_ok n v" if "word_ok v" "length v \<le> n" "list_all isprint v" for n v
    using that by (auto simp: value_ok_def word_ok_def list_all_iff newline_def NUL_def isprint_def)
  show "value_ok 127 (show_bool b)" by (simp add: show_bool_def value_ok_def isspace_def newline_def NUL_def)
  have dg: "list_all isprint (show_nat n)" for n
    by (auto simp: list_all_iff isprint_def isdigit_def dest: show_nat_digits)
  then have "list_all isprint (show_int i)" for i by (simp add: show_int_def isprint_def)
  then show "- (2 ^ 31) \<le> i \<Longrightarrow> i < 2 ^ 31 \<Longrightarrow> value_ok 127 (show_int i)"
    using length_show_int [of i] by (intro word) simp_all
  show "timeout_ok t \<Longrightarrow> value_ok 127 (show_u32 t)"
    using length_show_timeout(1) [of t] dg by (intro word) (simp_all add: show_u32_def)
qed

lemma parse_section_lines:
  assumes "slots st = pre @ replicate k zero_client" "next_client st = length pre" "length anns \<le> k"
    and "list_all (\<lambda>a. name_ok (fst a) \<and> timeout_ok (snd a)) anns"
  shows "parse_lines env fn (concat (map section_lines anns)) st =
    Inr (st\<lparr>slots := pre @ announced_slots env (length pre) anns @ replicate (k - length anns) zero_client,
      next_client := length pre + length anns, line_num := line_num st + 2 * length anns\<rparr>)"
  using assms
proof (induction anns arbitrary: st pre k)
  case Nil
  then show ?case by (cases st) simp
next
  case (Cons a as)
  let ?c = "announce env (length pre) (fst a) zero_client"
  let ?st1 = "st\<lparr>line_num := Suc (line_num st), slots := pre @ ?c # replicate (k - 1) zero_client,
    next_client := Suc (length pre)\<rparr>"
  let ?st2 = "st\<lparr>line_num := Suc (Suc (line_num st)),
    slots := (pre @ [?c\<lparr>timeout_ms := snd a\<rparr>]) @ replicate (k - 1) zero_client, next_client := Suc (length pre)\<rparr>"
  from Cons.prems(3) obtain k' where k: "k = Suc k'" by (cases k) simp_all
  have nm: "name_ok (fst a)" "timeout_ok (snd a)" using Cons.prems(4) by simp_all
  have s1: "parse_line env fn (section_line (fst a)) st = Inr ?st1"
    using parse_section_line [OF nm(1), of st env fn] Cons.prems(1,2) by (simp add: k upd_at_append)
  have "value_ok 63 ''timeout_ms''" by code_simp
  then have "parse_line env fn (key_line ''timeout_ms'' (show_u32 (snd a))) ?st1 =
      set_key ''timeout_ms'' (show_u32 (snd a)) (?st1\<lparr>line_num := Suc (line_num ?st1)\<rparr>)"
    using nm by (intro parse_key_line) simp_all
  also have "\<dots> = Inr ?st2"
    using nm atoi_show_u32 [OF nm(2)]
    by (simp add: set_key_def set_client_timeout_def upd_at_append Let_def timeout_ok_iff)
  finally have s2: "parse_line env fn (key_line ''timeout_ms'' (show_u32 (snd a))) ?st1 = Inr ?st2" .
  have "parse_lines env fn (concat (map section_lines (a # as))) st =
      parse_lines env fn (concat (map section_lines as)) ?st2"
    by (simp only: list.map concat.simps section_lines_def append.simps parse_lines.simps s1 s2 sum.case)
  also have "\<dots> = Inr (?st2\<lparr>slots := (pre @ [?c\<lparr>timeout_ms := snd a\<rparr>]) @
      announced_slots env (length (pre @ [?c\<lparr>timeout_ms := snd a\<rparr>])) as @ replicate (k' - length as) zero_client,
      next_client := length (pre @ [?c\<lparr>timeout_ms := snd a\<rparr>]) + length as, line_num := line_num ?st2 + 2 * length as\<rparr>)"
    by (rule Cons.IH) (use Cons.prems k in simp_all)
  finally show ?case using k by simp
qed

section \<open>Reading the printed file\<close>

lemma keys_ok [config_simps]:
  "value_ok 63 ''socket_path''" "value_ok 63 ''wd_timeout_s''" "value_ok 63 ''reboot_timeout_s''"
  "value_ok 63 ''strict_clients''" "value_ok 63 ''unique_clients''"
  by code_simp+

lemma parse_bool_show [simp]: "parse_bool (show_bool b) = Some b"
  by (simp add: parse_bool_def show_bool_def)

lemma value_ok_mono: "value_ok m v \<Longrightarrow> m \<le> n \<Longrightarrow> value_ok n v"
  by (simp add: value_ok_def)

text \<open>The five keys of the general part set the five fields.\<close>

lemma parse_general_part:
  assumes "config_ok c" "value_ok 107 (socket_path c)"
  shows "parse_lines env fn (config_text c []) st = Inr (st\<lparr>cfg := c, line_num := line_num st + 5\<rparr>)"
proof -
  have b: "- (2 ^ 31) \<le> wd_timeout_s c" "wd_timeout_s c < 2 ^ 31" "- (2 ^ 31) \<le> reboot_timeout_s c" "reboot_timeout_s c < 2 ^ 31"
    using assms(1) by (simp_all add: config_ok_def)
  have p: "value_ok 127 (socket_path c)" using value_ok_mono [OF assms(2)] by simp
  have "length (socket_path c) \<le> 107" using assms(2) by (simp add: value_ok_def)
  with assms(1) show ?thesis
    by (simp add: config_text_def config_simps p value_ok_show(2) [OF b(1,2)] value_ok_show(2) [OF b(3,4)]
        set_key_def set_wd_timeout_def set_reboot_timeout_def Let_def atoi_show_int [OF b(1,2)] atoi_show_int [OF b(3,4)]
        config_bounds strncpy_def WD_CLIENT_SOCKPATH_LEN_def)
qed

lemma parse_lines_append:
  "parse_lines env fn (xs @ ys) st =
     (case parse_lines env fn xs st of Inl e \<Rightarrow> Inl e | Inr st' \<Rightarrow> parse_lines env fn ys st')"
  by (induction xs arbitrary: st) (simp_all split: sum.splits)

lemma newline_show [simp]: "newline \<notin> set (show_nat n)" "newline \<notin> set (show_int i)" "newline \<notin> set (show_bool b)"
proof -
  show n: "newline \<notin> set (show_nat n)" for n by (auto simp: newline_def isdigit_def dest: show_nat_digits)
  show "newline \<notin> set (show_int i)" by (simp add: show_int_def n) (simp add: newline_def)
  show "newline \<notin> set (show_bool b)" by (simp add: show_bool_def newline_def)
qed

lemma key_line_fits:
  assumes "value_ok 127 v" "value_ok 63 k"
  shows "\<exists>s. key_line k v = s @ [newline] \<and> newline \<notin> set s \<and> length s < 255"
  using assms unfolding key_line_def value_ok_def
  by (intro exI [of _ "k @ CHR ''='' # v"]) (auto simp: newline_def)

lemma section_line_fits:
  "name_ok nm \<Longrightarrow> \<exists>s. section_line nm = s @ [newline] \<and> newline \<notin> set s \<and> length s < 255"
  unfolding section_line_def name_ok_def value_ok_def
  by (intro exI [of _ "''[client '' @ nm @ '']''"]) (auto simp: newline_def)

lemma config_text_lines:
  assumes "config_ok c" "value_ok 107 (socket_path c)"
    and "list_all (\<lambda>a. name_ok (fst a) \<and> timeout_ok (snd a)) anns"
  shows "config_lines (concat (config_text c anns)) = config_text c anns"
proof (rule config_lines_concat)
  have b: "- (2 ^ 31) \<le> wd_timeout_s c" "wd_timeout_s c < 2 ^ 31" "- (2 ^ 31) \<le> reboot_timeout_s c" "reboot_timeout_s c < 2 ^ 31"
    using assms(1) by (simp_all add: config_ok_def)
  have "value_ok 63 ''timeout_ms''" by code_simp
  then show "list_all (\<lambda>l. \<exists>s. l = s @ [newline] \<and> newline \<notin> set s \<and> length s < 255) (config_text c anns)"
    using assms(3) unfolding config_text_def list_all_append
    by (auto simp: key_line_fits config_simps value_ok_mono [OF assms(2)] value_ok_show(2) [OF b(1,2)] value_ok_show(2) [OF b(3,4)]
        list_all_iff section_lines_def section_line_fits)
qed

lemma map_name_announced_slots:
  "list_all (\<lambda>a. name_ok (fst a) \<and> timeout_ok (snd a)) anns \<Longrightarrow>
   map name (filter anounced (announced_slots env i anns)) = map fst anns"
  by (induction anns arbitrary: i)
    (simp_all add: announce_def strncpy_def WD_CLIENT_NAME_LEN_def name_ok_def value_ok_def)

lemma parse_printed:
  assumes "config_ok c" "value_ok 107 (socket_path c)"
    and "list_all (\<lambda>a. name_ok (fst a) \<and> timeout_ok (snd a)) anns" "length anns \<le> WD_MAX_CLIENTS bc"
    and "strict_clients c \<longrightarrow> anns \<noteq> []" "unique_clients c \<longrightarrow> distinct (map fst anns)"
  shows "parse_config bc env fn (Some (concat (config_text c anns))) =
    Inr (c, announced_slots env 0 anns @ replicate (WD_MAX_CLIENTS bc - length anns) zero_client)"
proof -
  let ?st = "(initial_parse bc)\<lparr>cfg := c, line_num := 5\<rparr>" and ?k = "WD_MAX_CLIENTS bc"
  let ?slots = "announced_slots env 0 anns @ replicate (?k - length anns) zero_client"
  have "parse_lines env fn (config_text c anns) (initial_parse bc) =
      parse_lines env fn (concat (map section_lines anns)) ?st"
    using parse_general_part [OF assms(1,2), of env fn "initial_parse bc"]
      parse_lines_append [of env fn "config_text c []" "concat (map section_lines anns)"]
    by (simp add: config_text_def initial_parse_def)
  also have "\<dots> = Inr (?st\<lparr>slots := ?slots, next_client := length anns, line_num := 5 + 2 * length anns\<rparr>)"
    using parse_section_lines [of ?st "[]" ?k anns env fn] assms(3,4) by (simp add: initial_parse_def)
  finally have "parse_lines env fn (config_text c anns) (initial_parse bc) =
      Inr (?st\<lparr>slots := ?slots, next_client := length anns, line_num := 5 + 2 * length anns\<rparr>)" .
  moreover have "filter anounced (replicate n zero_client) = []" for n by (simp add: zero_client_def)
  then have "(if unique_clients c then duplicate_name ?slots else None) = None"
    using map_name_announced_slots [OF assms(3), of env 0] assms(6) by (simp add: duplicate_name_None)
  ultimately show ?thesis
    using assms(5) config_text_lines [OF assms(1-3)]
    by (cases "unique_clients c") (simp_all add: parse_config_def check_config_def)
qed

section \<open>Properties\<close>

definition sample_sections :: section_env where
  "sample_sections = \<lparr>section_rnd = (\<lambda>i. sample_entropy), section_now = (\<lambda>i. \<lparr>tv_sec = 60, tv_nsec = 0\<rparr>)\<rparr>"

text \<open>
  C16. An accepted configuration starts the broker in a well-formed state: the hardware timeout is
  between 10 s and 60 s and the reboot timeout between 10 s and 300 s, the socket path fits
  sun_path with its terminator, the announced clients are the first slots of the table and every
  other slot is empty, announced names are distinct under unique_clients, and under strict_clients
  there is at least one.
\<close>

theorem accepted_config_is_sound:
  assumes "parse_config bc env fn file = Inr (c, cs)"
    and "length (SOCKET_PATH_DEFAULT bc) < WD_CLIENT_SOCKPATH_LEN"
  shows "config_ok c \<and> length (socket_path c) < WD_CLIENT_SOCKPATH_LEN \<and> broker_ok bc (start_broker c cs) \<and>
         (\<exists>n. announced_prefix n cs \<and> (strict_clients c \<longrightarrow> 0 < n))"
  using parse_config_ok [OF assms] by blast

theorem accepted_config_is_sound_witness:
  "broker_ok sample_build (start_broker (sample_config True False)
     [(announce sample_sections 0 ''alpha'' zero_client)\<lparr>timeout_ms := 5000\<rparr>, zero_client, zero_client])"
proof -
  have "parse_config sample_build sample_sections ''f''
      (Some ''strict_clients = true\<newline># a comment\<newline>[client alpha]\<newline>  timeout_ms = 5000\<newline>'') =
      Inr (sample_config True False,
        [(announce sample_sections 0 ''alpha'' zero_client)\<lparr>timeout_ms := 5000\<rparr>, zero_client, zero_client])"
    by code_simp
  from accepted_config_is_sound [OF this] show ?thesis
    by (simp add: sample_build_def WD_CLIENT_SOCKPATH_LEN_def)
qed

text \<open>
  C15. Round trip: the file printed for any configuration in range and any list of announced clients
  (names without \<open>]\<close>, \<open>=\<close> and surrounding blanks, at most 63 characters; timeouts in range) is
  accepted and yields exactly that configuration and those clients in order, in a table whose
  remaining slots are empty.
\<close>

theorem printed_config_is_read_back:
  assumes "config_ok c" "value_ok 107 (socket_path c)"
    and "list_all (\<lambda>a. name_ok (fst a) \<and> timeout_ok (snd a)) anns" "length anns \<le> WD_MAX_CLIENTS bc"
    and "strict_clients c \<longrightarrow> anns \<noteq> []" "unique_clients c \<longrightarrow> distinct (map fst anns)"
  shows "parse_config bc env fn (Some (concat (config_text c anns))) =
    Inr (c, announced_slots env 0 anns @ replicate (WD_MAX_CLIENTS bc - length anns) zero_client)"
  using assms by (rule parse_printed)

theorem printed_config_is_read_back_witness:
  "parse_config sample_build sample_sections ''f''
     (Some (concat (config_text (sample_config True True) [(''alpha'', 5000), (''my app'', 300000)]))) =
   Inr (sample_config True True,
     announced_slots sample_sections 0 [(''alpha'', 5000), (''my app'', 300000)] @ replicate 1 zero_client)"
proof -
  have "config_ok (sample_config True True)" "value_ok 107 (socket_path (sample_config True True))"
    "list_all (\<lambda>a. name_ok (fst a) \<and> timeout_ok (snd a)) [(''alpha'', 5000), (''my app'', 300000)]"
    by code_simp+
  from printed_config_is_read_back [OF this, of sample_build] show ?thesis by (simp add: sample_build_def)
qed

text \<open>
  A line of more than 255 characters is not one line to the parser: after a comment whose first
  255 characters contain no line end, the text that follows is read as configuration of its own,
  so the end of a long comment can change the configuration.
\<close>

lemma long_comment_tail_is_parsed:
  assumes "length cmt = 254" "newline \<notin> set cmt" "rest \<noteq> []"
  shows "parse_config bc env fn (Some (CHR ''#'' # cmt @ rest)) =
    (case parse_lines env fn (config_lines rest) ((initial_parse bc)\<lparr>line_num := 1\<rparr>) of
       Inl e \<Rightarrow> Inl e | Inr st \<Rightarrow> check_config fn st)"
proof -
  let ?f = "CHR ''#'' # cmt @ rest"
  have all: "list_all (\<lambda>c. c \<noteq> newline) (CHR ''#'' # cmt)" using assms(2) by (auto simp: list_all_iff newline_def)
  have "takeWhile (\<lambda>c. c \<noteq> newline) ?f = (CHR ''#'' # cmt) @ takeWhile (\<lambda>c. c \<noteq> newline) rest"
    using all takeWhile_append2 [of "CHR ''#'' # cmt" "\<lambda>c. c \<noteq> newline" rest] by (simp add: list_all_iff)
  then have "fgets 256 ?f = (CHR ''#'' # cmt, rest)" using assms(1) by (simp add: fgets_def del: takeWhile.simps)
  then have lines: "config_lines ?f = (CHR ''#'' # cmt) # config_lines rest"
    by (subst config_lines.simps) simp
  have "cstr (CHR ''#'' # cmt) = CHR ''#'' # cstr cmt" by (simp add: cstr_def NUL_def)
  then obtain r where "trim (cstr (CHR ''#'' # cmt)) = CHR ''#'' # r"
    using trim_Cons [of "CHR ''#''"] by (auto simp: isspace_def)
  then have "parse_line env fn (CHR ''#'' # cmt) (initial_parse bc) = Inr ((initial_parse bc)\<lparr>line_num := 1\<rparr>)"
    by (simp add: parse_line_def Let_def initial_parse_def)
  with lines show ?thesis by (simp add: parse_config_def)
qed

lemma long_comment_changes_reboot_timeout:
  "parse_config sample_build sample_sections ''f''
     (Some (CHR ''#'' # replicate 254 (CHR ''x'') @ ''reboot_timeout_s=10\<newline>'')) =
   Inr ((sample_config False False)\<lparr>reboot_timeout_s := 10\<rparr>, replicate 3 zero_client)"
proof -
  have "(case parse_lines sample_sections ''f'' (config_lines ''reboot_timeout_s=10\<newline>'')
        ((initial_parse sample_build)\<lparr>line_num := 1\<rparr>) of Inl e \<Rightarrow> Inl e | Inr st \<Rightarrow> check_config ''f'' st) =
      Inr ((sample_config False False)\<lparr>reboot_timeout_s := 10\<rparr>, replicate 3 zero_client)"
    by code_simp
  then show ?thesis
    using long_comment_tail_is_parsed [of "replicate 254 (CHR ''x'')" "''reboot_timeout_s=10\<newline>''"]
    by (simp add: newline_def)
qed

text \<open>
  A section whose name contains an equals sign is read as a setting: the key is what stands before the
  sign, and no key starts with a bracket. (Behind 55 characters the sign is out of the reach of the
  63 characters of a key, and the name is accepted.)
\<close>

lemma equals_in_name_is_refused:
  assumes "value_ok 55 a" "CHR ''='' \<notin> set a" "value_ok 62 v"
  shows "parse_line env fn (section_line (a @ CHR ''='' # v)) st =
    Inl (fatal_error (''Unknown config key '' @ quoted (''[client '' @ a) @ '' in line '' @ show_nat (Suc (line_num st))))"
proof -
  let ?k = "''[client '' @ a" and ?v = "v @ '']''"
  have "section_line (a @ CHR ''='' # v) = key_line ?k ?v" by (simp add: section_line_def key_line_def)
  moreover have "value_ok 63 ?k" "value_ok 127 ?v"
    using assms(1,3) by (auto simp: value_ok_def newline_def NUL_def isspace_def)
  with assms(2) have "parse_line env fn (key_line ?k ?v) st = set_key ?k ?v (st\<lparr>line_num := Suc (line_num st)\<rparr>)"
    by (intro parse_key_line) simp_all
  ultimately show ?thesis by (simp add: set_key_def)
qed

text \<open>There is no key service_user: the service user is an option of the command line only.\<close>

lemma service_user_is_no_key:
  assumes "value_ok 127 v"
  shows "parse_line env fn (key_line ''service_user'' v) st =
    Inl (fatal_error (''Unknown config key '' @ quoted ''service_user'' @ '' in line '' @ show_nat (Suc (line_num st))))"
proof -
  have "value_ok 63 ''service_user''" by code_simp
  with assms have "parse_line env fn (key_line ''service_user'' v) st = set_key ''service_user'' v (st\<lparr>line_num := Suc (line_num st)\<rparr>)"
    by (intro parse_key_line) simp_all
  then show ?thesis by (simp add: set_key_def)
qed

text \<open>
  The section header is not parsed strictly: neither the closing bracket nor the blank after the word
  client is required.
\<close>

lemma section_brackets_optional:
  "parse_line env fn ''[client foo'' st = parse_line env fn ''[client foo]'' st"
  "parse_line env fn ''[clientfoo]'' st = parse_line env fn ''[client foo]'' st"
proof -
  have "trim (cstr l) = l \<and> key_value l = None \<and> section_name l = Some ''foo''"
    if "l \<in> {''[client foo'', ''[clientfoo]'', ''[client foo]''}" for l
    using that by (elim insertE emptyE; hypsubst_thin; code_simp)
  then show "parse_line env fn ''[client foo'' st = parse_line env fn ''[client foo]'' st"
    "parse_line env fn ''[clientfoo]'' st = parse_line env fn ''[client foo]'' st"
    by (simp_all add: parse_line_def open_section_def Let_def)
qed

end
