(* ===== verification/Startup_Properties.thy ===== *)
theory Startup_Properties
  imports Startup Loop_Properties Config_Properties
begin

text \<open>
  What a start of the broker guarantees: under which conditions it reaches the main loop and in which
  state, the order in which it touches the outside, and that a refused start leaves no trace.
\<close>

section \<open>Sequencing\<close>

lemma and_then_Inr:
  "and_then p f = (as, Inr v) \<longleftrightarrow> (\<exists>a u b. p = (a, Inr u) \<and> f u = (b, Inr v) \<and> as = a @ b)"
  by (auto simp: and_then_def split: prod.splits sum.splits)

lemma and_then_fst:
  "fst (and_then p f) = fst p @ (case snd p of Inl x \<Rightarrow> [] | Inr u \<Rightarrow> fst (f u))"
  by (auto simp: and_then_def split: prod.splits sum.splits)

lemma and_then_snd:
  "snd (and_then p f) = (case snd p of Inl x \<Rightarrow> Inl x | Inr u \<Rightarrow> snd (f u))"
  by (auto simp: and_then_def split: prod.splits sum.splits)

lemma require_Inr: "require c x = (as, Inr u) \<longleftrightarrow> c \<and> as = []"
  by (auto simp: require_def)

lemma attempt_Inr: "attempt a ok x = (as, Inr u) \<longleftrightarrow> ok \<and> as = [a]"
  by (auto simp: attempt_def)

lemmas proc_simps = and_then_fst and_then_snd require_def attempt_def

text \<open>What each step performs when it succeeds.\<close>

lemma check_service_user_Inr:
  "check_service_user env opts = (as, Inr pw) \<longleftrightarrow>
     as = [] \<and> service_user opts \<noteq> [] \<and> length (service_user opts) \<le> LOGIN_NAME_MAX \<and>
     getpwnam env (service_user opts) = Some pw \<and> pw_uid pw \<noteq> 0"
  by (auto simp: check_service_user_def Let_def split: option.splits)

unbundle bit_operations_syntax

lemma check_config_file_Inr:
  "check_config_file env opts pw = (as, Inr u) \<longleftrightarrow>
     as = [] \<and> (\<exists>st. lstat env (config_file opts) = Some st \<and> st_type st = Regular \<and>
       st_uid st = pw_uid pw \<and> st_perm st AND 0x12 = 0)"
  by (auto simp: check_config_file_def Let_def and_then_Inr require_Inr split: option.splits)


definition socket_actions :: "start_env \<Rightarrow> passwd \<Rightarrow> string \<Rightarrow> action list" where
  "socket_actions env pw p =
     (if lstat env p = None then [] else [Unlink p, Print (''Removed stale socket at '' @ quoted p @ ''\<newline>'')]) @ [Bind p, Listen, Chmod p SOCKET_MODE] @
     (if started_as_root env then [Chown p (pw_uid pw) (pw_gid pw)] else [])"

lemma sockets_Inr:
  assumes "remove_stale_socket env c = (a, Inr u)" "create_socket env pw c = (b, Inr v)"
  shows "a @ b = socket_actions env pw (socket_path c)"
  using assms
  by (auto simp: remove_stale_socket_def create_socket_def socket_actions_def Let_def and_then_Inr
      require_Inr attempt_Inr split: option.splits if_splits)

definition watchdog_actions :: "options \<Rightarrow> wd_config_t \<Rightarrow> action list" where
  "watchdog_actions opts c =
     (if watchdog_enabled opts
      then [Wd_open, Out (Log LOG_INFO ''Opened hardware watchdog device /dev/watchdog''),
            Wd_set_timeout (wd_timeout_s c)]
      else [])"

lemma open_watchdog_Inr:
  "open_watchdog env opts c = (as, Inr u) \<Longrightarrow>
   as = watchdog_actions opts c \<and> (watchdog_enabled opts \<longrightarrow> started_as_root env)"
  by (auto simp: open_watchdog_def watchdog_actions_def and_then_Inr require_Inr attempt_Inr split: if_splits)

definition privilege_actions :: "start_env \<Rightarrow> passwd \<Rightarrow> action list" where
  "privilege_actions env pw = (if started_as_root env then [Setgroups, Setgid (pw_gid pw), Setuid (pw_uid pw)] else [])"

lemma drop_privileges_Inr: "drop_privileges env pw = (as, Inr u) \<Longrightarrow> as = privilege_actions env pw"
  by (auto simp: drop_privileges_def privilege_actions_def and_then_Inr attempt_Inr split: if_splits)

lemma daemonize_Inr:
  "daemonize_process env opts = (as, Inr u) \<Longrightarrow> as = (if daemonize opts then [Fork, Detach, Openlog (syslog_facility opts)] else [])"
  by (auto simp: daemonize_process_def and_then_Inr require_Inr attempt_Inr split: if_splits)

text \<open>A successful start, step by step.\<close>

lemma startup_Inr:
  assumes "startup bc env opts = (as, Inr st)"
  obtains pw c cs where
    "check_service_user env opts = ([], Inr pw)" "check_config_file env opts pw = ([], Inr ())"
    "parse_config bc (sections env) (config_file opts) (fopen env (config_file opts)) = Inr (c, cs)"
    "watchdog_enabled opts \<longrightarrow> started_as_root env"
    "as = [Timer_set (timer_interval c)] @ socket_actions env pw (socket_path c) @ watchdog_actions opts c @
       privilege_actions env pw @ (if daemonize opts then [Fork, Detach, Openlog (syslog_facility opts)] else []) @
       map Out (startup_logs bc env opts c cs)"
    "st = \<lparr>bk = start_broker c cs, all_ok = True, watchdog_open = watchdog_enabled opts\<rparr>"
proof -
  from assms obtain a1 pw a2 a3 c cs a4 a5 a6 a7 a8 a9 where steps:
    "check_service_user env opts = (a1, Inr pw)" "check_config_file env opts pw = (a2, Inr ())"
    "read_config bc env opts = (a3, Inr (c, cs))" "start_timer env c = (a4, Inr ())"
    "remove_stale_socket env c = (a5, Inr ())" "create_socket env pw c = (a6, Inr ())"
    "open_watchdog env opts c = (a7, Inr ())" "drop_privileges env pw = (a8, Inr ())"
    "daemonize_process env opts = (a9, Inr ())"
    and as: "as = a1 @ a2 @ a3 @ a4 @ a5 @ a6 @ a7 @ a8 @ a9 @ map Out (startup_logs bc env opts c cs)"
    and st: "st = \<lparr>bk = start_broker c cs, all_ok = True, watchdog_open = watchdog_enabled opts\<rparr>"
    by (auto simp: startup_def prepare_def and_then_Inr)
  from steps(1,2) have nil: "a1 = []" "a2 = []" by (simp_all add: check_service_user_Inr check_config_file_Inr)
  from steps(3) have cfg: "a3 = []" "parse_config bc (sections env) (config_file opts) (fopen env (config_file opts)) = Inr (c, cs)"
    by (simp_all add: read_config_def)
  from steps(4) have tm: "a4 = [Timer_set (timer_interval c)]" by (simp add: start_timer_def attempt_Inr)
  have wd: "a7 = watchdog_actions opts c" "watchdog_enabled opts \<longrightarrow> started_as_root env"
    using open_watchdog_Inr [OF steps(7)] by blast+
  show thesis
  proof (rule that [OF _ _ cfg(2) wd(2) _ st])
    show "as = [Timer_set (timer_interval c)] @ socket_actions env pw (socket_path c) @ watchdog_actions opts c @
       privilege_actions env pw @ (if daemonize opts then [Fork, Detach, Openlog (syslog_facility opts)] else []) @
       map Out (startup_logs bc env opts c cs)"
      using sockets_Inr [OF steps(5,6)] drop_privileges_Inr [OF steps(8)] daemonize_Inr [OF steps(9)]
      by (simp only: as nil cfg(1) tm wd(1) append.simps append_assoc [symmetric])
  qed (use steps(1,2) nil in simp_all)
qed

section \<open>Properties\<close>

definition sample_env :: "string \<Rightarrow> start_env" where
  "sample_env file = \<lparr>euid = 0, getpwnam = (\<lambda>u. if u = ''wd-broker'' then Some \<lparr>pw_uid = 990, pw_gid = 990\<rparr> else None),
     lstat = (\<lambda>p. if p = ''/etc/wd-broker.conf'' then Some \<lparr>st_type = Regular, st_perm = 0x1A4, st_uid = 990\<rparr> else None),
     fopen = (\<lambda>p. Some file), sections = sample_sections, server_socket_ok = True, timerfd_ok = True, settime_ok = True, probe_socket_ok = True, probe = Refused,
     unlink_ok = True, bind = Bound, listen_ok = True, chmod_ok = True, chown_ok = True, wd_open_ok = True,
     wd_settimeout_ok = True, setgroups_ok = True, setgid_ok = True, setuid_ok = True, fork_pid = 0, setsid_ok = True,
     chdir_ok = True, bootstatus = Some 0x20, strerror = []\<rparr>"


text \<open>
  C17. When the broker enters its main loop, the configuration came from a regular file that belongs
  to the (non-root) service user and that neither group nor others can write; the client table and
  the configuration satisfy their invariants; the hardware watchdog is open exactly if it was not
  disabled, which needs root; and if the process was started as root it has given up its supplementary
  groups and changed to the service user and its group.
\<close>

theorem startup_is_sound:
  assumes "startup bc env opts = (as, Inr st)" "length (SOCKET_PATH_DEFAULT bc) < WD_CLIENT_SOCKPATH_LEN"
  shows "\<exists>pw f. getpwnam env (service_user opts) = Some pw \<and> pw_uid pw \<noteq> 0 \<and>
    lstat env (config_file opts) = Some f \<and> st_type f = Regular \<and> st_uid f = pw_uid pw \<and> st_perm f AND 0x12 = 0 \<and>
    all_ok st \<and> running (bk st) \<and> broker_ok bc (bk st) \<and> config_ok (config (bk st)) \<and>
    watchdog_open st = watchdog_enabled opts \<and> (watchdog_open st \<longrightarrow> euid env = 0) \<and>
    (euid env = 0 \<longrightarrow> {Setgroups, Setgid (pw_gid pw), Setuid (pw_uid pw)} \<subseteq> set as)"
proof -
  from assms(1) obtain pw c cs where s:
    "check_service_user env opts = ([], Inr pw)" "check_config_file env opts pw = ([], Inr ())"
    "parse_config bc (sections env) (config_file opts) (fopen env (config_file opts)) = Inr (c, cs)"
    "watchdog_enabled opts \<longrightarrow> started_as_root env"
    "as = [Timer_set (timer_interval c)] @ socket_actions env pw (socket_path c) @ watchdog_actions opts c @
       privilege_actions env pw @ (if daemonize opts then [Fork, Detach, Openlog (syslog_facility opts)] else []) @ map Out (startup_logs bc env opts c cs)"
    "st = \<lparr>bk = start_broker c cs, all_ok = True, watchdog_open = watchdog_enabled opts\<rparr>"
    by (rule startup_Inr)
  from s(2) obtain f where f: "lstat env (config_file opts) = Some f" "st_type f = Regular" "st_uid f = pw_uid pw"
    "st_perm f AND 0x12 = 0" by (auto simp: check_config_file_Inr)
  have "{Setgroups, Setgid (pw_gid pw), Setuid (pw_uid pw)} \<subseteq> set as" if "euid env = 0"
    using that s(5) by (simp add: privilege_actions_def started_as_root_def)
  with s(1,4,6) f parse_config_ok(1,3) [OF s(3) assms(2)] show ?thesis
    by (auto simp: check_service_user_Inr started_as_root_def start_broker_def)
qed


theorem startup_is_sound_witness:
  "\<exists>st. snd (startup sample_build (sample_env ''[client alpha]\<newline>'') (default_options sample_build)) = Inr st \<and>
     broker_ok sample_build (bk st) \<and> watchdog_open st"
proof -
  let ?r = "startup sample_build (sample_env ''[client alpha]\<newline>'') (default_options sample_build)"
  have "case snd ?r of Inr st \<Rightarrow> watchdog_open st | Inl _ \<Rightarrow> False" by code_simp
  then obtain st where st: "snd ?r = Inr st" "watchdog_open st" by (auto split: sum.splits)
  then have "?r = (fst ?r, Inr st)" by (metis prod.collapse)
  moreover have "length (SOCKET_PATH_DEFAULT sample_build) < WD_CLIENT_SOCKPATH_LEN" by code_simp
  ultimately have "broker_ok sample_build (bk st)" using startup_is_sound by blast
  with st show ?thesis by blast
qed

lemma no_open_before:
  "Wd_open \<notin> set (fst (check_service_user env opts))" "Wd_open \<notin> set (fst (check_config_file env opts pw))"
  "Wd_open \<notin> set (fst (read_config bc env opts))" "Wd_open \<notin> set (fst (start_timer env c))"
  "Wd_open \<notin> set (fst (remove_stale_socket env c))" "Wd_open \<notin> set (fst (create_socket env pw c))"
  by (auto simp: check_service_user_def check_config_file_def read_config_def start_timer_def
      remove_stale_socket_def create_socket_def Let_def proc_simps split: option.splits)

lemma prepare_no_open: "Wd_open \<notin> set (fst (prepare bc env opts))"
  using no_open_before by (auto simp: prepare_def and_then_fst split: sum.splits)

lemma prepare_Inr:
  assumes "snd (prepare bc env opts) = Inr (pw, c, cs)"
  shows "parse_config bc (sections env) (config_file opts) (fopen env (config_file opts)) = Inr (c, cs)"
    and "{Timer_set (timer_interval c), Bind (socket_path c), Listen, Chmod (socket_path c) SOCKET_MODE} \<subseteq> set (fst (prepare bc env opts))"
proof -
  define as where "as = fst (prepare bc env opts)"
  with assms have "prepare bc env opts = (as, Inr (pw, c, cs))" by (metis prod.collapse)
  then obtain a1 a2 a u a5 v where r: "read_config bc env opts = (a, Inr (c, cs))"
    and s: "start_timer env c = (u, Inr ())" and b: "create_socket env pw c = (v, Inr ())"
    and as: "as = a1 @ a2 @ a @ u @ a5 @ v"
    by (auto simp: prepare_def and_then_Inr)
  from as have sub: "set u \<union> set v \<subseteq> set (fst (prepare bc env opts))" unfolding as_def [symmetric] by auto
  from r show "parse_config bc (sections env) (config_file opts) (fopen env (config_file opts)) = Inr (c, cs)"
    by (simp add: read_config_def)
  from s b have "{Timer_set (timer_interval c), Bind (socket_path c), Listen, Chmod (socket_path c) SOCKET_MODE} \<subseteq> set u \<union> set v"
    by (auto simp: start_timer_def create_socket_def Let_def and_then_Inr attempt_Inr)
  with sub show "{Timer_set (timer_interval c), Bind (socket_path c), Listen, Chmod (socket_path c) SOCKET_MODE} \<subseteq> set (fst (prepare bc env opts))"
    by (rule order.trans [rotated])
qed

text \<open>
  C18. The hardware watchdog is the last thing the start touches before it gives up its privileges:
  whenever a start opens it, whatever happens afterwards, the configuration has been accepted, the
  timer runs, and the socket is bound, listening and protected. A mistake in the configuration or a
  second instance therefore never arms it.
\<close>

theorem watchdog_opened_after_all_checks:
  assumes "Wd_open \<in> set (fst (startup bc env opts))"
  shows "\<exists>pre post c cs. fst (startup bc env opts) = pre @ Wd_open # post \<and>
    parse_config bc (sections env) (config_file opts) (fopen env (config_file opts)) = Inr (c, cs) \<and>
    {Timer_set (timer_interval c), Bind (socket_path c), Listen, Chmod (socket_path c) SOCKET_MODE} \<subseteq> set pre"
proof -
  from assms prepare_no_open [of bc env opts] obtain pw c cs rest where
    p: "snd (prepare bc env opts) = Inr (pw, c, cs)" "fst (startup bc env opts) = fst (prepare bc env opts) @ rest"
      "Wd_open \<in> set rest"
    unfolding startup_def and_then_fst [of "prepare bc env opts"]
    by (cases "snd (prepare bc env opts)") auto
  then obtain a post where "rest = a @ Wd_open # post" by (meson split_list)
  with p(2) have "fst (startup bc env opts) = (fst (prepare bc env opts) @ a) @ Wd_open # post" by simp
  moreover have "{Timer_set (timer_interval c), Bind (socket_path c), Listen, Chmod (socket_path c) SOCKET_MODE} \<subseteq>
      set (fst (prepare bc env opts) @ a)"
    using prepare_Inr(2) [OF p(1)] by auto
  ultimately show ?thesis using prepare_Inr(1) [OF p(1)] by blast
qed

theorem watchdog_opened_after_all_checks_witness:
  "\<exists>pre post. fst (startup sample_build ((sample_env [])\<lparr>wd_settimeout_ok := False\<rparr>) (default_options sample_build)) =
     pre @ Wd_open # post \<and> Listen \<in> set pre"
proof -
  let ?r = "startup sample_build ((sample_env [])\<lparr>wd_settimeout_ok := False\<rparr>) (default_options sample_build)"
  have "Wd_open \<in> set (fst ?r)" by code_simp
  from watchdog_opened_after_all_checks [OF this] show ?thesis by auto
qed

text \<open>Reading the options performs nothing while it goes on.\<close>

lemma parse_options_Inr: "snd (parse_options bc argv o0) = Inr opts \<Longrightarrow> parse_options bc argv o0 = ([], Inr opts)"
  by (induction argv arbitrary: o0) (auto split: option_event.splits sum.splits)

definition refused :: "build_config \<Rightarrow> start_env \<Rightarrow> options \<Rightarrow> bool" where
  "refused bc env opts \<longleftrightarrow>
     (case snd (check_service_user env opts) of
        Inl _ \<Rightarrow> True
      | Inr pw \<Rightarrow>
          (case snd (check_config_file env opts pw) of
             Inl _ \<Rightarrow> True
           | Inr _ \<Rightarrow>
               (case parse_config bc (sections env) (config_file opts) (fopen env (config_file opts)) of
                  Inl _ \<Rightarrow> True
                | Inr _ \<Rightarrow> False)))"

lemma refused_startup:
  assumes "refused bc env opts"
  obtains x where "startup bc env opts = ([], Inl x)" "exit_code x = EXIT_FAILURE"
proof -
  have u: "fst (check_service_user env opts) = []" by (simp add: check_service_user_def Let_def split: option.splits)
  have f: "fst (check_config_file env opts pw) = []" for pw
    by (simp add: check_config_file_def Let_def proc_simps split: option.splits)
  have ux: "snd (check_service_user env opts) = Inl x \<Longrightarrow> exit_code x = EXIT_FAILURE" for x
    by (auto simp: check_service_user_def Let_def split: option.splits if_splits)
  have fx: "snd (check_config_file env opts pw) = Inl x \<Longrightarrow> exit_code x = EXIT_FAILURE" for x pw
    by (auto simp: check_config_file_def Let_def proc_simps split: option.splits if_splits)
  have "fst (prepare bc env opts) = [] \<and> (\<exists>x. snd (prepare bc env opts) = Inl x \<and> exit_code x = EXIT_FAILURE)"
    using assms u f
    by (auto simp: refused_def prepare_def and_then_fst and_then_snd read_config_def
        split: sum.splits dest: ux fx parse_config_failure)
  then obtain x where "fst (startup bc env opts) = []" "snd (startup bc env opts) = Inl x" "exit_code x = EXIT_FAILURE"
    by (auto simp: startup_def and_then_fst and_then_snd)
  then show thesis by (intro that [of x]) (metis prod.collapse)
qed

text \<open>
  C38. A start that is refused because of its configuration leaves no trace: whatever is wrong with
  the service user, the file's owner and permissions or its content, the process ends with status 1,
  and all it has done before is to create the two descriptors main opens unconditionally, a socket
  without an address and a timer that is not armed, which end with it. It has bound, listened on or
  removed no socket, set no timer, opened no watchdog and changed no privilege.
\<close>

theorem refused_config_leaves_no_trace:
  assumes "snd (parse_options bc argv (default_options bc)) = Inr opts" "refused bc env opts"
  shows "main bc argv env es x = (fst (open_descriptors env), Some EXIT_FAILURE) \<and>
    set (fst (main bc argv env es x)) \<subseteq> {Socket_create, Timer_create}"
proof -
  from assms(2) obtain r where r: "startup bc env opts = ([], Inl r)" "exit_code r = EXIT_FAILURE" by (rule refused_startup)
  with parse_options_Inr [OF assms(1)] show ?thesis by (auto simp: main_def and_then_def open_descriptors_def)
qed

theorem refused_config_leaves_no_trace_witness:
  "\<forall>es x. main sample_build [Opt_n] (sample_env ''wd_timeout_s=5\<newline>'') es x = ([Socket_create, Timer_create], Some EXIT_FAILURE)"
proof -
  let ?o = "(default_options sample_build)\<lparr>watchdog_enabled := False\<rparr>"
  have "snd (parse_options sample_build [Opt_n] (default_options sample_build)) = Inr ?o" by simp
  moreover have "refused sample_build (sample_env ''wd_timeout_s=5\<newline>'') ?o" by code_simp
  moreover have "fst (open_descriptors (sample_env ''wd_timeout_s=5\<newline>'')) = [Socket_create, Timer_create]"
    by (simp add: open_descriptors_def sample_env_def)
  ultimately show ?thesis using refused_config_leaves_no_trace [of sample_build "[Opt_n]" ?o] by simp
qed

text \<open>
  C37. The feeding timer: the interval a start programs is between 5 and 30 seconds and fits twice into
  the hardware timeout it sets, so the timer is armed (an interval of zero would disarm it) and one
  missed expiration does not reset the machine.
\<close>

theorem timer_twice_per_timeout:
  assumes "startup bc env opts = (as, Inr st)" "length (SOCKET_PATH_DEFAULT bc) < WD_CLIENT_SOCKPATH_LEN"
  shows "\<exists>i. Timer_set i \<in> set as \<and> 5 \<le> i \<and> i \<le> 30 \<and> 2 * i \<le> wd_timeout_s (config (bk st)) \<and>
    (watchdog_open st \<longrightarrow> Wd_set_timeout (wd_timeout_s (config (bk st))) \<in> set as)"
proof -
  from assms(1) obtain c cs where c:
    "parse_config bc (sections env) (config_file opts) (fopen env (config_file opts)) = Inr (c, cs)"
    "Timer_set (timer_interval c) \<in> set as" "watchdog_open st \<longrightarrow> Wd_set_timeout (wd_timeout_s c) \<in> set as"
    "config (bk st) = c"
    by (elim startup_Inr) (auto simp: watchdog_actions_def start_broker_def)
  have "config_ok c" by (rule parse_config_ok(1) [OF c(1) assms(2)])
  then have "5 \<le> timer_interval c" "timer_interval c \<le> 30" "2 * timer_interval c \<le> wd_timeout_s c"
    unfolding config_ok_def timer_interval_def by (simp_all add: trunc_div_pos) presburger+
  with c show ?thesis by blast
qed

theorem timer_twice_per_timeout_witness:
  "\<exists>i. Timer_set i \<in> set (fst (startup sample_build (sample_env ''wd_timeout_s=25\<newline>'') (default_options sample_build))) \<and> 2 * i \<le> 25"
proof -
  let ?r = "startup sample_build (sample_env ''wd_timeout_s=25\<newline>'') (default_options sample_build)"
  have "case snd ?r of Inr st \<Rightarrow> wd_timeout_s (config (bk st)) = 25 | Inl _ \<Rightarrow> False" by code_simp
  then obtain st where st: "snd ?r = Inr st" "wd_timeout_s (config (bk st)) = 25" by (auto split: sum.splits)
  then have "?r = (fst ?r, Inr st)" by (metis prod.collapse)
  moreover have "length (SOCKET_PATH_DEFAULT sample_build) < WD_CLIENT_SOCKPATH_LEN" by code_simp
  ultimately show ?thesis using timer_twice_per_timeout st(2) by metis
qed

end
