(* ===== verification/Protocol_Properties.thy ===== *)
theory Protocol_Properties
  imports Config_Properties
begin

text \<open>
  Properties of the wire protocol and of the helpers of handle_command: every connection is answered
  once, the scanf formats accept exactly the lines described by their words, the slot search
  implements its description, identifiers are well-formed and as random as their source, and the
  corner cases of numbers and names.
\<close>

section \<open>Replies\<close>

lemma replies_write_str: "reply_ok k \<Longrightarrow> replies (write_str k m) = [m]"
  by (simp add: write_str_def)

lemma by_name_no_reply: "replies (snd (get_clientInstance_by_name c cs nm p)) = []"
  by (auto simp: get_clientInstance_by_name_def split: option.splits prod.splits)

lemma register_one_reply:
  assumes "reply_ok k"
  shows "length (replies (snd (handle_register k cr buf b))) = 1"
proof (cases "parse_register buf")
  case None
  with assms show ?thesis by (simp add: handle_register_def replies_write_str)
next
  case (Some a)
  obtain nm tmo chk where a: "a = (nm, tmo, chk)" by (cases a)
  obtain s lg where g: "get_clientInstance_by_name (config b) (clients b) nm (cr_pid cr) = (s, lg)"
    by (cases "get_clientInstance_by_name (config b) (clients b) nm (cr_pid cr)")
  with by_name_no_reply [of "config b" "clients b" nm "cr_pid cr"] have "replies lg = []" by simp
  with assms Some a g show ?thesis
    by (cases s) (simp_all add: handle_register_def replies_write_str Let_def)
qed

lemma write_pieces_one_reply:
  assumes "reply_ok k"
  shows "length (replies (write_pieces k n ps)) = 1 \<or> write_pieces k n ps = [Out_of_bounds] \<and> n \<le> length (concat ps)"
  using assms write_pieces_fits [of ps n k]
  by (cases "length (concat ps) < n") (simp_all add: write_pieces_def split: option.splits)

lemma dispatch_one_reply:
  assumes "reply_ok k"
  shows "length (replies (snd (dispatch bc k cr buf b))) = 1 \<or>
    dispatch bc k cr buf b = (b, [Out_of_bounds]) \<and> \<not> status_fits bc b"
proof -
  note one = replies_write_str [OF assms]
  have "length (replies (snd (handle_ping k cr buf b))) = 1" "length (replies (snd (handle_unregister k cr buf b))) = 1"
    "length (replies (snd (handle_reboot k cr buf b))) = 1"
    by (auto simp: handle_ping_def handle_unregister_def handle_reboot_def one Let_def split: sum.splits lookup_result.splits)
  moreover have "length (replies (snd (handle_status bc k cr buf b))) = 1 \<or>
      handle_status bc k cr buf b = (b, [Out_of_bounds]) \<and> \<not> status_fits bc b"
    using write_pieces_one_reply [OF assms, of 4096 "status_pieces bc b"] status_fits_length [of bc b]
    by (auto simp: handle_status_def one)
  moreover have "length (replies (snd (handle_version bc k buf b))) = 1 \<or>
      handle_version bc k buf b = (b, [Out_of_bounds]) \<and> \<not> status_fits bc b"
    using write_pieces_one_reply [OF assms, of 128 "[''wd-broker_version='' @ PACKAGE_VERSION bc @ ''\<newline>'',
        ''protocol_version='' @ SOCKET_PROT_VERSION @ ''\<newline>'']"]
    by (auto simp: handle_version_def one status_fits_def SOCKET_PROT_VERSION_def)
  ultimately show ?thesis by (auto simp: dispatch_def register_one_reply [OF assms] one)
qed

text \<open>
  C35. A connection is answered exactly once, with one exception: whatever the peer sends (or does not
  send), if the socket accepts the reply then handle_command writes one reply on every branch, unless
  the report it composes leaves its buffer. In a well-formed state that takes more than 38 live clients
  or a version text of more than 32 characters; the connection then gets no reply at all and the state
  is unchanged.
\<close>

theorem one_reply_per_connection:
  assumes "reply_ok k"
  shows "length (replies (snd (handle_command bc k b))) = 1 \<or>
    handle_command bc k b = (b, [Out_of_bounds]) \<and> \<not> status_fits bc b"
  using dispatch_one_reply [OF assms] replies_write_str [OF assms]
  by (auto simp: handle_command_def split: option.splits prod.splits)

theorem one_reply_per_connection_witness:
  "length (replies (snd (handle_command sample_build (sample_conn 1 0 ''STATUS'') (sample_broker False False)))) = 1"
proof -
  have "reply_ok (sample_conn 1 0 ''STATUS'')" by (simp add: sample_conn_def)
  moreover have "list_all pid_ok (clients (sample_broker False False))" "config_ok (config (sample_broker False False))"
    "length (filter live (clients (sample_broker False False))) \<le> 38" "length (PACKAGE_VERSION sample_build) \<le> 32" by code_simp+
  with sample_broker_ok have "status_fits sample_build (sample_broker False False)" by (simp add: status_fits_def)
  ultimately show ?thesis using one_reply_per_connection by blast
qed

section \<open>Arguments and slots\<close>

text \<open>
  C33. The identifier argument of PING and UNREGISTER, read with the format "%16s %15s", is accepted exactly
  if the rest of the line is one word of 16 hex digits in either case, whatever white space is
  around it; the result is that word in lower case, and each other line gets its error message.
\<close>

theorem parse_clientID_by_words: "parse_clientID (cmd @ s) cmd = clientID_arg s"
  by (rule parse_clientID_arg)

text \<open>
  C32. The slot search of REGISTER, two loops over the table with early returns, selects exactly the
  slot its comment describes: the first announced inactive slot of that name; outside strict mode
  otherwise the first free slot; none while an active client has the name under unique_clients.
\<close>

theorem slot_search_is_slot_for:
  "fst (get_clientInstance_by_name c cs nm p) = slot_for c cs nm"
  by (rule by_name_slot_for)

text \<open>
  C34. Identifiers are 16 lower-case hex digits on every path of make_clientID, the fallback without
  /dev/urandom included, and two of them are equal only if all eight random bytes are.
\<close>

theorem clientIDs_are_faithful:
  "id_ok (make_clientID e) \<and> (make_clientID e = make_clientID e' \<longleftrightarrow> raw_bytes e = raw_bytes e')"
  using id_ok_make_clientID [of e] make_clientID_inject [of e e'] by (auto simp: make_clientID_def)

section \<open>Corner cases\<close>

lemma scan_Uint_wrap:
  assumes "ends_word r"
  shows "scan (Uint # ds) (show_nat (unat t + 2 ^ 32) @ r) = apfst ((#) (SUint t)) (scan ds r)"
proof -
  have "unat t < 2 ^ 32" using unsigned_less [of t, where ?'a = nat] by simp
  then have "unat t + 2 ^ 32 < 2 ^ 64" by simp
  moreover have "(4294967296 :: u32) = 0" by code_simp
  then have "word_of_nat (unat t + 2 ^ 32) = t" by simp
  ultimately show ?thesis using scan_Uint_word [OF assms, of "unat t + 2 ^ 32" ds] by simp
qed

text \<open>
  The timeout argument is read modulo 2 ^ 32: for every 32-bit value t, the argument t + 2 ^ 32 of
  REGISTER is parsed as the timeout t.
\<close>

lemma register_timeout_wraps:
  assumes "word_ok nm" "length nm \<le> 63"
  shows "parse_register (CMD_REGISTER @ nm @ '' '' @ show_nat (unat t + 2 ^ 32) @ ''\<newline>'') = Some (nm, t, True)"
proof -
  have "fst (scan (Uint # [Ws, Str 15, Ws, Str 15]) (show_nat (unat t + 2 ^ 32) @ ''\<newline>'')) = [SUint t]"
    by (subst scan_Uint_wrap) simp_all
  moreover have "scan WD_REGISTER_SCANF_FORMAT (nm @ CHR '' '' # show_nat (unat t + 2 ^ 32) @ ''\<newline>'') =
      apfst ((#) (SStr nm)) (scan (Uint # [Ws, Str 15, Ws, Str 15]) (show_nat (unat t + 2 ^ 32) @ ''\<newline>''))"
    unfolding WD_REGISTER_SCANF_FORMAT_def using assms by (intro str_token.scan_then) simp_all
  ultimately have "fst (scan WD_REGISTER_SCANF_FORMAT (nm @ '' '' @ show_nat (unat t + 2 ^ 32) @ ''\<newline>'')) = [SStr nm, SUint t]"
    by simp
  then show ?thesis by (simp add: parse_register_def sscanf_values)
qed

text \<open>
  A client section whose name contains white space announces a client that can never arrive: no
  sequence of commands leads to an active client of that name, so the manual's "any printable character" for
  client names does not hold for the blank.
\<close>

lemma announced_name_with_space_never_registers:
  assumes "broker_ok bc b" "\<not> word_ok nm"
  shows "nm \<notin> set (map name (filter active (clients (run (\<lambda>b k. fst (handle_command bc k b)) b ks))))"
proof -
  have "broker_ok bc (run (\<lambda>b k. fst (handle_command bc k b)) b ks)" by (rule commands.run_inv [OF assms(1)])
  with assms(2) show ?thesis by (auto simp: broker_ok_def table_ok_def list_all_iff client_ok_def)
qed

section \<open>Boot status\<close>

unbundle bit_operations_syntax

text \<open>
  C40. The boot status message names exactly the known flags that are set in the value the kernel
  reports, in the order of the table, or none: no combination of flags is cut off by the 128 byte
  buffer.
\<close>

theorem boot_status_names_all_flags:
  "log_bootstatus bs = [Log LOG_INFO (''Boot status 0x'' @ show_hex32 bs @ '':'' @
     (if list_ex (\<lambda>(f, n). bs AND f \<noteq> 0) bootflags
      then concat (map snd (filter (\<lambda>(f, n). bs AND f \<noteq> 0) bootflags)) else '' none''))]"
proof -
  have names: "list_all (\<lambda>x. snd x \<noteq> []) bootflags" by (simp add: bootflags_def)
  have "list_all (\<lambda>x. snd x \<noteq> []) fs \<Longrightarrow> concat (map snd (filter P fs)) = [] \<longleftrightarrow> \<not> list_ex P fs"
    for fs and P :: "u32 \<times> string \<Rightarrow> bool"
    by (induction fs) auto
  from this [OF names] show ?thesis
    by (simp add: log_bootstatus_def Let_def bootflags_fit strncat_def del: concat_eq_Nil_conv)
qed


end
