(* ===== verification/Wd_Ctrl.thy ===== *)
theory Wd_Ctrl
  imports Wd_Client
begin

text \<open>
  wd-ctrl.c: the tool root uses to show the broker's clients, to unregister one by its identifier or
  name, and to trigger the reboot failsafe. It always reads the status report first. The other end
  is a \<open>server\<close> as in the client library.
\<close>

section \<open>Printing\<close>

text \<open>print\_help of wd-ctrl.c.\<close>

definition ctrl_help :: "build_config \<Rightarrow> string" where
  "ctrl_help bc =
     ''Usage: wd-ctrl [OPTIONS] <command>\<newline>'' @
     ''\<newline>Options:\<newline>'' @
     ''  --help                      Show this help message and exit\<newline>'' @
     ''  --version                   Show version information and exit\<newline>'' @
     ''  --socket-path <path>        Use custom socket path (default: '' @ SOCKET_PATH_DEFAULT bc @ '')\<newline>'' @
     ''\<newline>Commands:\<newline>'' @
     ''  reboot                      Trigger the reboot failsafe\<newline>'' @
     ''  status                      Show the current wd-broker status\<newline>'' @
     ''  unregister <clientID|name>  Unregister a client by its ID or name\<newline>'' @
     ''\<newline>Examples:\<newline>'' @
     ''  wd-ctrl status\<newline>'' @
     ''  wd-ctrl unregister 4f3c0d9e8a1b4f21\<newline>'' @
     ''  wd-ctrl --socket-path /run/custom.sock status\<newline>'' @
     ''\<newline>''"

text \<open>\<open>%-ns\<close>.\<close>

definition ljust :: "nat \<Rightarrow> string \<Rightarrow> string" where
  "ljust n s = s @ replicate (n - length s) (CHR '' '')"

definition print_table_header :: string where
  "print_table_header =
     ''\<newline>'' @ ljust 18 ''clientID'' @ '' '' @ ljust 6 ''PID'' @ '' '' @ ljust 20 ''Name'' @ '' '' @
     ljust 13 ''Timeout (ms)'' @ '' '' @ ljust 8 ''pidCheck'' @ ''\<newline>'' @ replicate 69 (CHR ''-'') @ ''\<newline>''"

definition ROW_FORMAT :: "directive list" where
  "ROW_FORMAT = [Str 16, Ws, Sint, Ws, Str 63, Ws, Uint, Ws, Sint]"

text \<open>A row of the status report, \<open>sscanf(...) == 5\<close>.\<close>

definition parse_row :: "string \<Rightarrow> (string \<times> int \<times> string \<times> u32 \<times> int) option" where
  "parse_row line =
     (case snd (sscanf line ROW_FORMAT) of
        [SStr i, SInt p, SStr nm, SUint t, SInt chk] \<Rightarrow> Some (i, p, nm, t, chk)
      | _ \<Rightarrow> None)"

definition print_line_formatted :: "string \<Rightarrow> string" where
  "print_line_formatted line =
     (case parse_row line of
        Some (i, p, nm, t, chk) \<Rightarrow>
          ljust 18 i @ '' '' @ ljust 6 (show_int p) @ '' '' @ ljust 20 nm @ '' '' @ ljust 13 (show_u32 t) @ '' '' @
          ljust 8 (if chk \<noteq> 0 then ''on'' else ''off'') @ ''\<newline>''
      | None \<Rightarrow> line)"

section \<open>Talking to the broker\<close>

definition BUF_SIZE :: nat where
  "BUF_SIZE = 4096"

text \<open>
  The return value, the text on stderr and the buffer afterwards: it keeps its old content when nothing
  was read.
\<close>

definition send_and_receive ::
    "'s server \<Rightarrow> net \<Rightarrow> string \<Rightarrow> string \<Rightarrow> string \<Rightarrow> 's \<Rightarrow> 's \<times> int \<times> string \<times> string" where
  "send_and_receive srv n path cmd buf s =
     (if \<not> socket_ok n then (s, -1, ''Error: socket() failed: '' @ net_err n @ ''\<newline>'', buf)
      else if \<not> connect_ok n
      then (s, -1, ''Cannot connect to server at '' @ path @ '': '' @ net_err n @ ''\<newline>'', buf)
      else if \<not> write_ok n
      then (s, -1, (if epipe n then ''Error: Broken pipe (server may have closed connection)\<newline>'' else []) @
              ''Failed to send request to server: '' @ net_err n @ ''\<newline>'', buf)
      else (case srv s cmd of
              (s', r) \<Rightarrow>
                (case read_with_timeout (wait n) r BUF_SIZE of
                   (len, bytes) \<Rightarrow>
                     (s', if 0 \<le> len then len else -1, [],
                      (case bytes of Some b \<Rightarrow> cstr b | None \<Rightarrow> buf)))))"

section \<open>Lines\<close>

text \<open>\<open>strtok_r(buf, "\n", ...)\<close>: the non-empty pieces between line ends.\<close>

fun split_lines :: "string \<Rightarrow> string list" where
  "split_lines [] = [[]]"
| "split_lines (c # s) =
     (if c = CHR 0x0A then [] # split_lines s
      else (case split_lines s of l # ls \<Rightarrow> (c # l) # ls | [] \<Rightarrow> [[c]]))"

definition status_lines :: "build_config \<Rightarrow> string \<Rightarrow> string list" where
  "status_lines bc buf = take (WD_MAX_CLIENTS bc + 10 - 1) (filter (\<lambda>l. l \<noteq> []) (split_lines buf))"

text \<open>The buffer as a C string afterwards: strtok_r has ended it after the first piece.\<close>

definition after_strtok :: "string \<Rightarrow> string" where
  "after_strtok buf =
     takeWhile (\<lambda>c. c = CHR 0x0A) buf @ takeWhile (\<lambda>c. c \<noteq> CHR 0x0A) (dropWhile (\<lambda>c. c = CHR 0x0A) buf)"

section \<open>Commands\<close>

record ctrl_result =
  to_stdout :: string
  ctrl_exit :: exit_report

definition fails :: "string \<Rightarrow> ctrl_result" where
  "fails msg = \<lparr>to_stdout = [], ctrl_exit = \<lparr>to_stderr = msg, exit_code = EXIT_FAILURE\<rparr>\<rparr>"

definition succeeds :: "string \<Rightarrow> ctrl_result" where
  "succeeds msg = \<lparr>to_stdout = msg, ctrl_exit = \<lparr>to_stderr = [], exit_code = EXIT_SUCCESS\<rparr>\<rparr>"

definition ctrl_reboot :: "'s server \<Rightarrow> net \<Rightarrow> string \<Rightarrow> string \<Rightarrow> 's \<Rightarrow> 's \<times> ctrl_result" where
  "ctrl_reboot srv n path buf s =
     (case send_and_receive srv n path CMD_REBOOT buf s of
        (s', len, err, buf') \<Rightarrow>
          if strncmp_eq buf' ''OK'' 2
          then (s', \<lparr>to_stdout = ''Reboot failsafe activated, timeout: '' @ show_int (atoi (drop 3 buf')) @ '' seconds.\<newline>'',
                  ctrl_exit = \<lparr>to_stderr = err, exit_code = EXIT_SUCCESS\<rparr>\<rparr>)
          else (s', fails (err @ to_stderr (fatal_error ''Unexpected server response.\<newline>''))))"

definition STATUS_KEY_FORMAT :: "directive list" where
  "STATUS_KEY_FORMAT = [NotIn 63 (CHR ''=''), Lit (CHR ''=''), Str 63]"

text \<open>The loop over the lines; \<open>has_client_rows\<close> tells whether the table header was printed.\<close>

fun print_status :: "bool \<Rightarrow> string list \<Rightarrow> string" where
  "print_status has_client_rows [] = []"
| "print_status has_client_rows (l # ls) =
     (if CHR ''='' \<in> set l
      then (case snd (sscanf l STATUS_KEY_FORMAT) of
              [SStr key, SStr val] \<Rightarrow> ljust 18 key @ '': '' @ val @ ''\<newline>''
            | _ \<Rightarrow> []) @ print_status has_client_rows ls
      else (if has_client_rows then [] else print_table_header) @ print_line_formatted l @ print_status True ls)"

definition CANDIDATE_FORMAT :: "directive list" where
  "CANDIDATE_FORMAT = [Str 16, Ws, Sint, Ws, Str 63, Ws, Uint]"

definition parse_candidate :: "string \<Rightarrow> (string \<times> string) option" where
  "parse_candidate line =
     (case snd (sscanf line CANDIDATE_FORMAT) of
        [SStr i, SInt p, SStr nm, SUint t] \<Rightarrow> Some (i, nm)
      | _ \<Rightarrow> None)"

text \<open>The search for the client to unregister: id_candidate, found and match_count.\<close>

fun find_client :: "string \<Rightarrow> string list \<Rightarrow> string \<times> bool \<times> nat \<Rightarrow> string \<times> bool \<times> nat" where
  "find_client client [] acc = acc"
| "find_client client (l # ls) (cand, found, n) =
     (case parse_candidate l of
        Some (i, nm) \<Rightarrow>
          if client = i then (i, True, n)
          else if client = nm then find_client client ls (i, True, Suc n)
          else find_client client ls (cand, found, n)
      | None \<Rightarrow> find_client client ls (cand, found, n))"

definition ctrl_unregister ::
    "'s server \<Rightarrow> net \<Rightarrow> string \<Rightarrow> string \<Rightarrow> string list \<Rightarrow> string \<Rightarrow> 's \<Rightarrow> 's \<times> ctrl_result" where
  "ctrl_unregister srv n path client lines buf s =
     (case find_client client lines ([], False, 0) of
        (cand, found, count) \<Rightarrow>
          if count > 1
          then (s, fails (to_stderr (fatal_error (''Client name '' @ CHR 0x27 # client @ CHR 0x27 # '' is not unique, use the clientID.\<newline>''))))
          else if \<not> found then (s, fails (to_stderr (fatal_error (''Unknown client ('' @ client @ '').\<newline>''))))
          else (case send_and_receive srv n path (snprintf 128 (CMD_UNREGISTER @ cand @ ''\<newline>'')) buf s of
                  (s', len, err, buf') \<Rightarrow>
                    if len \<le> 0 then (s', fails err)
                    else if strncmp_eq buf' ''OK'' 2
                    then (s', succeeds (''Client '' @ CHR 0x27 # client @ CHR 0x27 # '' unregistered successfully.\<newline>''))
                    else if strncmp_eq buf' ''ERROR'' 5
                    then (s', fails (''Server Error: '' @ drop 6 buf' @ ''\<newline>''))
                    else (s', fails (to_stderr (fatal_error ''Unexpected server response.\<newline>'')))))"

section \<open>main\<close>

datatype ctrl_option = Ctrl_h | Ctrl_v | Ctrl_s string | Ctrl_unknown

text \<open>
  The text printed with the exit status, or the socket path. The message getopt_long itself writes
  about an unknown option is not part of the model.
\<close>

fun ctrl_options :: "build_config \<Rightarrow> ctrl_option list \<Rightarrow> string \<Rightarrow> (string \<times> int) + string" where
  "ctrl_options bc [] path = Inr path"
| "ctrl_options bc (ev # evs) path =
     (case ev of
        Ctrl_h \<Rightarrow> Inl (ctrl_help bc, EXIT_SUCCESS)
      | Ctrl_v \<Rightarrow> Inl (''wd-ctrl v'' @ PACKAGE_VERSION bc @ ''\<newline>'', EXIT_SUCCESS)
      | Ctrl_s arg \<Rightarrow> ctrl_options bc evs arg
      | Ctrl_unknown \<Rightarrow> Inl (ctrl_help bc, EXIT_FAILURE))"

text \<open>
  \<open>srv1\<close> and \<open>srv2\<close> are the server as seen by the connection of the status request and by that of the
  command; \<open>args\<close> are the arguments after the options.
\<close>

definition ctrl_main ::
    "build_config \<Rightarrow> ctrl_option list \<Rightarrow> uid_t \<Rightarrow> string list \<Rightarrow> net \<Rightarrow> net \<Rightarrow> 's server \<Rightarrow> 's server \<Rightarrow> 's \<Rightarrow> 's \<times> ctrl_result" where
  "ctrl_main bc opts uid args n1 n2 srv1 srv2 s =
     (case ctrl_options bc opts (SOCKET_PATH_DEFAULT bc) of
        Inl (out, code) \<Rightarrow> (s, \<lparr>to_stdout = out, ctrl_exit = \<lparr>to_stderr = [], exit_code = code\<rparr>\<rparr>)
      | Inr path \<Rightarrow>
          if uid \<noteq> 0 then (s, fails (to_stderr (fatal_error ''Only root is allowed to control wd-broker.\<newline>'')))
          else (case args of
                  [] \<Rightarrow> (s, (fails ''Error: Missing command.\<newline>\<newline>'')\<lparr>to_stdout := ctrl_help bc\<rparr>)
                | command # rest \<Rightarrow>
                    (case send_and_receive srv1 n1 path CMD_STATUS [] s of
                       (s1, len, err, buf) \<Rightarrow>
                         if len \<le> 0 then (s1, fails err)
                         else (let lines = status_lines bc buf; line1 = after_strtok buf
                               in if command = ''reboot'' then ctrl_reboot srv2 n2 path line1 s1
                                  else if command = ''status'' then (s1, succeeds (print_status False lines))
                                  else if command = ''unregister'' \<and> rest \<noteq> []
                                  then ctrl_unregister srv2 n2 path (hd rest) lines line1 s1
                                  else (s1, (fails ''Error: Invalid arguments.\<newline>\<newline>'')\<lparr>to_stdout := ctrl_help bc\<rparr>)))))"

end
