(* ===== verification/Client_Service.thy ===== *)
theory Client_Service
  imports Wd_Client Client_Table
begin

text \<open>
  The contract between libwd-client and its server as a locale: which packets the server answers how,
  and what stays true of it. The library's guarantees are proved from the contract alone: a session
  of one registration, any number of pings and the final unregistration succeeds.
\<close>

section \<open>Sessions\<close>

text \<open>Repeated calls of wd_client_ping, each with its own connection.\<close>

fun pings :: "('e \<Rightarrow> 's server) \<Rightarrow> (net \<times> 'e) list \<Rightarrow> wd_client_t \<Rightarrow> 's \<Rightarrow> 's \<times> int list \<times> wd_client_t" where
  "pings srv [] c s = (s, [], c)"
| "pings srv ((n, e) # xs) c s =
     (case wd_client_ping (srv e) n c s of
        (s1, ret, c1) \<Rightarrow> (case pings srv xs c1 s1 of (s2, rets, c2) \<Rightarrow> (s2, ret # rets, c2)))"

section \<open>The contract\<close>

text \<open>
  \<open>srv e\<close> is the server as a connection \<open>e\<close> of a peer sees it. \<open>delivers e\<close>: replies reach the peer;
  \<open>peer e e'\<close>: the connections belong to the same peer; \<open>grants s e nm tmo chk cid\<close>: a registration would be
  granted under the identifier \<open>cid\<close>; \<open>holds s e cid\<close>: the peer is registered as \<open>cid\<close>; \<open>leaves s e\<close>: it may
  unregister.
\<close>

locale watchdog_service =
  fixes srv :: "'e \<Rightarrow> 's server"
    and delivers_to :: "'e \<Rightarrow> bool"
    and peer :: "'e \<Rightarrow> 'e \<Rightarrow> bool"
    and grants :: "'s \<Rightarrow> 'e \<Rightarrow> string \<Rightarrow> u32 \<Rightarrow> bool \<Rightarrow> string \<Rightarrow> bool"
    and holds :: "'s \<Rightarrow> 'e \<Rightarrow> string \<Rightarrow> bool"
    and leaves :: "'s \<Rightarrow> 'e \<Rightarrow> bool"
  assumes version: "delivers_to e \<Longrightarrow> \<exists>r. srv e s ''VERSION\<newline>'' = (s, Read_packet r) \<and> length r < 128 \<and> NUL \<notin> set r \<and>
      strstr r ''protocol_version='' = Some (''protocol_version='' @ SOCKET_PROT_VERSION @ ''\<newline>'')"
    and granted: "grants s e nm tmo chk cid \<Longrightarrow>
      nm \<noteq> [] \<and> length nm \<le> 63 \<and> timeout_ok tmo \<and> id_ok cid \<and> delivers_to e"
    and register: "grants s e nm tmo chk cid \<Longrightarrow> \<exists>s'. srv e s (register_line nm tmo chk) =
      (s', Read_packet (''OK '' @ cid @ ''\<newline>'')) \<and> holds s' e cid \<and> leaves s' = leaves s"
    and ping: "holds s e cid \<Longrightarrow> delivers_to e \<Longrightarrow> \<exists>s'. srv e s (CMD_PING @ cid @ ''\<newline>'') =
      (s', Read_packet ''OK\<newline>'') \<and> holds s' e cid \<and> leaves s' = leaves s"
    and unregister: "holds s e cid \<Longrightarrow> leaves s e \<Longrightarrow> delivers_to e \<Longrightarrow> \<exists>s'. srv e s (CMD_UNREGISTER @ cid @ ''\<newline>'') =
      (s', Read_packet ''OK\<newline>'') \<and> \<not> holds s' e cid"
    and holds_id: "holds s e cid \<Longrightarrow> id_ok cid"
    and holds_peer: "holds s e cid \<Longrightarrow> peer e e' \<Longrightarrow> holds s e' cid"
    and leaves_peer: "peer e e' \<Longrightarrow> leaves s e' = leaves s e"
    and peer_sym: "peer e e' \<Longrightarrow> peer e' e"
begin

lemma check_prot_version:
  assumes "delivers_to e" "net_up n" "cl_socket_path c \<noteq> []"
  shows "\<exists>c'. wd_client_check_prot_version (srv e) n c s = (s, WD_CLIENT_OK, c') \<and>
    cl_name c' = cl_name c \<and> cl_socket_path c' = cl_socket_path c"
proof -
  obtain r where r: "srv e s ''VERSION\<newline>'' = (s, Read_packet r)" "length r < 128" "NUL \<notin> set r"
    "strstr r ''protocol_version='' = Some (''protocol_version='' @ SOCKET_PROT_VERSION @ ''\<newline>'')"
    using version [OF assms(1)] by blast
  then have "r \<noteq> []" by auto
  with r assms(2) have "transact (srv e) n ''VERSION\<newline>'' 128 s = Some (s, int (length r), r)"
    by (intro transact_up) simp_all
  with r(4) \<open>r \<noteq> []\<close> assms show ?thesis
    by (simp add: wd_client_check_prot_version_def connect_up strncmp_eq_def SOCKET_PROT_VERSION_def Let_def)
qed

lemma register_ok:
  assumes "grants s e (cl_name c) tmo (\<not> ign) cid" "net_up n1" "net_up n2" "cl_socket_path c \<noteq> []"
  shows "\<exists>s' c'. wd_client_register (srv e) n1 n2 c tmo ign s = (s', WD_CLIENT_OK, c') \<and>
    cl_clientID c' = cid \<and> cl_socket_path c' = cl_socket_path c \<and> holds s' e cid \<and> leaves s' = leaves s \<and>
    s' = fst (srv e s (register_line (cl_name c) tmo (\<not> ign)))"
proof -
  from granted [OF assms(1)] have g: "cl_name c \<noteq> []" "length (cl_name c) \<le> 63" "timeout_ok tmo" "delivers_to e"
    and len: "length cid = 16" and cid: "NUL \<notin> set cid"
    by (auto simp: id_ok_def list_all_iff isxdigit_def isdigit_def NUL_def)
  obtain c1 where c1: "wd_client_check_prot_version (srv e) n1 c s = (s, WD_CLIENT_OK, c1)" "cl_socket_path c1 = cl_socket_path c"
    using check_prot_version [OF g(4) assms(2,4)] by blast
  obtain s' where s': "srv e s (register_line (cl_name c) tmo (\<not> ign)) = (s', Read_packet (''OK '' @ cid @ ''\<newline>''))"
    "holds s' e cid" "leaves s' = leaves s" using register [OF assms(1)] by blast
  have "length (show_u32 tmo) \<le> 6"
    using g(3) length_show_nat [of "unat tmo" 6]
    by (simp add: show_u32_def timeout_ok_def WD_CLIENT_TIMEOUT_MAX_MS_def word_le_nat_alt)
  with g(2) have "length (register_line (cl_name c) tmo (\<not> ign)) \<le> 127"
    by (cases ign) (simp_all add: register_line_def CMD_REGISTER_def)
  then have "snprintf 128 (register_line (cl_name c) tmo (\<not> ign)) = register_line (cl_name c) tmo (\<not> ign)"
    by (simp add: snprintf_def)
  moreover have "transact (srv e) n2 (register_line (cl_name c) tmo (\<not> ign)) 128 s =
      Some (s', int (length (''OK '' @ cid @ ''\<newline>'')), ''OK '' @ cid @ ''\<newline>'')"
    using s'(1) assms(3) len cid by (intro transact_up) (simp_all add: NUL_def)
  ultimately show ?thesis
    using g(1,3) c1 s' assms(3,4) len
    by (simp add: wd_client_register_def connect_up timeout_ok_iff strncmp_eq_def strncpy_def WD_CLIENTID_LEN_def Let_def)
qed

lemma ping_ok:
  assumes "holds s e (cl_clientID c)" "delivers_to e" "net_up n" "cl_socket_path c \<noteq> []"
  shows "\<exists>s' c'. wd_client_ping (srv e) n c s = (s', WD_CLIENT_OK, c') \<and> cl_clientID c' = cl_clientID c \<and>
    cl_socket_path c' = cl_socket_path c \<and> holds s' e (cl_clientID c) \<and> leaves s' = leaves s \<and>
    s' = fst (srv e s (CMD_PING @ cl_clientID c @ ''\<newline>''))"
proof -
  have "length (cl_clientID c) = 16" using holds_id [OF assms(1)] by (simp add: id_ok_def)
  then have cmd: "snprintf 64 (CMD_PING @ cl_clientID c @ ''\<newline>'') = CMD_PING @ cl_clientID c @ ''\<newline>''"
    and ne: "cl_clientID c \<noteq> []" by (auto simp: snprintf_def CMD_PING_def)
  obtain s' where s': "srv e s (CMD_PING @ cl_clientID c @ ''\<newline>'') = (s', Read_packet ''OK\<newline>'')"
    "holds s' e (cl_clientID c)" "leaves s' = leaves s" using ping [OF assms(1,2)] by blast
  then have "transact (srv e) n (CMD_PING @ cl_clientID c @ ''\<newline>'') 64 s = Some (s', int (length ''OK\<newline>''), ''OK\<newline>'')"
    using assms(3) by (intro transact_up) (simp_all add: NUL_def)
  with cmd ne s' assms(3,4) show ?thesis
    by (simp add: wd_client_ping_def connect_up strncmp_eq_def)
qed

lemma pings_ok:
  assumes "holds s e (cl_clientID c)" "cl_socket_path c \<noteq> []" "list_all (\<lambda>(n, e'). net_up n \<and> peer e e' \<and> delivers_to e') xs"
  shows "\<exists>s' c'. pings srv xs c s = (s', replicate (length xs) WD_CLIENT_OK, c') \<and> cl_clientID c' = cl_clientID c \<and>
    cl_socket_path c' = cl_socket_path c \<and> holds s' e (cl_clientID c) \<and> leaves s' = leaves s"
  using assms
proof (induction xs arbitrary: s c)
  case Nil
  then show ?case by simp
next
  case (Cons x xs)
  obtain n e' where x: "x = (n, e')" by (cases x)
  with Cons.prems have up: "net_up n" "peer e e'" "delivers_to e'" by simp_all
  from ping_ok [OF holds_peer [OF Cons.prems(1) up(2)] up(3,1) Cons.prems(2)] obtain s1 c1 where
    p: "wd_client_ping (srv e') n c s = (s1, WD_CLIENT_OK, c1)" "cl_clientID c1 = cl_clientID c"
      "cl_socket_path c1 = cl_socket_path c" "holds s1 e' (cl_clientID c)" "leaves s1 = leaves s" by blast
  have "holds s1 e (cl_clientID c1)" using p holds_peer peer_sym [OF up(2)] by metis
  from Cons.IH [OF this] p Cons.prems x show ?case by auto
qed

lemma unregister_ok:
  assumes "holds s e (cl_clientID c)" "leaves s e" "delivers_to e" "net_up n" "cl_socket_path c \<noteq> []"
  shows "\<exists>s' c'. wd_client_unregister (srv e) n c s = (s', WD_CLIENT_OK, c') \<and> \<not> holds s' e (cl_clientID c) \<and>
    s' = fst (srv e s (CMD_UNREGISTER @ cl_clientID c @ ''\<newline>''))"
proof -
  have "length (cl_clientID c) = 16" using holds_id [OF assms(1)] by (simp add: id_ok_def)
  then have cmd: "snprintf 64 (CMD_UNREGISTER @ cl_clientID c @ ''\<newline>'') = CMD_UNREGISTER @ cl_clientID c @ ''\<newline>''"
    and ne: "cl_clientID c \<noteq> []" by (auto simp: snprintf_def CMD_UNREGISTER_def)
  obtain s' where s': "srv e s (CMD_UNREGISTER @ cl_clientID c @ ''\<newline>'') = (s', Read_packet ''OK\<newline>'')"
    "\<not> holds s' e (cl_clientID c)" using unregister [OF assms(1-3)] by blast
  then have "transact (srv e) n (CMD_UNREGISTER @ cl_clientID c @ ''\<newline>'') 64 s = Some (s', int (length ''OK\<newline>''), ''OK\<newline>'')"
    using assms(4) by (intro transact_up) (simp_all add: NUL_def)
  with cmd ne s' assms(4,5) show ?thesis
    by (simp add: wd_client_unregister_def connect_up strncmp_eq_def)
qed

text \<open>A whole session.\<close>

lemma session:
  assumes "grants s e (cl_name c) tmo (\<not> ign) cid" "leaves s e" "cl_socket_path c \<noteq> []"
    and "net_up n1" "net_up n2" "list_all (\<lambda>(n, e'). net_up n \<and> peer e e' \<and> delivers_to e') xs"
    and "net_up n3" "peer e e3" "delivers_to e3"
  shows "\<exists>s1 c1 s2 c2 s3 c3.
    wd_client_register (srv e) n1 n2 c tmo ign s = (s1, WD_CLIENT_OK, c1) \<and> cl_clientID c1 = cid \<and>
    pings srv xs c1 s1 = (s2, replicate (length xs) WD_CLIENT_OK, c2) \<and>
    wd_client_unregister (srv e3) n3 c2 s2 = (s3, WD_CLIENT_OK, c3) \<and> \<not> holds s3 e3 cid"
proof -
  obtain s1 c1 where r: "wd_client_register (srv e) n1 n2 c tmo ign s = (s1, WD_CLIENT_OK, c1)" "cl_clientID c1 = cid"
    "cl_socket_path c1 = cl_socket_path c" "holds s1 e cid" "leaves s1 = leaves s"
    using register_ok [OF assms(1,4,5,3)] by blast
  obtain s2 c2 where p: "pings srv xs c1 s1 = (s2, replicate (length xs) WD_CLIENT_OK, c2)" "cl_clientID c2 = cid"
    "cl_socket_path c2 = cl_socket_path c" "holds s2 e cid" "leaves s2 = leaves s"
    using pings_ok [of s1 e c1 xs] r assms(3,6) by auto
  have "leaves s2 e3" using p(5) assms(2,8) leaves_peer by metis
  then obtain s3 c3 where "wd_client_unregister (srv e3) n3 c2 s2 = (s3, WD_CLIENT_OK, c3)" "\<not> holds s3 e3 cid"
    using unregister_ok [of s2 e3 c2 n3] holds_peer [OF p(4) assms(8)] assms(3,7,9) p(2,3) by auto
  with r p show ?thesis by blast
qed

end

end
