(* ===== verification/Client_Broker.thy ===== *)
theory Client_Broker
  imports Client_Service Status_Report
begin

text \<open>
  libwd-client against the broker: handle_command is the server behind the socket. The contract of
  the library is discharged for it, so the session lemmas hold of the two programs together.
\<close>

section \<open>The broker as a server\<close>

text \<open>
  One connection: the conditions \<open>k\<close> under which the broker handles it, with the packet the client
  sent. No reply (the broker's write failed) is the end of file for the client.
\<close>

definition with_packet :: "string \<Rightarrow> conn \<Rightarrow> conn" where
  "with_packet p k = k\<lparr>rd_select := Select_ready, rd_packet := Read_packet p\<rparr>"

definition broker_server :: "build_config \<Rightarrow> conn \<Rightarrow> broker server" where
  "broker_server bc k b p =
     (case handle_command bc (with_packet p k) b of
        (b', es) \<Rightarrow> (b', Read_packet (case replies es of [] \<Rightarrow> [] | r # _ \<Rightarrow> r)))"

lemma with_packet_simps [simp]:
  "peercred (with_packet p k) = peercred k" "now (with_packet p k) = now k" "rnd (with_packet p k) = rnd k"
  "reply_ok (with_packet p k) = reply_ok k"
  by (simp_all add: with_packet_def)

lemma delivers_with_packet:
  "peercred k = Some cr \<Longrightarrow> p \<noteq> [] \<Longrightarrow> length p < 128 \<Longrightarrow> NUL \<notin> set p \<Longrightarrow> delivers (with_packet p k) cr p"
  by (simp add: delivers_def with_packet_def)

definition version_ok :: "build_config \<Rightarrow> bool" where
  "version_ok bc \<longleftrightarrow> length (PACKAGE_VERSION bc) \<le> 32 \<and> CHR ''p'' \<notin> set (PACKAGE_VERSION bc) \<and> NUL \<notin> set (PACKAGE_VERSION bc)"

definition reachable_peer :: "build_config \<Rightarrow> conn \<Rightarrow> bool" where
  "reachable_peer bc k \<longleftrightarrow> reply_ok k \<and> peercred k \<noteq> None \<and> version_ok bc"

definition broker_grants :: "build_config \<Rightarrow> broker \<Rightarrow> conn \<Rightarrow> string \<Rightarrow> u32 \<Rightarrow> bool \<Rightarrow> string \<Rightarrow> bool" where
  "broker_grants bc b k nm tmo chk cid \<longleftrightarrow>
     reachable_peer bc k \<and> broker_ok bc b \<and> ids_ok (clients b) \<and> fresh_id k b \<and>
     word_ok nm \<and> length nm \<le> 63 \<and> list_all isprint nm \<and> timeout_ok tmo \<and>
     (\<exists>i. slot_for (config b) (clients b) nm = Some i \<and>
        cid = (if anounced (clients b ! i) then clientID (clients b ! i) else make_clientID (rnd k)))"

definition broker_holds :: "build_config \<Rightarrow> broker \<Rightarrow> conn \<Rightarrow> string \<Rightarrow> bool" where
  "broker_holds bc b k cid \<longleftrightarrow>
     broker_ok bc b \<and> ids_ok (clients b) \<and>
     (\<exists>cr i. peercred k = Some cr \<and> i < length (clients b) \<and> live (clients b ! i) \<and>
        clientID (clients b ! i) = cid \<and> owns cr (clients b ! i))"

definition broker_leaves :: "broker \<Rightarrow> conn \<Rightarrow> bool" where
  "broker_leaves b k \<longleftrightarrow> (\<exists>cr. peercred k = Some cr \<and> (strict_clients (config b) \<longrightarrow> cr_uid cr = 0))"

definition same_peer :: "conn \<Rightarrow> conn \<Rightarrow> bool" where
  "same_peer k k' \<longleftrightarrow> peercred k = peercred k'"

section \<open>The contract holds\<close>

lemma strstr_skip: "pat \<noteq> [] \<Longrightarrow> hd pat \<notin> set xs \<Longrightarrow> strstr (xs @ s) pat = strstr s pat"
  by (induction xs) (auto simp: neq_Nil_conv)

lemma broker_version:
  assumes "reachable_peer bc k"
  shows "\<exists>r. broker_server bc k b ''VERSION\<newline>'' = (b, Read_packet r) \<and> length r < 128 \<and> NUL \<notin> set r \<and>
    strstr r ''protocol_version='' = Some (''protocol_version='' @ SOCKET_PROT_VERSION @ ''\<newline>'')"
proof -
  let ?k = "with_packet ''VERSION\<newline>'' k"
  let ?ps = "[''wd-broker_version='' @ PACKAGE_VERSION bc @ ''\<newline>'', ''protocol_version='' @ SOCKET_PROT_VERSION @ ''\<newline>'']"
  from assms obtain cr where cr: "peercred k = Some cr" and v: "version_ok bc" and ok: "reply_ok k"
    by (auto simp: reachable_peer_def)
  have "delivers ?k cr (CMD_VERSION @ ''\<newline>'')"
    using delivers_with_packet [OF cr, of "''VERSION\<newline>''"] by (simp add: CMD_VERSION_def NUL_def)
  from handle_command_delivers [OF this, of bc b]
  have "handle_command bc ?k b = handle_version bc ?k (CMD_VERSION @ ''\<newline>'') b" by (simp add: dispatch_cmd)
  moreover have "length (concat ?ps) < 128" using v by (simp add: version_ok_def SOCKET_PROT_VERSION_def)
  with ok have "write_pieces ?k 128 ?ps = [Reply (concat ?ps)]" by (intro write_pieces_fits) simp_all
  ultimately have "handle_command bc ?k b = (b, [Reply (concat ?ps)])"
    by (simp add: handle_version_def has_extra_tokens tokens_blank)
  moreover have "strstr (concat ?ps) ''protocol_version='' = Some (''protocol_version='' @ SOCKET_PROT_VERSION @ ''\<newline>'')"
    using v strstr_skip [of "''protocol_version=''" "''wd-broker_version='' @ PACKAGE_VERSION bc @ ''\<newline>''"]
    by (simp add: version_ok_def)
  moreover have "NUL \<notin> set (concat ?ps)" using v by (auto simp: version_ok_def NUL_def SOCKET_PROT_VERSION_def)
  ultimately show ?thesis
    using \<open>length (concat ?ps) < 128\<close> by (intro exI [of _ "concat ?ps"]) (simp add: broker_server_def del: strstr.simps)
qed

lemma broker_register_effect:
  assumes "broker_grants bc b k nm tmo chk cid"
  obtains cr i where "peercred k = Some cr" "slot_for (config b) (clients b) nm = Some i"
    "broker_server bc k b (register_line nm tmo chk) =
      (b\<lparr>clients := upd_at i (register_slot k cr nm tmo chk) (clients b)\<rparr>, Read_packet (''OK '' @ cid @ ''\<newline>''))"
    "clientID (register_slot k cr nm tmo chk (clients b ! i)) = cid"
proof -
  let ?p = "register_line nm tmo chk"
  let ?k = "with_packet ?p k"
  from assms obtain cr i where cr: "peercred k = Some cr" "reply_ok k"
    and nm: "word_ok nm" "length nm \<le> 63" "list_all isprint nm" "timeout_ok tmo"
    and i: "slot_for (config b) (clients b) nm = Some i"
    and cid: "cid = (if anounced (clients b ! i) then clientID (clients b ! i) else make_clientID (rnd k))"
    by (auto simp: broker_grants_def reachable_peer_def)
  have slot_k: "register_slot ?k = register_slot k" by (simp add: register_slot_def fun_eq_iff)
  have nul: "NUL \<notin> set ?p"
    using nm(3) show_nat_digits [of NUL "unat tmo"]
    by (auto simp: register_line_def CMD_REGISTER_def NUL_def show_u32_def list_all_iff isprint_def isdigit_def)
  have "length ?p < 128"
    using nm(2) length_show_timeout(1) [OF nm(4)] by (cases chk) (simp_all add: register_line_def CMD_REGISTER_def)
  then have "delivers ?k cr ?p" using delivers_with_packet [OF cr(1) _ _ nul] by (simp add: register_line_def CMD_REGISTER_def)
  from register_line_effect [OF this _ nm, where b = b and bc = bc] i cr(2)
  have b': "fst (handle_command bc ?k b) = b\<lparr>clients := upd_at i (register_slot k cr nm tmo chk) (clients b)\<rparr>"
    and r: "replies (snd (handle_command bc ?k b)) = [''OK '' @ clientID (clients (fst (handle_command bc ?k b)) ! i) @ ''\<newline>'']"
    by (simp_all add: slot_k)
  have id: "clientID (register_slot k cr nm tmo chk (clients b ! i)) = cid" using cid by (simp add: register_slot_def)
  with r b' slot_forD(1) [OF i] show thesis
    by (intro that [OF cr(1) i _ id]) (simp add: broker_server_def split_beta)
qed

lemma broker_register:
  assumes "broker_grants bc b k nm tmo chk cid"
  shows "\<exists>b'. broker_server bc k b (register_line nm tmo chk) = (b', Read_packet (''OK '' @ cid @ ''\<newline>'')) \<and>
    broker_holds bc b' k cid \<and> broker_leaves b' = broker_leaves b"
proof -
  from assms obtain cr i where cr: "peercred k = Some cr" and i: "slot_for (config b) (clients b) nm = Some i"
    and b': "broker_server bc k b (register_line nm tmo chk) =
      (b\<lparr>clients := upd_at i (register_slot k cr nm tmo chk) (clients b)\<rparr>, Read_packet (''OK '' @ cid @ ''\<newline>''))"
    and id: "clientID (register_slot k cr nm tmo chk (clients b ! i)) = cid" by (rule broker_register_effect)
  let ?b = "b\<lparr>clients := upd_at i (register_slot k cr nm tmo chk) (clients b)\<rparr>"
  note slot = slot_forD(1,2) [OF i]
  have "broker_ok bc ?b"
    using commands.step_inv [of bc b] b' assms by (auto simp: broker_server_def broker_grants_def split: prod.splits) (metis fst_conv)
  moreover have "ids_ok (clients ?b)" using ids_ok_register [OF _ slot, of k] assms by (simp add: broker_grants_def)
  ultimately have "broker_holds bc ?b k cid"
    unfolding broker_holds_def using cr slot id by (intro conjI exI [of _ cr] exI [of _ i]) (simp_all add: owns_def)
  moreover have "broker_leaves ?b = broker_leaves b" by (simp add: broker_leaves_def fun_eq_iff)
  ultimately show ?thesis using b' by simp
qed

lemma ids_ok_ping:
  assumes "ids_ok cs" "i < length cs"
  shows "ids_ok (upd_at i (\<lambda>c. c\<lparr>last_ping := t\<rparr>) cs)"
  using assms unfolding ids_ok_def live_ids_def
  by (auto simp: map_filter_upd_at_same live_def intro!: list_all_upd_at) (auto simp: list_all_length)

lemma delivers_id:
  assumes "id_ok cid" "peercred k = Some cr" "NUL \<notin> set cmd" "length cmd < 100"
  shows "delivers (with_packet (cmd @ cid @ ''\<newline>'') k) cr (cmd @ cid @ ''\<newline>'')"
  using assms by (intro delivers_with_packet)
    (auto simp: id_ok_def NUL_def list_all_iff isxdigit_def isdigit_def)

text \<open>The slot a peer holds, and what the two commands do to it.\<close>

lemma broker_holdsE:
  assumes "broker_holds bc b k cid"
  obtains cr i where "broker_ok bc b" "ids_ok (clients b)" "peercred k = Some cr" "i < length (clients b)"
    "live (clients b ! i)" "clientID (clients b ! i) = cid" "owns cr (clients b ! i)" "id_ok cid"
proof -
  from assms obtain cr i where h: "broker_ok bc b" "ids_ok (clients b)" "peercred k = Some cr" "i < length (clients b)"
    "live (clients b ! i)" "clientID (clients b ! i) = cid" "owns cr (clients b ! i)"
    by (auto simp: broker_holds_def)
  moreover have "id_ok cid"
    using h table_ok_nth [of "config b" "clients b" i] by (auto simp: broker_ok_def client_ok_def)
  ultimately show thesis by (rule that)
qed

lemma broker_ping_effect:
  assumes "reachable_peer bc k" "ids_ok (clients b)" "peercred k = Some cr" "i < length (clients b)"
    "live (clients b ! i)" "clientID (clients b ! i) = cid" "owns cr (clients b ! i)" "id_ok cid"
  shows "broker_server bc k b (CMD_PING @ cid @ ''\<newline>'') =
    (b\<lparr>clients := upd_at i (\<lambda>c. c\<lparr>last_ping := now k\<rparr>) (clients b)\<rparr>, Read_packet ''OK\<newline>'')"
proof -
  let ?k = "with_packet (CMD_PING @ cid @ ''\<newline>'') k"
  have "delivers ?k cr (CMD_PING @ cid @ ''\<newline>'')"
    using assms(3,8) by (intro delivers_id) (simp_all add: CMD_PING_def NUL_def)
  from ping_line_reply [OF this _ assms(2,4-6,8,7), of bc] assms(1) show ?thesis
    by (simp add: broker_server_def reachable_peer_def)
qed

lemma broker_ping:
  assumes "broker_holds bc b k cid" "reachable_peer bc k"
  shows "\<exists>b'. broker_server bc k b (CMD_PING @ cid @ ''\<newline>'') = (b', Read_packet ''OK\<newline>'') \<and>
    broker_holds bc b' k cid \<and> broker_leaves b' = broker_leaves b"
  using assms(1)
proof (rule broker_holdsE)
  fix cr i
  assume ok: "broker_ok bc b" "ids_ok (clients b)" and i: "peercred k = Some cr" "i < length (clients b)"
    "live (clients b ! i)" "clientID (clients b ! i) = cid" "owns cr (clients b ! i)" "id_ok cid"
  let ?b = "b\<lparr>clients := upd_at i (\<lambda>c. c\<lparr>last_ping := now k\<rparr>) (clients b)\<rparr>"
  note eff = broker_ping_effect [OF assms(2) ok(2) i]
  have "broker_ok bc ?b"
    using commands.step_inv [OF ok(1)] eff by (auto simp: broker_server_def split: prod.splits) (metis fst_conv)
  then have "broker_holds bc ?b k cid"
    unfolding broker_holds_def using i ok(2)
    by (intro conjI exI [of _ cr] exI [of _ i]) (simp_all add: ids_ok_ping live_def owns_def)
  then show ?thesis using eff by (simp add: broker_leaves_def fun_eq_iff)
qed

lemma broker_unregister_effect:
  assumes "reachable_peer bc k" "ids_ok (clients b)" "peercred k = Some cr" "i < length (clients b)"
    "live (clients b ! i)" "clientID (clients b ! i) = cid" "owns cr (clients b ! i)" "id_ok cid" "broker_leaves b k"
  shows "broker_server bc k b (CMD_UNREGISTER @ cid @ ''\<newline>'') =
    (b\<lparr>clients := upd_at i release_slot (clients b)\<rparr>, Read_packet ''OK\<newline>'')"
proof -
  let ?k = "with_packet (CMD_UNREGISTER @ cid @ ''\<newline>'') k"
  have "delivers ?k cr (CMD_UNREGISTER @ cid @ ''\<newline>'')"
    using assms(3,8) by (intro delivers_id) (simp_all add: CMD_UNREGISTER_def NUL_def)
  moreover have "index_of (clients b) cid = Some i" using assms(4-6) by (simp add: index_of_iff [OF assms(2)])
  moreover have "clientID_arg (cid @ ''\<newline>'') = Inr cid" using assms(8) by (intro clientID_arg_id) simp_all
  ultimately have "fst (handle_command bc ?k b) = b\<lparr>clients := upd_at i release_slot (clients b)\<rparr>"
    and "replies (snd (handle_command bc ?k b)) = [''OK\<newline>'']"
    using assms(1,3,7-9) by (auto simp: handle_command_delivers dispatch_cmd handle_unregister_def parse_clientID_arg
        by_clientID_registry [OF assms(2)] id_ok_def owns_def broker_leaves_def reachable_peer_def Let_def write_str_def)
  then show ?thesis by (simp add: broker_server_def split_beta)
qed

lemma broker_unregister:
  assumes "broker_holds bc b k cid" "broker_leaves b k" "reachable_peer bc k"
  shows "\<exists>b'. broker_server bc k b (CMD_UNREGISTER @ cid @ ''\<newline>'') = (b', Read_packet ''OK\<newline>'') \<and>
    \<not> broker_holds bc b' k cid"
  using assms(1)
proof (rule broker_holdsE)
  fix cr i
  assume ok: "broker_ok bc b" "ids_ok (clients b)" and i: "peercred k = Some cr" "i < length (clients b)"
    "live (clients b ! i)" "clientID (clients b ! i) = cid" "owns cr (clients b ! i)" "id_ok cid"
  have "\<not> broker_holds bc (b\<lparr>clients := upd_at i release_slot (clients b)\<rparr>) k cid"
  proof
    assume "broker_holds bc (b\<lparr>clients := upd_at i release_slot (clients b)\<rparr>) k cid"
    then obtain j where j: "j < length (clients b)" "live (upd_at i release_slot (clients b) ! j)"
      "clientID (upd_at i release_slot (clients b) ! j) = cid"
      by (auto simp: broker_holds_def)
    then have "j \<noteq> i" by auto
    with j i ok(2) distinct_map_filterD [of clientID live "clients b" j i] show False
      by (auto simp: ids_ok_def live_ids_def)
  qed
  with broker_unregister_effect [OF assms(3) ok(2) i assms(2)] show ?thesis by simp
qed

interpretation service: watchdog_service "broker_server bc" "reachable_peer bc" same_peer "broker_grants bc"
    "broker_holds bc" broker_leaves for bc
proof
  show "broker_grants bc s e nm tmo chk cid \<Longrightarrow>
      nm \<noteq> [] \<and> length nm \<le> 63 \<and> timeout_ok tmo \<and> id_ok cid \<and> reachable_peer bc e" for s e nm tmo chk cid
    using table_ok_nth [of "config s" "clients s"] slot_forD(1) [of "config s" "clients s" nm] id_ok_make_clientID
    by (auto simp: broker_grants_def word_ok_def broker_ok_def client_ok_def live_def)
  show "broker_holds bc s e cid \<Longrightarrow> id_ok cid" for s e cid
    using table_ok_nth [of "config s" "clients s"] by (auto simp: broker_holds_def broker_ok_def client_ok_def)
qed (simp_all only: broker_version broker_register broker_ping broker_unregister,
     auto simp: broker_holds_def broker_leaves_def same_peer_def)

section \<open>Properties\<close>

definition sample_net :: net where
  "sample_net = \<lparr>socket_ok = True, connect_ok = True, write_ok = True, epipe = False, wait = Select_ready, net_err = []\<rparr>"

definition sample_lib :: "string \<Rightarrow> string \<Rightarrow> wd_client_t" where
  "sample_lib nm cid = \<lparr>cl_socket_path = ''/run/wd-broker.sock'', cl_name = nm, cl_clientID = cid, cl_status = []\<rparr>"

text \<open>
  C10. A client's life against the broker: when the broker has a slot for the (printable, blank-free)
  name, the random identifier it draws is not in use, the connections work, and the peer may leave,
  that is, clients are not strict or the peer is root, then wd_client_register succeeds and stores the
  identifier the broker assigned; every wd_client_ping of the same process then succeeds, any number
  of times; and wd_client_unregister succeeds and leaves no live client under that identifier that the
  process could still ping.
\<close>

theorem library_session:
  assumes "broker_grants bc b k (cl_name c) tmo (\<not> ign) cid" "broker_leaves b k" "cl_socket_path c \<noteq> []"
    and "net_up n1" "net_up n2" "list_all (\<lambda>(n, k'). net_up n \<and> same_peer k k' \<and> reachable_peer bc k') xs"
    and "net_up n3" "same_peer k k3" "reachable_peer bc k3"
  shows "\<exists>b1 c1 b2 c2 b3 c3.
    wd_client_register (broker_server bc k) n1 n2 c tmo ign b = (b1, WD_CLIENT_OK, c1) \<and> cl_clientID c1 = cid \<and>
    pings (broker_server bc) xs c1 b1 = (b2, replicate (length xs) WD_CLIENT_OK, c2) \<and>
    wd_client_unregister (broker_server bc k3) n3 c2 b2 = (b3, WD_CLIENT_OK, c3) \<and> \<not> broker_holds bc b3 k3 cid"
  using assms by (rule service.session)

theorem library_session_witness:
  "\<exists>b1 c1. wd_client_register (broker_server sample_build (sample_conn 7 1000 [])) sample_net sample_net
     (sample_lib ''gamma'' []) 6000 False (sample_broker False True) = (b1, WD_CLIENT_OK, c1) \<and>
     cl_clientID c1 = ''01020304fa060708''"
proof -
  let ?k = "sample_conn 7 1000 []" and ?b = "sample_broker False True" and ?c = "sample_lib ''gamma'' []"
  have ok: "ids_ok (clients ?b)" "fresh_id ?k ?b" "word_ok ''gamma''" "length ''gamma'' \<le> 63" "list_all isprint ''gamma''"
    "timeout_ok 6000" "slot_for (config ?b) (clients ?b) ''gamma'' = Some 2" "version_ok sample_build"
    "''01020304fa060708'' = (if anounced (clients ?b ! 2) then clientID (clients ?b ! 2) else make_clientID (rnd ?k))"
    by code_simp+
  have peer: "reachable_peer sample_build ?k" using ok(8) by (simp add: reachable_peer_def sample_conn_def)
  have "broker_grants sample_build ?b ?k ''gamma'' 6000 True ''01020304fa060708''"
    unfolding broker_grants_def using peer sample_broker_ok ok by blast
  moreover have "broker_leaves ?b ?k" by (simp add: broker_leaves_def sample_conn_def sample_broker_def sample_config_def)
  moreover have "net_up sample_net" "same_peer ?k ?k" "cl_socket_path ?c \<noteq> []" "cl_name ?c = ''gamma''"
    by (simp_all add: net_up_def sample_net_def same_peer_def sample_lib_def)
  ultimately show ?thesis
    using library_session [of sample_build ?b ?k ?c 6000 False "''01020304fa060708''" sample_net sample_net "[]" sample_net ?k] peer
    by auto
qed

text \<open>
  C36. A broker whose protocol version differs from ours within our version's own characters is never
  registered with: if the answer to VERSION names a version that does not start with 1.0,
  wd_client_register returns WD_CLIENT_EVERSION, no REGISTER is
  sent (the server has seen the VERSION command only) and the client keeps its identifier.
\<close>

theorem version_mismatch_prevents_registration:
  assumes "net_up n1" "cl_socket_path c \<noteq> []" "cl_name c \<noteq> []" "timeout_ok tmo"
    and "srv s ''VERSION\<newline>'' = (s', Read_packet r)" "r \<noteq> []" "length r < 128" "NUL \<notin> set r"
    and "strstr r ''protocol_version='' = Some (''protocol_version='' @ v)" "take 3 v \<noteq> SOCKET_PROT_VERSION"
  shows "\<exists>c'. wd_client_register srv n1 n2 c tmo ign s = (s', WD_CLIENT_EVERSION, c') \<and> cl_clientID c' = cl_clientID c"
proof -
  have "transact srv n1 ''VERSION\<newline>'' 128 s = Some (s', int (length r), r)"
    using assms by (intro transact_up)
  moreover have "\<not> strncmp_eq v SOCKET_PROT_VERSION (length SOCKET_PROT_VERSION)"
    using assms(10) by (simp add: strncmp_eq_def SOCKET_PROT_VERSION_def numeral_3_eq_3)
  ultimately obtain c1 where "wd_client_check_prot_version srv n1 c s = (s', WD_CLIENT_EVERSION, c1)" "cl_clientID c1 = cl_clientID c"
    using assms by (simp add: wd_client_check_prot_version_def connect_up Let_def)
  with assms(3,4) show ?thesis
    by (simp add: wd_client_register_def timeout_ok_iff return_codes)
qed

theorem version_mismatch_prevents_registration_witness:
  "\<exists>c'. wd_client_register (\<lambda>s p. (s @ [p], Read_packet ''protocol_version=2.0\<newline>'')) sample_net sample_net
     (sample_lib ''a'' []) 6000 False [] = ([''VERSION\<newline>''], WD_CLIENT_EVERSION, c')"
proof -
  have "strstr ''protocol_version=2.0\<newline>'' ''protocol_version='' = Some (''protocol_version='' @ ''2.0\<newline>'')"
    "timeout_ok 6000" by code_simp+
  then show ?thesis
    using version_mismatch_prevents_registration [of sample_net "sample_lib ''a'' []" 6000
        "\<lambda>s p. (s @ [p], Read_packet ''protocol_version=2.0\<newline>'')" "[]" "[''VERSION\<newline>'']" "''protocol_version=2.0\<newline>''" "''2.0\<newline>''"]
    by (auto simp: net_up_def sample_net_def sample_lib_def NUL_def SOCKET_PROT_VERSION_def)
qed

text \<open>Under strict clients an unprivileged peer does not get away: its unregistration is refused.\<close>

lemma strict_peer_cannot_leave:
  "wd_client_unregister (broker_server sample_build (sample_conn 4711 1000 [])) sample_net
     (sample_lib ''beta'' ''00000000000000bb'') (sample_broker True False) =
   (sample_broker True False, WD_CLIENT_ERR,
    WD_SET_STATUS (sample_lib ''beta'' ''00000000000000bb'') ''UNREGISTER failed at wd-broker: ERROR rejected\<newline>'')"
  by code_simp

text \<open>The comparison is one of prefixes: a server of version 1.05 is registered with.\<close>

lemma longer_version_is_accepted:
  "fst (snd (wd_client_register
     (\<lambda>s p. (s @ [p], Read_packet (if s = [] then ''protocol_version=1.05\<newline>'' else ''OK 00000000000000aa\<newline>'')))
     sample_net sample_net (sample_lib ''a'' []) 6000 False [])) = WD_CLIENT_OK"
  by code_simp

end
