(* ===== verification/Ctrl_Broker.thy ===== *)
theory Ctrl_Broker
  imports Wd_Ctrl Client_Broker
begin

text \<open>
  wd-ctrl against the broker: the rows of the status report are read back as they were printed, a
  client is found by its name or identifier, and \<open>wd-ctrl unregister\<close> and \<open>wd-ctrl reboot\<close> have their
  effect on the broker's state.
\<close>

section \<open>Rows\<close>

definition check_digit :: "bool \<Rightarrow> int" where
  "check_digit b = (if b then 1 else 0)"

text \<open>A status line without its line end.\<close>

definition row :: "client_t \<Rightarrow> string" where
  "row c = clientID c @ CHR '' '' # show_int (pid c) @ CHR '' '' # name c @ CHR '' '' # show_u32 (timeout_ms c) @
     CHR '' '' # show_int (check_digit (checkPID c)) @ []"

lemma status_line_row: "status_line c = row c @ [CHR 0x0A]"
proof -
  have "show_int 1 = ''1''" "show_int 0 = ''0''" by code_simp+
  then have "show_int (check_digit b) = (if b then ''1'' else ''0'')" for b by (simp add: check_digit_def)
  then show ?thesis by (simp add: status_line_def row_def)
qed

definition row_ok :: "client_t \<Rightarrow> bool" where
  "row_ok c \<longleftrightarrow> id_ok (clientID c) \<and> pid_ok c \<and> word_ok (name c) \<and> length (name c) \<le> 63"

lemma scan_row:
  assumes "row_ok c"
  shows "scan (Str 16 # Ws # Sint # Ws # Str 63 # Ws # Uint # ds) (row c) =
    apfst (\<lambda>vs. [SStr (clientID c), SInt (pid c), SStr (name c)] @ vs)
      (scan (Uint # ds) (show_u32 (timeout_ms c) @ CHR '' '' # show_int (check_digit (checkPID c)) @ []))"
proof -
  have i: "word_ok (clientID c) \<and> length (clientID c) \<le> 16" and n: "word_ok (name c) \<and> length (name c) \<le> 63"
    and p: "- (2 ^ 31) \<le> pid c \<and> pid c < 2 ^ 31"
    using assms id_ok_word [of "clientID c"] by (auto simp: row_ok_def pid_ok_def)
  show ?thesis
    unfolding row_def
    by (subst str_token.scan_then [OF i], simp, subst sint_token.scan_then [OF p], use n in simp,
        subst str_token.scan_then [OF n], simp) (simp add: apfst_def map_prod_def split: prod.splits)
qed

lemma parse_row_row:
  assumes "row_ok c"
  shows "parse_row (row c) = Some (clientID c, pid c, name c, timeout_ms c, check_digit (checkPID c))"
proof -
  have "scan (Uint # Ws # [Sint]) (show_u32 (timeout_ms c) @ CHR '' '' # show_int (check_digit (checkPID c)) @ []) =
      apfst ((#) (SUint (timeout_ms c))) (scan [Sint] (show_int (check_digit (checkPID c)) @ []))"
    by (rule uint_token.scan_then) simp_all
  moreover have "scan [Sint] (show_int (check_digit (checkPID c))) = ([SInt (check_digit (checkPID c))], False)"
    by (rule sint_token.scan_last) (simp add: check_digit_def)
  ultimately have "fst (scan ROW_FORMAT (row c)) =
      [SStr (clientID c), SInt (pid c), SStr (name c), SUint (timeout_ms c), SInt (check_digit (checkPID c))]"
    using scan_row [OF assms, of "[Ws, Sint]"] by (simp add: ROW_FORMAT_def del: scan.simps)
  then show ?thesis by (simp add: parse_row_def sscanf_values)
qed

lemma parse_candidate_row:
  assumes "row_ok c"
  shows "parse_candidate (row c) = Some (clientID c, name c)"
proof -
  have "scan (Uint # []) (show_u32 (timeout_ms c) @ CHR '' '' # show_int (check_digit (checkPID c)) @ []) =
      apfst ((#) (SUint (timeout_ms c))) (scan [] (CHR '' '' # show_int (check_digit (checkPID c)) @ []))"
    by (rule uint_token.scan_enc) simp_all
  then have "fst (scan CANDIDATE_FORMAT (row c)) = [SStr (clientID c), SInt (pid c), SStr (name c), SUint (timeout_ms c)]"
    using scan_row [OF assms, of "[]"] by (simp add: CANDIDATE_FORMAT_def del: scan.simps) simp
  then show ?thesis by (simp add: parse_candidate_def sscanf_values)
qed

section \<open>Lines of the report\<close>

lemma split_lines_nonempty [simp]: "split_lines s \<noteq> []"
  by (induction s) (auto split: list.splits)

lemma split_lines_app: "CHR 0x0A \<notin> set l \<Longrightarrow> split_lines (l @ CHR 0x0A # s) = l # split_lines s"
  by (induction l) (auto split: list.splits)

lemma split_report:
  "list_all (\<lambda>l. l \<noteq> [] \<and> CHR 0x0A \<notin> set l) ls \<Longrightarrow>
   filter (\<lambda>l. l \<noteq> []) (split_lines (concat (map (\<lambda>l. l @ [CHR 0x0A]) ls))) = ls"
  by (induction ls) (simp_all add: split_lines_app)

text \<open>A line without white space that is not too long is never taken for a client row.\<close>

lemma no_space_scan:
  assumes "list_all (\<lambda>c. \<not> isspace c) s"
  shows "dropWhile isspace s = s" "takeWhile (\<lambda>c. \<not> isspace c) s = s"
  using assms by (cases s; simp add: list_all_iff)+

lemma scan_Str_no_space:
  assumes "list_all (\<lambda>c. \<not> isspace c) s"
  shows "length (fst (scan (Str w # ds) s)) \<le> Suc (length (fst (scan ds (drop w s))))"
proof -
  have "drop (length (take w s)) s = drop w s" by (cases "length s \<le> w") simp_all
  then have "scan (Str w # ds) s = (if s = [] then ([], True) else apfst ((#) (SStr (take w s))) (scan ds (drop w s)))"
    by (simp only: scan.simps(4) Let_def no_space_scan [OF assms])
  then show ?thesis by simp
qed

lemma scan_tail_word:
  assumes "list_all (\<lambda>c. \<not> isspace c) s" "length s \<le> 63"
  shows "length (fst (scan [Ws, Str 63, Ws, Uint] s)) \<le> 1"
  using scan_Str_no_space [OF assms(1), of 63 "[Ws, Uint]"] assms no_space_scan(1) [OF assms(1)]
  by (simp del: scan.simps(4))

lemma parse_candidate_word:
  assumes "list_all (\<lambda>c. \<not> isspace c) l" "length l \<le> 79"
  shows "parse_candidate l = None"
proof -
  note nosp = no_space_scan
  let ?r = "drop 16 l"
  have r: "list_all (\<lambda>c. \<not> isspace c) ?r" "length ?r \<le> 63"
    using assms by (auto simp: list_all_iff dest: in_set_dropD)
  have sint: "length (fst (scan (Sint # [Ws, Str 63, Ws, Uint]) s)) \<le> 2"
    if "list_all (\<lambda>c. \<not> isspace c) s" "length s \<le> 63" for s
  proof -
    obtain neg u where u: "scan_sign s = (neg, u)" by (cases "scan_sign s")
    then have sub: "set u \<subseteq> set s" "length u \<le> length s"
      by (auto simp: scan_sign_def split: list.splits if_splits)
    let ?t = "drop (length (takeWhile isdigit u)) u"
    have "list_all (\<lambda>c. \<not> isspace c) ?t" "length ?t \<le> 63"
      using that sub by (auto simp: list_all_iff dest!: in_set_dropD)
    from scan_tail_word [OF this] show ?thesis
      using nosp(1) [OF that(1)] u by (simp add: Let_def del: scan.simps) (simp add: Let_def)
  qed
  have "length (fst (scan CANDIDATE_FORMAT l)) \<le> Suc (length (fst (scan [Ws, Sint, Ws, Str 63, Ws, Uint] ?r)))"
    unfolding CANDIDATE_FORMAT_def by (rule scan_Str_no_space [OF assms(1)])
  also have "scan [Ws, Sint, Ws, Str 63, Ws, Uint] ?r = scan [Sint, Ws, Str 63, Ws, Uint] ?r"
    by (simp only: scan.simps(2) nosp(1) [OF r(1)])
  finally have "length (fst (scan CANDIDATE_FORMAT l)) \<le> 3"
    using sint [OF r] by linarith
  then have "length (snd (sscanf l CANDIDATE_FORMAT)) \<le> 3" by (simp add: sscanf_def split_beta Let_def)
  then show ?thesis by (auto simp: parse_candidate_def split: list.splits scan_val.splits)
qed

section \<open>The search\<close>

lemma find_client_skip:
  "list_all (\<lambda>l. parse_candidate l = None) hs \<Longrightarrow> find_client nm (hs @ ls) acc = find_client nm ls acc"
  by (induction hs) (cases acc; simp)+

lemma find_client_by_name:
  assumes "list_all row_ok cs" "nm \<notin> clientID ` set cs"
  shows "find_client nm (map row cs) (cand, found, n) =
    (let ms = filter (\<lambda>c. name c = nm) cs
     in (if ms = [] then cand else clientID (last ms), found \<or> ms \<noteq> [], n + length ms))"
  using assms
proof (induction cs arbitrary: cand found n)
  case Nil
  then show ?case by simp
next
  case (Cons c cs)
  then have "parse_candidate (row c) = Some (clientID c, name c)" "nm \<noteq> clientID c"
    by (simp_all add: parse_candidate_row)
  with Cons show ?case by (auto simp: Let_def)
qed

lemma find_client_by_id:
  assumes "list_all row_ok cs" "c \<in> set cs" "clientID c \<notin> name ` set cs"
  shows "find_client (clientID c) (map row cs) (cand, found, n) = (clientID c, True, n)"
  using assms
proof (induction cs)
  case Nil
  then show ?case by simp
next
  case (Cons d cs)
  then have "parse_candidate (row d) = Some (clientID d, name d)" "name d \<noteq> clientID c"
    by (auto simp: parse_candidate_row)
  with Cons show ?case by auto
qed

section \<open>The report as lines\<close>

definition header_lines :: "build_config \<Rightarrow> broker \<Rightarrow> string list" where
  "header_lines bc b =
     [''daemon_version='' @ PACKAGE_VERSION bc, ''protocol_version='' @ SOCKET_PROT_VERSION,
      ''wd_timeout_s='' @ show_int (wd_timeout_s (config b)), ''reboot_timeout_s='' @ show_int (reboot_timeout_s (config b)),
      ''strict_clients='' @ (if strict_clients (config b) then ''true'' else ''false''),
      ''unique_clients='' @ (if unique_clients (config b) then ''true'' else ''false''),
      ''active_clients='' @ show_nat (length (filter active (clients b)))]"

lemma status_header_lines: "status_header bc b = map (\<lambda>l. l @ [CHR 0x0A]) (header_lines bc b)"
  by (simp add: status_header_def header_lines_def)

text \<open>
  A state whose report wd-ctrl understands: well-formed, with distinct identifiers, at most 38 live
  clients whose names are printable and free of blanks, and a printable, blank-free version of at most
  32 characters.
\<close>

definition report_ok :: "build_config \<Rightarrow> broker \<Rightarrow> bool" where
  "report_ok bc b \<longleftrightarrow> broker_ok bc b \<and> ids_ok (clients b) \<and> config_ok (config b) \<and>
     list_all (\<lambda>c. pid_ok c \<and> (live c \<longrightarrow> word_ok (name c) \<and> list_all isprint (name c))) (clients b) \<and>
     length (filter live (clients b)) \<le> 38 \<and> length (PACKAGE_VERSION bc) \<le> 32 \<and>
     list_all (\<lambda>c. isprint c \<and> \<not> isspace c) (PACKAGE_VERSION bc)"

definition plain :: "string \<Rightarrow> bool" where
  "plain l \<longleftrightarrow> list_all (\<lambda>c. isprint c \<and> \<not> isspace c) l"

lemma plain_simps [simp]:
  "plain []" "plain (xs @ ys) \<longleftrightarrow> plain xs \<and> plain ys" "plain (c # xs) \<longleftrightarrow> isprint c \<and> \<not> isspace c \<and> plain xs"
  by (auto simp: plain_def)

lemma plain_show [simp]: "plain (show_nat n)" "plain (show_int i)"
proof -
  show n: "plain (show_nat n)" for n
    by (auto simp: plain_def list_all_iff isprint_def isdigit_def isspace_def dest: show_nat_digits)
  show "plain (show_int i)" by (simp add: show_int_def n) (simp add: isprint_def isspace_def)
qed

lemma printable: "list_all isprint l \<Longrightarrow> CHR 0x0A \<notin> set l \<and> NUL \<notin> set l"
  by (auto simp: list_all_iff isprint_def NUL_def)

lemma plain_printable: "plain l \<Longrightarrow> list_all isprint l"
  by (auto simp: plain_def list_all_iff)

lemma header_lines_ok:
  assumes "report_ok bc b" "l \<in> set (header_lines bc b)"
  shows "plain l" "l \<noteq> []" "length l \<le> 79"
proof -
  have "plain (PACKAGE_VERSION bc)" using assms(1) by (simp add: report_ok_def plain_def)
  with assms(2) show "plain l"
    by (auto simp: header_lines_def SOCKET_PROT_VERSION_def isprint_def isspace_def)
  show "l \<noteq> []" using assms(2) by (auto simp: header_lines_def)
  have "length (filter active (clients b)) \<le> length (filter live (clients b))"
    by (rule length_filter_mono) (simp add: live_def)
  then have "length (filter active (clients b)) < 100" using assms(1) by (simp add: report_ok_def)
  with assms show "length l \<le> 79"
    using length_show_nat [of "length (filter active (clients b))" 2]
      length_show_int_nonneg [of "wd_timeout_s (config b)" 2] length_show_int_nonneg [of "reboot_timeout_s (config b)" 3]
    by (auto simp: header_lines_def report_ok_def config_ok_def SOCKET_PROT_VERSION_def)
qed

lemma live_row_ok:
  assumes "report_ok bc b" "c \<in> set (filter live (clients b))"
  shows "row_ok c" "list_all isprint (row c)"
proof -
  from assms have c: "c \<in> set (clients b)" "live c" by simp_all
  with assms(1) have ok: "client_ok c" "pid_ok c" "word_ok (name c)" "list_all isprint (name c)"
    by (auto simp: report_ok_def list_all_iff broker_ok_def table_ok_def)
  then show "row_ok c" using c by (simp add: row_ok_def client_ok_def WD_CLIENT_NAME_LEN_def)
  have "list_all isprint (clientID c)"
    using ok(1) c(2) by (auto simp: client_ok_def id_ok_def list_all_iff isxdigit_def isdigit_def isprint_def)
  with ok(4) plain_printable [OF plain_show(1)] plain_printable [OF plain_show(2)] show "list_all isprint (row c)"
    by (simp add: row_def show_u32_def isprint_def)
qed

lemma report_lines_printable:
  assumes "report_ok bc b" "l \<in> set (header_lines bc b @ map row (filter live (clients b)))"
  shows "l \<noteq> [] \<and> list_all isprint l"
proof (cases "l \<in> set (header_lines bc b)")
  case True
  with header_lines_ok [OF assms(1)] plain_printable show ?thesis by blast
next
  case False
  with assms(2) obtain c where "c \<in> set (filter live (clients b))" "l = row c" by auto
  with live_row_ok(2) [OF assms(1)] show ?thesis by (simp add: row_def)
qed

abbreviation report :: "build_config \<Rightarrow> broker \<Rightarrow> string" where
  "report bc b \<equiv> concat (status_header bc b) @ concat (map status_line (filter live (clients b)))"

lemma report_concat:
  "report bc b = concat (map (\<lambda>l. l @ [CHR 0x0A]) (header_lines bc b @ map row (filter live (clients b))))"
  by (simp add: status_header_lines status_line_row [abs_def] comp_def)

lemma report_lines:
  assumes "report_ok bc b"
  shows "status_lines bc (report bc b) = header_lines bc b @ map row (filter live (clients b))"
proof -
  let ?ls = "header_lines bc b @ map row (filter live (clients b))"
  have "list_all (\<lambda>l. l \<noteq> [] \<and> CHR 0x0A \<notin> set l) ?ls"
    unfolding list_all_iff using report_lines_printable [OF assms] printable by blast
  from split_report [OF this] have "filter (\<lambda>l. l \<noteq> []) (split_lines (report bc b)) = ?ls"
    unfolding report_concat .
  moreover have "length (filter live (clients b)) \<le> WD_MAX_CLIENTS bc"
    using assms length_filter_le [of live "clients b"] by (simp add: report_ok_def broker_ok_def)
  then have "length ?ls \<le> WD_MAX_CLIENTS bc + 10 - 1" by (simp add: header_lines_def)
  ultimately show ?thesis by (simp add: status_lines_def)
qed

section \<open>Requests of root\<close>

definition root_conn :: "conn \<Rightarrow> bool" where
  "root_conn k \<longleftrightarrow> reply_ok k \<and> (\<exists>cr. peercred k = Some cr \<and> cr_uid cr = 0)"

lemma report_ok_fits: "report_ok bc b \<Longrightarrow> status_fits bc b"
  by (auto simp: report_ok_def status_fits_def list_all_iff)

text \<open>The report as the tool receives it; what it contains is for \<open>report_ok\<close> to say.\<close>

lemma status_answered:
  assumes "status_fits bc b" "root_conn k" "net_up n"
  shows "send_and_receive (broker_server bc k) n path CMD_STATUS buf b =
    (b, int (length (report bc b)), [], cstr (report bc b))"
proof -
  let ?k = "with_packet CMD_STATUS k" and ?r = "report bc b"
  from assms(2) obtain cr where cr: "peercred k = Some cr" "cr_uid cr = 0" "reply_ok k" by (auto simp: root_conn_def)
  have d: "delivers ?k cr (CMD_STATUS @ [])" and "tokens [] = []"
    using delivers_with_packet [OF cr(1), of CMD_STATUS] by (simp_all add: CMD_STATUS_def NUL_def tokens_blank)
  with cr(2,3) assms(1) have hc: "handle_command bc ?k b = (b, [Reply ?r])"
    by (intro status_report_text [OF d]) (simp_all add: status_fits_def)
  have "length ?r < 4096" using status_fits_length [OF assms(1)] by (simp add: status_pieces_def)
  moreover have "?r \<noteq> []" by (simp add: status_header_def)
  ultimately show ?thesis
    using assms(3) hc
    by (simp add: send_and_receive_def net_up_def broker_server_def read_with_timeout_packet BUF_SIZE_def)
qed

lemma status_request:
  assumes "report_ok bc b" "root_conn k" "net_up n"
  shows "send_and_receive (broker_server bc k) n path CMD_STATUS buf b = (b, int (length (report bc b)), [], report bc b)"
proof -
  have "NUL \<notin> set (report bc b)"
    unfolding report_concat using report_lines_printable [OF assms(1)] printable by (auto simp: NUL_def)
  then have "cstr (report bc b) = report bc b" by (simp add: cstr_def takeWhile_without)
  with status_answered [OF report_ok_fits [OF assms(1)] assms(2,3)] show ?thesis by simp
qed

lemma root_unregister_request:
  assumes "report_ok bc b" "root_conn k" "net_up n" "i < length (clients b)" "live (clients b ! i)"
    and "cid = clientID (clients b ! i)"
  shows "send_and_receive (broker_server bc k) n path (snprintf 128 (CMD_UNREGISTER @ cid @ ''\<newline>'')) buf b =
    (b\<lparr>clients := upd_at i release_slot (clients b)\<rparr>, 3, [], ''OK\<newline>'')"
proof -
  let ?k = "with_packet (CMD_UNREGISTER @ cid @ ''\<newline>'') k"
  from assms(2) obtain cr where cr: "peercred k = Some cr" "cr_uid cr = 0" "reply_ok k" by (auto simp: root_conn_def)
  have ids: "ids_ok (clients b)" and id: "id_ok cid"
    using assms(1,4-6) table_ok_nth [of "config b" "clients b" i] by (auto simp: report_ok_def broker_ok_def client_ok_def)
  then have "length cid = 16" by (simp add: id_ok_def)
  then have cmd: "snprintf 128 (CMD_UNREGISTER @ cid @ ''\<newline>'') = CMD_UNREGISTER @ cid @ ''\<newline>''"
    by (simp add: snprintf_def CMD_UNREGISTER_def)
  have "delivers ?k cr (CMD_UNREGISTER @ cid @ ''\<newline>'')"
    using id cr(1) by (intro delivers_id) (simp_all add: CMD_UNREGISTER_def NUL_def)
  moreover have "index_of (clients b) cid = Some i" using assms(4-6) by (simp add: index_of_iff [OF ids])
  moreover have "clientID_arg (cid @ ''\<newline>'') = Inr cid" using id by (intro clientID_arg_id) simp_all
  ultimately have "fst (handle_command bc ?k b) = b\<lparr>clients := upd_at i release_slot (clients b)\<rparr>"
    and "replies (snd (handle_command bc ?k b)) = [''OK\<newline>'']"
    using \<open>length cid = 16\<close> cr(2,3) by (auto simp: handle_command_delivers dispatch_cmd handle_unregister_def parse_clientID_arg
        by_clientID_registry [OF ids] Let_def write_str_def)
  then have "broker_server bc k b (CMD_UNREGISTER @ cid @ ''\<newline>'') =
      (b\<lparr>clients := upd_at i release_slot (clients b)\<rparr>, Read_packet ''OK\<newline>'')"
    by (simp add: broker_server_def split_beta)
  moreover have "cstr ''OK\<newline>'' = ''OK\<newline>''" by (simp add: cstr_def NUL_def)
  ultimately show ?thesis
    using assms(3) by (simp add: send_and_receive_def cmd net_up_def read_with_timeout_packet BUF_SIZE_def)
qed

lemma header_no_candidates:
  assumes "report_ok bc b"
  shows "list_all (\<lambda>l. parse_candidate l = None) (header_lines bc b)"
  unfolding list_all_iff
proof
  fix l
  assume "l \<in> set (header_lines bc b)"
  with header_lines_ok [OF assms] show "parse_candidate l = None"
    by (intro parse_candidate_word) (auto simp: plain_def list_all_iff)
qed

end
