(* ===== verification/Ctrl_Properties.thy ===== *)
theory Ctrl_Properties
  imports Ctrl_Broker
begin

text \<open>
  The commands of wd-ctrl against the broker: what \<open>wd-ctrl status\<close> prints, which client \<open>wd-ctrl
  unregister\<close> releases for any argument, and what \<open>wd-ctrl reboot\<close> does.
\<close>

section \<open>Selecting a client\<close>

text \<open>The slots \<open>wd-ctrl unregister <arg>\<close> means: live clients with that identifier or that name.\<close>

definition ctrl_matches :: "client_t list \<Rightarrow> string \<Rightarrow> nat list" where
  "ctrl_matches cs arg =
     filter (\<lambda>i. live (cs ! i) \<and> (clientID (cs ! i) = arg \<or> name (cs ! i) = arg)) [0 ..< length cs]"

lemma map_ctrl_matches:
  "map ((!) cs) (ctrl_matches cs arg) = filter (\<lambda>c. clientID c = arg \<or> name c = arg) (filter live cs)"
proof -
  let ?P = "\<lambda>c. live c \<and> (clientID c = arg \<or> name c = arg)"
  have "map ((!) cs) (ctrl_matches cs arg) = filter ?P cs"
    using filter_map [of ?P "(!) cs" "[0 ..< length cs]"] by (simp add: map_nth comp_def ctrl_matches_def)
  then show ?thesis by (simp add: conj_commute)
qed

lemma filter_single: "distinct xs \<Longrightarrow> c \<in> set xs \<Longrightarrow> filter (\<lambda>d. d = c) xs = [c]"
  by (induction xs) (auto simp: filter_empty_conv)

text \<open>The search over the rows finds nothing, one client, or more than one, as the specification says.\<close>

lemma find_client_matches:
  assumes "list_all row_ok ls" "distinct (map clientID ls)" "arg \<notin> clientID ` set ls \<or> arg \<notin> name ` set ls"
    and "ms = filter (\<lambda>c. clientID c = arg \<or> name c = arg) ls"
  shows "\<exists>n. find_client arg (map row ls) ([], False, 0) = (if ms = [] then [] else clientID (last ms), ms \<noteq> [], n) \<and>
    (Suc 0 < n \<longleftrightarrow> Suc 0 < length ms)"
proof (cases "arg \<in> clientID ` set ls")
  case True
  then obtain c where c: "c \<in> set ls" "clientID c = arg" by blast
  have "name d \<noteq> arg" if "d \<in> set ls" for d using that assms(3) True by force
  then have "filter (\<lambda>d. clientID d = arg \<or> name d = arg) ls = filter (\<lambda>d. d = c) ls"
    using assms(2) c by (intro filter_cong) (auto simp: distinct_map inj_on_def)
  also have "\<dots> = [c]" using assms(2) c(1) by (simp add: distinct_map filter_single)
  finally show ?thesis
    using find_client_by_id [OF assms(1) c(1), of "[]" False 0] assms(3,4) True c(2) by auto
next
  case False
  then have "filter (\<lambda>c. clientID c = arg \<or> name c = arg) ls = filter (\<lambda>c. name c = arg) ls"
    by (intro filter_cong) auto
  with find_client_by_name [OF assms(1) False, of "[]" False 0] assms(4) show ?thesis by (simp add: Let_def)
qed

section \<open>Printing the report\<close>

definition status_fields :: "build_config \<Rightarrow> broker \<Rightarrow> (string \<times> string) list" where
  "status_fields bc b =
     [(''daemon_version'', PACKAGE_VERSION bc), (''protocol_version'', SOCKET_PROT_VERSION),
      (''wd_timeout_s'', show_int (wd_timeout_s (config b))), (''reboot_timeout_s'', show_int (reboot_timeout_s (config b))),
      (''strict_clients'', if strict_clients (config b) then ''true'' else ''false''),
      (''unique_clients'', if unique_clients (config b) then ''true'' else ''false''),
      (''active_clients'', show_nat (length (filter active (clients b))))]"

definition table_row :: "client_t \<Rightarrow> string" where
  "table_row c =
     ljust 18 (clientID c) @ '' '' @ ljust 6 (show_int (pid c)) @ '' '' @ ljust 20 (name c) @ '' '' @
     ljust 13 (show_u32 (timeout_ms c)) @ '' '' @ ljust 8 (if checkPID c then ''on'' else ''off'') @ ''\<newline>''"

lemma header_lines_fields: "header_lines bc b = map (\<lambda>(k, v). k @ CHR ''='' # v) (status_fields bc b)"
  by (simp add: header_lines_def status_fields_def)

lemma print_status_field:
  assumes "k \<noteq> []" "CHR ''='' \<notin> set k" "length k \<le> 63" "word_ok v" "length v \<le> 63"
  shows "print_status h ((k @ CHR ''='' # v) # ls) = ljust 18 k @ '': '' @ v @ ''\<newline>'' @ print_status h ls"
proof -
  have "scan [Str 63] v = ([SStr v], False)" using str_token.scan_last [of v 63] assms(4,5) by simp
  moreover have "takeWhile (\<lambda>x. x \<noteq> CHR ''='') (k @ CHR ''='' # v) = k" using assms(2) by (rule takeWhile_upto)
  ultimately have "fst (scan STATUS_KEY_FORMAT (k @ CHR ''='' # v)) = [SStr k, SStr v]"
    using assms(1,3) by (simp add: STATUS_KEY_FORMAT_def Let_def del: scan.simps(4))
  then show ?thesis by (simp add: sscanf_values)
qed

lemma print_status_list:
  assumes "list_all (\<lambda>(k, v). k \<noteq> [] \<and> CHR ''='' \<notin> set k \<and> length k \<le> 63 \<and> word_ok v \<and> length v \<le> 63) fs"
  shows "print_status h (map (\<lambda>(k, v). k @ CHR ''='' # v) fs @ ls) =
    concat (map (\<lambda>(k, v). ljust 18 k @ '': '' @ v @ ''\<newline>'') fs) @ print_status h ls"
  using assms by (induction fs) (auto simp del: print_status.simps simp: print_status_field)

lemma print_status_fields:
  assumes "report_ok bc b" "PACKAGE_VERSION bc \<noteq> []"
  shows "print_status h (header_lines bc b @ ls) =
    concat (map (\<lambda>(k, v). ljust 18 k @ '': '' @ v @ ''\<newline>'') (status_fields bc b)) @ print_status h ls"
proof -
  have "length (filter active (clients b)) \<le> length (filter live (clients b))"
    by (rule length_filter_mono) (simp add: live_def)
  then have "length (show_nat (length (filter active (clients b)))) \<le> 2"
    using length_show_nat [of "length (filter active (clients b))" 2] assms(1) by (simp add: report_ok_def)
  moreover have "length (show_int (wd_timeout_s (config b))) \<le> 2" "length (show_int (reboot_timeout_s (config b))) \<le> 3"
    using assms(1) length_show_int_nonneg [of "wd_timeout_s (config b)" 2] length_show_int_nonneg [of "reboot_timeout_s (config b)" 3]
    by (simp_all add: report_ok_def config_ok_def)
  moreover have "length (PACKAGE_VERSION bc) \<le> 32" using assms(1) by (simp add: report_ok_def)
  moreover have "word_ok (PACKAGE_VERSION bc)" using assms by (simp add: report_ok_def word_ok_def list_all_iff)
  moreover have "word_ok SOCKET_PROT_VERSION" "word_ok ''true''" "word_ok ''false''" by code_simp+
  ultimately have "list_all (\<lambda>(k, v). k \<noteq> [] \<and> CHR ''='' \<notin> set k \<and> length k \<le> 63 \<and> word_ok v \<and> length v \<le> 63) (status_fields bc b)"
    by (simp add: status_fields_def SOCKET_PROT_VERSION_def)
  then show ?thesis unfolding header_lines_fields by (rule print_status_list)
qed

lemma no_equals_row: "row_ok c \<Longrightarrow> CHR ''='' \<notin> set (name c) \<Longrightarrow> CHR ''='' \<notin> set (row c)"
  by (auto simp: row_ok_def id_ok_def row_def show_u32_def show_int_def list_all_iff isxdigit_def isdigit_def
      dest!: show_nat_digits split: if_splits)

lemma print_status_rows:
  assumes "list_all (\<lambda>c. row_ok c \<and> CHR ''='' \<notin> set (name c)) cs"
  shows "print_status True (map row cs) = concat (map table_row cs)"
  using assms
proof (induction cs)
  case Nil
  then show ?case by simp
next
  case (Cons c cs)
  then have "print_line_formatted (row c) = table_row c"
    by (simp add: print_line_formatted_def parse_row_row table_row_def check_digit_def)
  with Cons no_equals_row [of c] show ?case by simp
qed

section \<open>A broker to ask\<close>

lemma sample_report_ok: "report_ok sample_build (sample_broker True False)"
proof -
  let ?b = "sample_broker True False"
  have "ids_ok (clients ?b)" "config_ok (config ?b)"
    "list_all (\<lambda>c. pid_ok c \<and> (live c \<longrightarrow> word_ok (name c) \<and> list_all isprint (name c))) (clients ?b)"
    "length (filter live (clients ?b)) \<le> 38" "length (PACKAGE_VERSION sample_build) \<le> 32"
    "list_all (\<lambda>c. isprint c \<and> \<not> isspace c) (PACKAGE_VERSION sample_build)" by code_simp+
  then show ?thesis using sample_broker_ok by (simp add: report_ok_def)
qed

lemma sample_root_conn: "root_conn (sample_conn 1 0 [])"
  by (simp add: root_conn_def sample_conn_def)

lemma sample_net_up: "net_up sample_net"
  by (simp add: net_up_def sample_net_def)

section \<open>Properties\<close>

text \<open>
  C31. What the broker prints for a client, wd-ctrl reads back: for every live client with a PID of 32
  bits and a name without white space, the row of the status report yields its identifier, PID, name,
  timeout and PID check.
\<close>

theorem status_row_round_trip:
  assumes "client_ok c" "live c" "pid_ok c" "word_ok (name c)"
  shows "status_line c = row c @ ''\<newline>'' \<and>
    parse_row (row c) = Some (clientID c, pid c, name c, timeout_ms c, check_digit (checkPID c))"
proof -
  have "row_ok c" using assms by (simp add: row_ok_def client_ok_def WD_CLIENT_NAME_LEN_def)
  from parse_row_row [OF this] show ?thesis by (simp add: status_line_row)
qed

theorem status_row_round_trip_witness:
  "parse_row ''00000000000000bb 4711 beta 8000 1'' = Some (''00000000000000bb'', 4711, ''beta'', 8000, 1)"
proof -
  have "client_ok sample_client" "live sample_client" "pid_ok sample_client" "word_ok (name sample_client)"
    "row sample_client = ''00000000000000bb 4711 beta 8000 1''" by code_simp+
  with status_row_round_trip [of sample_client] show ?thesis by (simp add: sample_client_def check_digit_def)
qed

text \<open>
  C22. \<open>wd-ctrl unregister <arg>\<close> by root, against a well-formed broker with distinct identifiers and at
  most 38 live clients whose names have no white space, for every argument that is not at once an identifier and a name in use: if one live
  client has that identifier or name, that client and no other is released and the tool reports
  success; if none has, or several have that name, the tool says so, fails, and the broker is
  unchanged.
\<close>

theorem ctrl_unregister_selects:
  assumes "report_ok bc b" "root_conn k1" "root_conn k2" "net_up n1" "net_up n2"
    and "arg \<notin> set (live_ids (clients b)) \<or> arg \<notin> set (live_names (clients b))"
  shows "ctrl_main bc [] 0 [''unregister'', arg] n1 n2 (broker_server bc k1) (broker_server bc k2) b =
    (case ctrl_matches (clients b) arg of
       [] \<Rightarrow> (b, fails (''Error: Unknown client ('' @ arg @ '').\<newline>\<newline>''))
     | [i] \<Rightarrow> (b\<lparr>clients := upd_at i release_slot (clients b)\<rparr>,
              succeeds (''Client '' @ CHR 0x27 # arg @ CHR 0x27 # '' unregistered successfully.\<newline>''))
     | _ \<Rightarrow> (b, fails (''Error: Client name '' @ CHR 0x27 # arg @ CHR 0x27 # '' is not unique, use the clientID.\<newline>\<newline>'')))"
proof -
  let ?ls = "filter live (clients b)" and ?is = "ctrl_matches (clients b) arg"
  define ms where "ms = filter (\<lambda>c. clientID c = arg \<or> name c = arg) ?ls"
  have ms: "map ((!) (clients b)) ?is = ms" by (simp only: map_ctrl_matches ms_def)
  have "list_all row_ok ?ls" using live_row_ok(1) [OF assms(1)] by (simp add: list_all_iff)
  moreover have "distinct (map clientID ?ls)" using assms(1) by (simp add: report_ok_def ids_ok_def live_ids_def)
  moreover have "arg \<notin> clientID ` set ?ls \<or> arg \<notin> name ` set ?ls" using assms(6) by (simp add: live_ids_def live_names_def)
  ultimately obtain n where n: "Suc 0 < n \<longleftrightarrow> Suc 0 < length ms"
    and "find_client arg (map row ?ls) ([], False, 0) = (if ms = [] then [] else clientID (last ms), ms \<noteq> [], n)"
    using find_client_matches [OF _ _ _ ms_def] by blast
  with find_client_skip [OF header_no_candidates [OF assms(1)]]
  have find: "find_client arg (header_lines bc b @ map row ?ls) ([], False, 0) =
      (if ms = [] then [] else clientID (last ms), ms \<noteq> [], n)" by simp
  obtain r where r: "report bc b = r" "r \<noteq> []" by (simp add: status_header_def)
  note main = status_request [OF assms(1,2,4), of _ "[]", unfolded r(1)] report_lines [OF assms(1), unfolded r(1)] find n
    r(2) ctrl_main_def ctrl_unregister_def strncmp_eq_def Let_def fatal_error_def
  consider "?is = []" | i where "?is = [i]" | i j js where "?is = i # j # js" by (cases ?is; cases "tl ?is") auto
  then show ?thesis
  proof cases
    case 1
    with ms show ?thesis by (simp add: main)
  next
    case (2 i)
    then have "i \<in> set ?is" by simp
    then have "i < length (clients b)" "live (clients b ! i)" by (simp_all add: ctrl_matches_def)
    with 2 ms [symmetric] root_unregister_request [OF assms(1,3,5), of i] show ?thesis by (simp add: main)
  next
    case (3 i j js)
    with ms [symmetric] show ?thesis by (simp add: main)
  qed
qed

theorem ctrl_unregister_selects_witness:
  "snd (ctrl_main sample_build [] 0 [''unregister'', ''beta''] sample_net sample_net
     (broker_server sample_build (sample_conn 1 0 [])) (broker_server sample_build (sample_conn 1 0 [])) (sample_broker True False)) =
   succeeds (''Client '' @ CHR 0x27 # ''beta'' @ CHR 0x27 # '' unregistered successfully.\<newline>'')"
proof -
  let ?b = "sample_broker True False" and ?k = "sample_conn 1 0 []"
  have "''beta'' \<notin> set (live_ids (clients ?b)) \<or> ''beta'' \<notin> set (live_names (clients ?b))" by code_simp
  moreover have "ctrl_matches (clients ?b) ''beta'' = [1]" by code_simp
  ultimately show ?thesis
    using ctrl_unregister_selects [OF sample_report_ok sample_root_conn sample_root_conn sample_net_up sample_net_up] by simp
qed

text \<open>
  C23. \<open>wd-ctrl status\<close> by root shows the broker completely: in a well-formed state with distinct
  identifiers and at most 38 live clients whose names contain neither white space nor an equals sign, it prints the seven settings with their current values and,
  if there are live clients, one table with a row for each of them in the order of the slots. The broker is unchanged.
\<close>

theorem ctrl_status_shows_all:
  assumes "report_ok bc b" "PACKAGE_VERSION bc \<noteq> []" "root_conn k1" "net_up n1"
    and "list_all (\<lambda>c. CHR ''='' \<notin> set (name c)) (filter live (clients b))"
  shows "ctrl_main bc [] 0 [''status''] n1 n2 (broker_server bc k1) srv2 b =
    (b, succeeds (concat (map (\<lambda>(k, v). ljust 18 k @ '': '' @ v @ ''\<newline>'') (status_fields bc b)) @
       (if filter live (clients b) = [] then []
        else print_table_header @ concat (map table_row (filter live (clients b))))))"
proof -
  let ?ls = "filter live (clients b)"
  have ok: "list_all (\<lambda>c. row_ok c \<and> CHR ''='' \<notin> set (name c)) ?ls"
    using live_row_ok(1) [OF assms(1)] assms(5) by (simp add: list_all_iff)
  have rows: "print_status False (map row ?ls) = (if ?ls = [] then [] else print_table_header @ concat (map table_row ?ls))"
  proof (cases ?ls)
    case (Cons c cs)
    with ok no_equals_row [of c] have "CHR ''='' \<notin> set (row c)" by simp
    then have "print_status False (row c # map row cs) = print_table_header @ print_status True (map row (c # cs))" by simp
    with Cons print_status_rows [OF ok] show ?thesis by simp
  qed simp
  obtain r where r: "report bc b = r" "r \<noteq> []" by (simp add: status_header_def)
  show ?thesis
    using status_request [OF assms(1,3,4), of _ "[]", unfolded r(1)] report_lines [OF assms(1), unfolded r(1)]
      print_status_fields [OF assms(1,2)] rows r(2)
    by (simp add: ctrl_main_def Let_def)
qed

theorem ctrl_status_shows_all_witness:
  "fst (ctrl_main sample_build [] 0 [''status''] sample_net sample_net
     (broker_server sample_build (sample_conn 1 0 [])) (broker_server sample_build (sample_conn 1 0 [])) (sample_broker True False)) =
   sample_broker True False"
proof -
  have "PACKAGE_VERSION sample_build \<noteq> []"
    "list_all (\<lambda>c. CHR ''='' \<notin> set (name c)) (filter live (clients (sample_broker True False)))" by code_simp+
  with ctrl_status_shows_all [OF sample_report_ok _ sample_root_conn sample_net_up] show ?thesis by (metis fst_conv)
qed

text \<open>
  C24. \<open>wd-ctrl reboot\<close> by root reaches its goal while the broker is well-formed and has at most 38 live
  clients, whatever their names: the broker's flags ask the main loop to stop and to arm the reboot failsafe, nothing else of
  its state changes, and the seconds the tool announces are the configured reboot timeout, read back
  from the broker's reply. The bound is needed because the tool asks for the status first, for every
  command: when that report does not fit its buffer, the request of the reboot is not sent.
\<close>

theorem ctrl_reboot_requests_failsafe:
  assumes "status_fits bc b" "root_conn k1" "root_conn k2" "net_up n1" "net_up n2"
  shows "ctrl_main bc [] 0 [''reboot''] n1 n2 (broker_server bc k1) (broker_server bc k2) b =
    (b\<lparr>running := False, reboot := True\<rparr>,
     succeeds (''Reboot failsafe activated, timeout: '' @ show_int (reboot_timeout_s (config b)) @ '' seconds.\<newline>''))"
proof -
  let ?t = "reboot_timeout_s (config b)" and ?k = "with_packet CMD_REBOOT k2"
  let ?r = "''OK, '' @ show_int ?t @ ''\<newline>''"
  from assms(3) obtain cr where cr: "peercred k2 = Some cr" "cr_uid cr = 0" "reply_ok k2" by (auto simp: root_conn_def)
  have t: "10 \<le> ?t" "?t \<le> 300" using assms(1) by (simp_all add: status_fits_def config_ok_def)
  have "delivers ?k cr (CMD_REBOOT @ [])"
    using delivers_with_packet [OF cr(1), of CMD_REBOOT] by (simp add: CMD_REBOOT_def NUL_def)
  from handle_command_delivers [OF this] have "handle_command bc ?k b = handle_reboot ?k cr (CMD_REBOOT @ []) b"
    by (simp only: dispatch_cmd)
  moreover have "\<not> has_extra (CMD_REBOOT @ []) CMD_REBOOT 15" by code_simp
  ultimately have hc: "broker_server bc k2 b CMD_REBOOT = (b\<lparr>running := False, reboot := True\<rparr>, Read_packet ?r)"
    using cr(2,3) by (simp add: broker_server_def handle_reboot_def write_str_def)
  have plain: "list_all isprint (show_int ?t)" by (rule plain_printable) simp
  then have "cstr ?r = ?r" using printable [OF plain] by (simp add: cstr_def NUL_def takeWhile_without)
  moreover have "length (show_int ?t) \<le> 3" using t length_show_int_nonneg [of ?t 3] by simp
  ultimately have sr: "send_and_receive (broker_server bc k2) n2 path CMD_REBOOT buf b =
      (b\<lparr>running := False, reboot := True\<rparr>, int (length ?r), [], ?r)" for path buf
    using assms(5) hc by (simp add: send_and_receive_def net_up_def read_with_timeout_packet BUF_SIZE_def)
  have "atoi (drop 3 ?r) = ?t"
    using t atoi_word [of "''\<newline>''" ?t] by (simp add: atoi_def isspace_def)
  moreover obtain r where r: "report bc b = r" "r \<noteq> []" by (simp add: status_header_def)
  ultimately show ?thesis
    using status_answered [OF assms(1,2,4), of _ "[]", unfolded r(1)] sr
    by (simp add: ctrl_main_def Let_def ctrl_reboot_def strncmp_eq_def succeeds_def)
qed

theorem ctrl_reboot_requests_failsafe_witness:
  "reboot (fst (ctrl_main sample_build [] 0 [''reboot''] sample_net sample_net
     (broker_server sample_build (sample_conn 1 0 [])) (broker_server sample_build (sample_conn 1 0 [])) (sample_broker True False)))"
  using ctrl_reboot_requests_failsafe [OF report_ok_fits [OF sample_report_ok] sample_root_conn sample_root_conn sample_net_up sample_net_up] by simp

text \<open>
  When the broker does not answer the status request, as in the state where the report overflows, no
  command of the tool reaches it.
\<close>

lemma ctrl_needs_status:
  assumes "replies (snd (handle_command bc (with_packet CMD_STATUS k1) b)) = []" "net_up n1"
  shows "ctrl_main bc [] 0 (command # rest) n1 n2 (broker_server bc k1) srv2 b =
    (fst (handle_command bc (with_packet CMD_STATUS k1) b), fails [])"
  using assms
  by (auto simp: ctrl_main_def send_and_receive_def net_up_def broker_server_def read_with_timeout_def split: prod.splits)

text \<open>
  A client whose name contains a blank cannot be unregistered with wd-ctrl, by name or by
  identifier: the tool does not recognise its row (here: a second word that does not start like a
  number), so such an announced client can be removed only by a client that knows the protocol.
\<close>

lemma ctrl_overlooks_names_with_blanks:
  assumes "id_ok (clientID c)" "pid_ok c" "name c = w1 @ CHR '' '' # w2" "word_ok w1" "length w1 \<le> 63" "word_ok w2"
    and "\<not> isdigit (hd w2)" "hd w2 \<noteq> CHR ''-''" "hd w2 \<noteq> CHR ''+''"
  shows "parse_candidate (row c) = None"
proof -
  let ?r = "w2 @ CHR '' '' # show_u32 (timeout_ms c) @ CHR '' '' # show_int (check_digit (checkPID c)) @ []"
  have i: "word_ok (clientID c) \<and> length (clientID c) \<le> 16" and n: "word_ok w1 \<and> length w1 \<le> 63"
    and p: "- (2 ^ 31) \<le> pid c \<and> pid c < 2 ^ 31"
    using assms(1,2,4,5) id_ok_word [of "clientID c"] by (auto simp: pid_ok_def)
  have "row c = clientID c @ CHR '' '' # show_int (pid c) @ CHR '' '' # w1 @ CHR '' '' # ?r"
    by (simp add: row_def assms(3))
  moreover have "scan [Str 16, Ws, Sint, Ws, Str 63, Ws, Uint] (clientID c @ CHR '' '' # show_int (pid c) @ CHR '' '' # w1 @ CHR '' '' # ?r) =
      apfst (\<lambda>vs. [SStr (clientID c), SInt (pid c), SStr w1] @ vs) (scan [Uint] ?r)"
    by (subst str_token.scan_then [OF i], simp, subst sint_token.scan_then [OF p], use n in simp,
        subst str_token.scan_then [OF n], use assms(6) in simp) (simp add: apfst_def map_prod_def split: prod.splits)
  moreover have "fst (scan [Uint] ?r) = []"
  proof -
    obtain x u where x: "w2 = x # u" using assms(6) by (cases w2) (simp_all add: word_ok_def)
    with assms(6-9) show ?thesis by (simp add: word_ok_def scan_sign_def)
  qed
  ultimately have "fst (scan CANDIDATE_FORMAT (row c)) = [SStr (clientID c), SInt (pid c), SStr w1]"
    by (simp add: CANDIDATE_FORMAT_def del: scan.simps)
  then show ?thesis by (simp add: parse_candidate_def sscanf_values)
qed

text \<open>
  A client may register under a name with an equals sign; \<open>wd-ctrl status\<close> then takes its row for a setting
  and the client is missing in the table.
\<close>

lemma status_takes_equals_for_a_setting:
  "print_status False [''00000000000000bb 4711 a=b 8000 1''] = ljust 18 ''00000000000000bb 4711 a'' @ '': b\<newline>''"
  "parse_register ''REGISTER a=b 8000\<newline>'' = Some (''a=b'', 8000, True)"
  by code_simp+

end
