(* ===== verification/Client_Test.thy ===== *)
theory Client_Test
  imports Client_Broker
begin

text \<open>
  wd-client-test.c, the test program of the client library: seven tests that call the library and
  assert its return values, run one after the other. The other end is a \<open>server\<close> as everywhere in the
  library; what the tests rely on is stated as an extension of the library's contract, and the
  broker is shown to meet it, so the program passes against every broker that has a slot for it.
\<close>

section \<open>The program\<close>

definition WD_HEARTBEAT_TIMEOUT_MS :: u32 where
  "WD_HEARTBEAT_TIMEOUT_MS = 5000"

definition WD_TEST_CLIENT_INIT :: wd_client_t where
  "WD_TEST_CLIENT_INIT =
     \<lparr>cl_socket_path = ''/tmp/wd-broker-test.sock'', cl_name = ''test-client'', cl_clientID = [], cl_status = []\<rparr>"

text \<open>
  The conditions of the program's calls into the library, by their number in the order of the source:
  the server the call meets and what the operating system answers on its (one or two) connections to a
  path.
\<close>

record 's test_env =
  t_srv :: "nat \<Rightarrow> 's server"
  t_net :: "nat \<Rightarrow> string \<Rightarrow> net \<times> net"

definition lib_register ::
    "'s test_env \<Rightarrow> nat \<Rightarrow> wd_client_t \<Rightarrow> u32 \<Rightarrow> bool \<Rightarrow> 's \<Rightarrow> 's \<times> int \<times> wd_client_t" where
  "lib_register env i client tmo ign s =
     (case t_net env i (cl_socket_path client) of (n1, n2) \<Rightarrow> wd_client_register (t_srv env i) n1 n2 client tmo ign s)"

definition lib_ping :: "'s test_env \<Rightarrow> nat \<Rightarrow> wd_client_t \<Rightarrow> 's \<Rightarrow> 's \<times> int \<times> wd_client_t" where
  "lib_ping env i client s = wd_client_ping (t_srv env i) (fst (t_net env i (cl_socket_path client))) client s"

definition lib_unregister :: "'s test_env \<Rightarrow> nat \<Rightarrow> wd_client_t \<Rightarrow> 's \<Rightarrow> 's \<times> int \<times> wd_client_t" where
  "lib_unregister env i client s = wd_client_unregister (t_srv env i) (fst (t_net env i (cl_socket_path client))) client s"

text \<open>
  The state of the other end and what the program printed: \<open>Inl\<close> on stderr before a failed assertion
  aborts it, \<open>Inr\<close> on stdout. \<open>ASSERT_WITH_STATUS e text client s k\<close> goes on with \<open>k\<close>.
\<close>

type_synonym 's outcome = "'s \<times> (string + string)"

definition ASSERT_WITH_STATUS :: "bool \<Rightarrow> string \<Rightarrow> wd_client_t \<Rightarrow> 's \<Rightarrow> 's outcome \<Rightarrow> 's outcome" where
  "ASSERT_WITH_STATUS e text client s k =
     (if \<not> e
      then (s, Inl (''Assertion failed: '' @ text @ ''\<newline>wd-client lib Status: '' @ cl_status client @ ''\<newline>''))
      else k)"

definition test_wd_client_register :: "'s test_env \<Rightarrow> 's \<Rightarrow> 's outcome" where
  "test_wd_client_register env s =
     (case lib_register env 0 WD_TEST_CLIENT_INIT WD_HEARTBEAT_TIMEOUT_MS False s of
        (s1, r1, c1) \<Rightarrow>
          ASSERT_WITH_STATUS (r1 = WD_CLIENT_OK) ''result == WD_CLIENT_OK'' c1 s1
         (ASSERT_WITH_STATUS (length (cl_clientID c1) > 0) ''strlen(client.clientID) > 0'' c1 s1
         (case lib_unregister env 1 c1 s1 of
            (s2, r2, c2) \<Rightarrow>
              ASSERT_WITH_STATUS (r2 = WD_CLIENT_OK) ''result == WD_CLIENT_OK'' c2 s2
             (s2, Inr ''test_wd_client_register passed\<newline>''))))"

definition test_wd_client_ping :: "'s test_env \<Rightarrow> 's \<Rightarrow> 's outcome" where
  "test_wd_client_ping env s =
     (case lib_register env 2 WD_TEST_CLIENT_INIT WD_HEARTBEAT_TIMEOUT_MS False s of
        (s1, r1, c1) \<Rightarrow>
          ASSERT_WITH_STATUS (r1 = WD_CLIENT_OK) ''result == WD_CLIENT_OK'' c1 s1
         (ASSERT_WITH_STATUS (length (cl_clientID c1) > 0) ''strlen(client.clientID) > 0'' c1 s1
         (case lib_ping env 3 c1 s1 of
            (s2, r2, c2) \<Rightarrow>
              ASSERT_WITH_STATUS (r2 = WD_CLIENT_OK) ''result == WD_CLIENT_OK'' c2 s2
             (case lib_unregister env 4 c2 s2 of
                (s3, r3, c3) \<Rightarrow>
                  ASSERT_WITH_STATUS (r3 = WD_CLIENT_OK) ''result == WD_CLIENT_OK'' c3 s3
                 (s3, Inr ''test_wd_client_ping passed\<newline>'')))))"

definition test_register_with_invalid_name :: "'s test_env \<Rightarrow> 's \<Rightarrow> 's outcome" where
  "test_register_with_invalid_name env s =
     (let client = WD_TEST_CLIENT_INIT\<lparr>cl_name := strncpy [] WD_CLIENT_NAME_LEN\<rparr>
      in case lib_register env 5 client WD_HEARTBEAT_TIMEOUT_MS False s of
           (s1, r1, c1) \<Rightarrow>
             ASSERT_WITH_STATUS (r1 = WD_CLIENT_EPARAM) ''result == WD_CLIENT_EPARAM'' c1 s1
            (s1, Inr ''test_register_with_invalid_name passed\<newline>''))"

definition test_register_with_invalid_timeout :: "'s test_env \<Rightarrow> 's \<Rightarrow> 's outcome" where
  "test_register_with_invalid_timeout env s =
     (let client = WD_TEST_CLIENT_INIT\<lparr>cl_name := strncpy ''test-client'' WD_CLIENT_NAME_LEN\<rparr>
      in case lib_register env 6 client (WD_CLIENT_TIMEOUT_MIN_MS - 1) False s of
           (s1, r1, c1) \<Rightarrow>
             ASSERT_WITH_STATUS (r1 = WD_CLIENT_EPARAM) ''result == WD_CLIENT_EPARAM'' c1 s1
            (case lib_register env 7 c1 (WD_CLIENT_TIMEOUT_MAX_MS + 1) False s1 of
               (s2, r2, c2) \<Rightarrow>
                 ASSERT_WITH_STATUS (r2 = WD_CLIENT_EPARAM) ''result == WD_CLIENT_EPARAM'' c2 s2
                (s2, Inr ''test_register_with_invalid_timeout passed\<newline>'')))"

definition test_unregister_without_registering :: "'s test_env \<Rightarrow> 's \<Rightarrow> 's outcome" where
  "test_unregister_without_registering env s =
     (case lib_unregister env 8 WD_TEST_CLIENT_INIT s of
        (s1, r1, c1) \<Rightarrow>
          ASSERT_WITH_STATUS (r1 = WD_CLIENT_EPARAM) ''result == WD_CLIENT_EPARAM'' c1 s1
         (s1, Inr ''test_unregister_without_registering passed\<newline>''))"

definition test_ping_without_registering :: "'s test_env \<Rightarrow> 's \<Rightarrow> 's outcome" where
  "test_ping_without_registering env s =
     (case lib_ping env 9 WD_TEST_CLIENT_INIT s of
        (s1, r1, c1) \<Rightarrow>
          ASSERT_WITH_STATUS (r1 = WD_CLIENT_EPARAM) ''result == WD_CLIENT_EPARAM'' c1 s1
         (s1, Inr ''test_ping_without_registering passed\<newline>''))"

definition NO_SOCKET :: string where
  "NO_SOCKET = ''/tmp/nonexistent.sock''"

definition test_timeout_on_register :: "'s test_env \<Rightarrow> 's \<Rightarrow> 's outcome" where
  "test_timeout_on_register env s =
     (let client = WD_TEST_CLIENT_INIT\<lparr>cl_socket_path := strncpy NO_SOCKET (WD_CLIENT_SOCKPATH_LEN - 1)\<rparr>
      in case lib_register env 10 client WD_HEARTBEAT_TIMEOUT_MS False s of
           (s1, r1, c1) \<Rightarrow>
             ASSERT_WITH_STATUS (r1 = WD_CLIENT_ERR) ''result == WD_CLIENT_ERR'' c1 s1
            (s1, Inr ''test_timeout_on_register passed\<newline>''))"

text \<open>The tests in the order of main; the first failed assertion ends the program.\<close>

definition client_tests :: "('s test_env \<Rightarrow> 's \<Rightarrow> 's outcome) list" where
  "client_tests =
     [test_wd_client_register, test_wd_client_ping, test_register_with_invalid_name, test_register_with_invalid_timeout,
      test_unregister_without_registering, test_ping_without_registering, test_timeout_on_register]"

fun run_tests :: "('s test_env \<Rightarrow> 's \<Rightarrow> 's outcome) list \<Rightarrow> 's test_env \<Rightarrow> string \<Rightarrow> 's \<Rightarrow> 's outcome" where
  "run_tests [] env out s = (s, Inr (out @ ''All tests passed!\<newline>''))"
| "run_tests (t # ts) env out s =
     (case t env s of
        (s', Inl err) \<Rightarrow> (s', Inl err)
      | (s', Inr txt) \<Rightarrow> run_tests ts env (out @ txt) s')"

definition test_main :: "'s test_env \<Rightarrow> 's \<Rightarrow> 's outcome" where
  "test_main env s = run_tests client_tests env ''Running wd-client tests...\<newline>'' s"

definition all_passed :: string where
  "all_passed =
     ''Running wd-client tests...\<newline>'' @ ''test_wd_client_register passed\<newline>'' @ ''test_wd_client_ping passed\<newline>'' @
     ''test_register_with_invalid_name passed\<newline>'' @ ''test_register_with_invalid_timeout passed\<newline>'' @
     ''test_unregister_without_registering passed\<newline>'' @ ''test_ping_without_registering passed\<newline>'' @
     ''test_timeout_on_register passed\<newline>'' @ ''All tests passed!\<newline>''"

section \<open>Tests without a server\<close>

text \<open>The four tests of refused calls pass whatever the other end is.\<close>

lemma refused_calls:
  "test_register_with_invalid_name env s = (s, Inr ''test_register_with_invalid_name passed\<newline>'')"
  "test_register_with_invalid_timeout env s = (s, Inr ''test_register_with_invalid_timeout passed\<newline>'')"
  "test_unregister_without_registering env s = (s, Inr ''test_unregister_without_registering passed\<newline>'')"
  "test_ping_without_registering env s = (s, Inr ''test_ping_without_registering passed\<newline>'')"
proof -
  have "WD_CLIENT_TIMEOUT_MIN_MS - 1 < WD_CLIENT_TIMEOUT_MIN_MS" "\<not> WD_CLIENT_TIMEOUT_MAX_MS + 1 < WD_CLIENT_TIMEOUT_MIN_MS"
    "WD_CLIENT_TIMEOUT_MAX_MS < WD_CLIENT_TIMEOUT_MAX_MS + 1" by code_simp+
  then show
    "test_register_with_invalid_name env s = (s, Inr ''test_register_with_invalid_name passed\<newline>'')"
    "test_register_with_invalid_timeout env s = (s, Inr ''test_register_with_invalid_timeout passed\<newline>'')"
    "test_unregister_without_registering env s = (s, Inr ''test_unregister_without_registering passed\<newline>'')"
    "test_ping_without_registering env s = (s, Inr ''test_ping_without_registering passed\<newline>'')"
    by (simp_all add: test_register_with_invalid_name_def test_register_with_invalid_timeout_def
        test_unregister_without_registering_def test_ping_without_registering_def lib_register_def lib_unregister_def
        lib_ping_def wd_client_register_def wd_client_unregister_def wd_client_ping_def WD_TEST_CLIENT_INIT_def
        strncpy_def ASSERT_WITH_STATUS_def WD_CLIENT_NAME_LEN_def Let_def split_beta)
qed

definition test_network :: "'s test_env \<Rightarrow> bool" where
  "test_network env \<longleftrightarrow>
     list_all (\<lambda>i. net_up (fst (t_net env i (cl_socket_path WD_TEST_CLIENT_INIT))) \<and>
                   net_up (snd (t_net env i (cl_socket_path WD_TEST_CLIENT_INIT)))) [0 ..< 5] \<and>
     \<not> (socket_ok (fst (t_net env 10 NO_SOCKET)) \<and> connect_ok (fst (t_net env 10 NO_SOCKET)))"

lemma no_socket_call:
  assumes "test_network env"
  shows "test_timeout_on_register env s = (s, Inr ''test_timeout_on_register passed\<newline>'')"
proof -
  have "timeout_ok WD_HEARTBEAT_TIMEOUT_MS" "WD_CLIENT_ERR \<noteq> WD_CLIENT_OK" by code_simp+
  with assms show ?thesis
    by (auto simp: test_timeout_on_register_def lib_register_def wd_client_register_def wd_client_check_prot_version_def
        wd_client_connect_def test_network_def timeout_ok_iff WD_TEST_CLIENT_INIT_def NO_SOCKET_def strncpy_def
        WD_CLIENT_SOCKPATH_LEN_def ASSERT_WITH_STATUS_def Let_def split_beta)
qed

section \<open>What the tests rely on\<close>

text \<open>
  A service that takes a peer again after it has left: \<open>vacant s nm\<close>: there is a place for a client
  of that name; \<open>taken s nm cid\<close>: it is taken under \<open>cid\<close>, and will be free again.
\<close>

locale reusable_service = watchdog_service srv delivers_to peer grants holds leaves
  for srv :: "'e \<Rightarrow> 's server" and delivers_to peer grants holds leaves +
  fixes vacant :: "'s \<Rightarrow> string \<Rightarrow> bool"
    and taken :: "'s \<Rightarrow> string \<Rightarrow> string \<Rightarrow> bool"
    and newcomer :: "'e \<Rightarrow> bool"
  assumes vacant_grants: "vacant s nm \<Longrightarrow> newcomer e \<Longrightarrow> delivers_to e \<Longrightarrow> word_ok nm \<Longrightarrow> length nm \<le> 63 \<Longrightarrow>
      list_all isprint nm \<Longrightarrow> timeout_ok tmo \<Longrightarrow> \<exists>cid. grants s e nm tmo chk cid"
    and register_takes: "vacant s nm \<Longrightarrow> newcomer e \<Longrightarrow> grants s e nm tmo chk cid \<Longrightarrow>
      taken (fst (srv e s (register_line nm tmo chk))) nm cid"
    and ping_keeps: "taken s nm cid \<Longrightarrow> holds s e cid \<Longrightarrow> delivers_to e \<Longrightarrow>
      taken (fst (srv e s (CMD_PING @ cid @ ''\<newline>''))) nm cid"
    and unregister_vacates: "taken s nm cid \<Longrightarrow> holds s e cid \<Longrightarrow> leaves s e \<Longrightarrow> delivers_to e \<Longrightarrow>
      vacant (fst (srv e s (CMD_UNREGISTER @ cid @ ''\<newline>''))) nm \<and>
      leaves (fst (srv e s (CMD_UNREGISTER @ cid @ ''\<newline>''))) = leaves s"
begin

text \<open>A visit that succeeds: the peer registers and is known under an identifier.\<close>

lemma visit_begins:
  assumes "vacant s (cl_name c)" "newcomer e" "delivers_to e" "word_ok (cl_name c)" "length (cl_name c) \<le> 63"
    and "list_all isprint (cl_name c)" "timeout_ok tmo" "net_up n1" "net_up n2" "cl_socket_path c \<noteq> []"
  obtains s' c' where "wd_client_register (srv e) n1 n2 c tmo ign s = (s', WD_CLIENT_OK, c')"
    "cl_clientID c' \<noteq> []" "cl_socket_path c' = cl_socket_path c" "holds s' e (cl_clientID c')"
    "taken s' (cl_name c) (cl_clientID c')" "leaves s' = leaves s"
proof -
  obtain cid where g: "grants s e (cl_name c) tmo (\<not> ign) cid" using vacant_grants [OF assms(1-7)] by blast
  obtain s' c' where r: "wd_client_register (srv e) n1 n2 c tmo ign s = (s', WD_CLIENT_OK, c')" "cl_clientID c' = cid"
    "cl_socket_path c' = cl_socket_path c" "holds s' e cid" "leaves s' = leaves s"
    "s' = fst (srv e s (register_line (cl_name c) tmo (\<not> ign)))"
    using register_ok [OF g assms(8-10)] by blast
  have "cid \<noteq> []" using holds_id [OF r(4)] by (auto simp: id_ok_def)
  with r register_takes [OF assms(1,2) g] show thesis by (intro that [OF r(1)]) simp_all
qed

lemma visit_ends:
  assumes "holds s e (cl_clientID c)" "taken s nm (cl_clientID c)" "leaves s e" "peer e e'" "delivers_to e'"
    and "net_up n" "cl_socket_path c \<noteq> []"
  obtains s' c' where "wd_client_unregister (srv e') n c s = (s', WD_CLIENT_OK, c')" "vacant s' nm" "leaves s' = leaves s"
proof -
  have h: "holds s e' (cl_clientID c)" "leaves s e'"
    using holds_peer [OF assms(1,4)] leaves_peer [OF assms(4)] assms(3) by simp_all
  from unregister_ok [OF h assms(5-7)] unregister_vacates [OF assms(2) h assms(5)] that show thesis by blast
qed

text \<open>
  The test program against such a service: \<open>conn i\<close> is the peer's connection of call \<open>i\<close>. First the
  calls the tests are made of, then the two tests that need the service, then all of them.
\<close>

lemma test_conditions:
  assumes "test_network env" "list_all (\<lambda>i. peer (conn 0) (conn i) \<and> delivers_to (conn i) \<and> newcomer (conn i)) [0 ..< 5]" "i < 5"
  shows "net_up (fst (t_net env i (cl_socket_path WD_TEST_CLIENT_INIT)))"
    "net_up (snd (t_net env i (cl_socket_path WD_TEST_CLIENT_INIT)))"
    "peer (conn 0) (conn i)" "delivers_to (conn i)" "newcomer (conn i)"
  using assms by (simp_all add: test_network_def list_all_iff)

lemma test_register_call:
  assumes "test_network env" "t_srv env = (\<lambda>i. srv (conn i))"
    and "list_all (\<lambda>i. peer (conn 0) (conn i) \<and> delivers_to (conn i) \<and> newcomer (conn i)) [0 ..< 5]"
    and "vacant s ''test-client''" "i < 5"
  shows "\<exists>s' c. lib_register env i WD_TEST_CLIENT_INIT WD_HEARTBEAT_TIMEOUT_MS False s = (s', WD_CLIENT_OK, c) \<and>
    cl_clientID c \<noteq> [] \<and> cl_socket_path c = cl_socket_path WD_TEST_CLIENT_INIT \<and> holds s' (conn 0) (cl_clientID c) \<and>
    taken s' ''test-client'' (cl_clientID c) \<and> leaves s' = leaves s"
proof -
  let ?c = WD_TEST_CLIENT_INIT
  note env = test_conditions [OF assms(1,3,5)]
  have c: "cl_name ?c = ''test-client''" "cl_socket_path ?c \<noteq> []" by (simp_all add: WD_TEST_CLIENT_INIT_def)
  have name: "word_ok (cl_name ?c)" "length (cl_name ?c) \<le> 63" "list_all isprint (cl_name ?c)" "timeout_ok WD_HEARTBEAT_TIMEOUT_MS"
    by code_simp+
  obtain s' c' where r: "lib_register env i ?c WD_HEARTBEAT_TIMEOUT_MS False s = (s', WD_CLIENT_OK, c')"
    "cl_clientID c' \<noteq> []" "cl_socket_path c' = cl_socket_path ?c" "holds s' (conn i) (cl_clientID c')"
    "taken s' ''test-client'' (cl_clientID c')" "leaves s' = leaves s"
    using visit_begins [of s ?c "conn i" WD_HEARTBEAT_TIMEOUT_MS] assms(2,4) env name c
    unfolding lib_register_def split_beta by metis
  with holds_peer [OF r(4) peer_sym [OF env(3)]] show ?thesis by blast
qed

lemma test_unregister_call:
  assumes "test_network env" "t_srv env = (\<lambda>i. srv (conn i))"
    and "list_all (\<lambda>i. peer (conn 0) (conn i) \<and> delivers_to (conn i) \<and> newcomer (conn i)) [0 ..< 5]"
    and "holds s (conn 0) (cl_clientID c)" "taken s ''test-client'' (cl_clientID c)" "leaves s (conn 0)" "i < 5"
    and "cl_socket_path c = cl_socket_path WD_TEST_CLIENT_INIT"
  shows "\<exists>s' c'. lib_unregister env i c s = (s', WD_CLIENT_OK, c') \<and> vacant s' ''test-client'' \<and> leaves s' = leaves s"
proof -
  note env = test_conditions [OF assms(1,3,7)]
  have "cl_socket_path WD_TEST_CLIENT_INIT \<noteq> []" by (simp add: WD_TEST_CLIENT_INIT_def)
  with visit_ends [OF assms(4-6) env(3,4), of "fst (t_net env i (cl_socket_path c))"] env(1) assms(2,8) show ?thesis
    unfolding lib_unregister_def by metis
qed

lemma first_test:
  assumes "test_network env" "t_srv env = (\<lambda>i. srv (conn i))"
    and "list_all (\<lambda>i. peer (conn 0) (conn i) \<and> delivers_to (conn i) \<and> newcomer (conn i)) [0 ..< 5]"
    and "vacant s ''test-client''" "leaves s (conn 0)"
  shows "\<exists>s'. test_wd_client_register env s = (s', Inr ''test_wd_client_register passed\<newline>'') \<and>
    vacant s' ''test-client'' \<and> leaves s' = leaves s"
proof -
  from test_register_call [OF assms(1-4), of 0] obtain s1 c1 where
    "lib_register env 0 WD_TEST_CLIENT_INIT WD_HEARTBEAT_TIMEOUT_MS False s = (s1, WD_CLIENT_OK, c1)" "cl_clientID c1 \<noteq> []"
    "cl_socket_path c1 = cl_socket_path WD_TEST_CLIENT_INIT" "holds s1 (conn 0) (cl_clientID c1)"
    "taken s1 ''test-client'' (cl_clientID c1)" "leaves s1 = leaves s" by auto
  with test_unregister_call [OF assms(1-3), of s1 c1 1] assms(5) show ?thesis
    by (auto simp: test_wd_client_register_def ASSERT_WITH_STATUS_def)
qed

lemma second_test:
  assumes "test_network env" "t_srv env = (\<lambda>i. srv (conn i))"
    and "list_all (\<lambda>i. peer (conn 0) (conn i) \<and> delivers_to (conn i) \<and> newcomer (conn i)) [0 ..< 5]"
    and "vacant s ''test-client''" "leaves s (conn 0)"
  shows "\<exists>s'. test_wd_client_ping env s = (s', Inr ''test_wd_client_ping passed\<newline>'') \<and> vacant s' ''test-client''"
proof -
  note env = test_conditions [OF assms(1,3), of 3, simplified]
  from test_register_call [OF assms(1-4), of 2] obtain s1 c1 where r:
    "lib_register env 2 WD_TEST_CLIENT_INIT WD_HEARTBEAT_TIMEOUT_MS False s = (s1, WD_CLIENT_OK, c1)" "cl_clientID c1 \<noteq> []"
    "cl_socket_path c1 = cl_socket_path WD_TEST_CLIENT_INIT" "holds s1 (conn 0) (cl_clientID c1)"
    "taken s1 ''test-client'' (cl_clientID c1)" "leaves s1 = leaves s" by auto
  note h = holds_peer [OF r(4) env(3)]
  have "cl_socket_path c1 \<noteq> []" using r(3) by (simp add: WD_TEST_CLIENT_INIT_def)
  from ping_ok [OF h env(4) _ this] ping_keeps [OF r(5) h env(4)] env(1) r assms(2)
  obtain s2 c2 where p: "lib_ping env 3 c1 s1 = (s2, WD_CLIENT_OK, c2)" "cl_clientID c2 = cl_clientID c1"
    "cl_socket_path c2 = cl_socket_path WD_TEST_CLIENT_INIT" "holds s2 (conn 3) (cl_clientID c2)"
    "taken s2 ''test-client'' (cl_clientID c2)" "leaves s2 = leaves s"
    unfolding lib_ping_def by metis
  from test_unregister_call [OF assms(1-3) holds_peer [OF p(4) peer_sym [OF env(3)]] p(5), of 4] p(3,6) assms(5) r(1,2) p(1)
  show ?thesis by (auto simp: test_wd_client_ping_def ASSERT_WITH_STATUS_def)
qed

lemma tests_pass:
  assumes "test_network env" "t_srv env = (\<lambda>i. srv (conn i))"
    and "list_all (\<lambda>i. peer (conn 0) (conn i) \<and> delivers_to (conn i) \<and> newcomer (conn i)) [0 ..< 5]"
    and "vacant s ''test-client''" "leaves s (conn 0)"
  shows "\<exists>s'. test_main env s = (s', Inr all_passed) \<and> vacant s' ''test-client''"
proof -
  from first_test [OF assms] obtain s1 where s1: "test_wd_client_register env s = (s1, Inr ''test_wd_client_register passed\<newline>'')"
    "vacant s1 ''test-client''" "leaves s1 = leaves s" by blast
  with second_test [OF assms(1-3) s1(2)] assms(5) obtain s2 where
    "test_wd_client_ping env s1 = (s2, Inr ''test_wd_client_ping passed\<newline>'')" "vacant s2 ''test-client''" by auto
  with s1(1) no_socket_call [OF assms(1)] show ?thesis
    by (simp add: test_main_def client_tests_def all_passed_def refused_calls)
qed

end

section \<open>The broker is such a service\<close>

text \<open>
  \<open>ks\<close> are the connections that may register, so that the identifiers they draw can be required to be
  unused. Clients must not be strict: an announced slot is gone once its client has left.
\<close>

definition broker_vacant :: "build_config \<Rightarrow> conn list \<Rightarrow> broker \<Rightarrow> string \<Rightarrow> bool" where
  "broker_vacant bc ks b nm \<longleftrightarrow>
     broker_ok bc b \<and> ids_ok (clients b) \<and> \<not> strict_clients (config b) \<and>
     slot_for (config b) (clients b) nm \<noteq> None \<and> list_all (\<lambda>k. fresh_id k b) ks"

definition others_apart :: "conn list \<Rightarrow> broker \<Rightarrow> string \<Rightarrow> nat \<Rightarrow> bool" where
  "others_apart ks b nm i \<longleftrightarrow>
     (\<forall>j < length (clients b). j \<noteq> i \<longrightarrow>
        (unique_clients (config b) \<and> active (clients b ! j) \<longrightarrow> name (clients b ! j) \<noteq> nm) \<and>
        (live (clients b ! j) \<longrightarrow> list_all (\<lambda>k. clientID (clients b ! j) \<noteq> make_clientID (rnd k)) ks))"

definition broker_taken :: "build_config \<Rightarrow> conn list \<Rightarrow> broker \<Rightarrow> string \<Rightarrow> string \<Rightarrow> bool" where
  "broker_taken bc ks b nm cid \<longleftrightarrow>
     broker_ok bc b \<and> ids_ok (clients b) \<and> \<not> strict_clients (config b) \<and>
     (\<exists>i < length (clients b). live (clients b ! i) \<and> clientID (clients b ! i) = cid \<and> others_apart ks b nm i)"

lemma broker_server_ok: "broker_ok bc b \<Longrightarrow> broker_ok bc (fst (broker_server bc k b p))"
  by (simp add: broker_server_def split_beta commands.step_inv)

lemma fresh_id_others: "fresh_id k b \<longleftrightarrow> (\<forall>j < length (clients b). live (clients b ! j) \<longrightarrow> clientID (clients b ! j) \<noteq> make_clientID (rnd k))"
  by (force simp: fresh_id_def live_ids_def in_set_conv_nth)

lemma broker_register_takes:
  assumes "broker_vacant bc ks b nm" "broker_grants bc b k nm tmo chk cid"
  shows "broker_taken bc ks (fst (broker_server bc k b (register_line nm tmo chk))) nm cid"
  using assms(2)
proof (rule broker_register_effect)
  fix cr i
  let ?b = "b\<lparr>clients := upd_at i (register_slot k cr nm tmo chk) (clients b)\<rparr>"
  assume i: "slot_for (config b) (clients b) nm = Some i"
    and eff: "broker_server bc k b (register_line nm tmo chk) = (?b, Read_packet (''OK '' @ cid @ ''\<newline>''))"
    and cid: "clientID (register_slot k cr nm tmo chk (clients b ! i)) = cid"
  note slot = slot_forD(1,2) [OF i]
  have "broker_ok bc ?b" using broker_server_ok [of bc b k "register_line nm tmo chk"] eff assms(1) by (simp add: broker_vacant_def)
  moreover have "ids_ok (clients ?b)" using ids_ok_register [OF _ slot, of k] assms(2) by (simp add: broker_grants_def)
  moreover have "others_apart ks ?b nm i"
    using assms(1) slot_forD(5) [OF i] by (auto simp: others_apart_def broker_vacant_def list_all_iff fresh_id_others)
  ultimately show ?thesis
    using assms(1) slot cid eff unfolding broker_taken_def by (auto simp: broker_vacant_def intro!: exI [of _ i])
qed

lemma broker_ping_keeps:
  assumes "broker_taken bc ks b nm cid" "broker_holds bc b k cid" "reachable_peer bc k"
  shows "broker_taken bc ks (fst (broker_server bc k b (CMD_PING @ cid @ ''\<newline>''))) nm cid"
  using assms(2)
proof (rule broker_holdsE)
  fix cr i
  let ?b = "b\<lparr>clients := upd_at i (\<lambda>c. c\<lparr>last_ping := now k\<rparr>) (clients b)\<rparr>"
  assume h: "ids_ok (clients b)" "peercred k = Some cr" "i < length (clients b)" "live (clients b ! i)"
    "clientID (clients b ! i) = cid" "owns cr (clients b ! i)" "id_ok cid"
  note eff = broker_ping_effect [OF assms(3) h]
  have "broker_ok bc ?b"
    using broker_server_ok [of bc b k "CMD_PING @ cid @ ''\<newline>''"] eff assms(1) by (simp add: broker_taken_def)
  moreover from assms(1) obtain j where "j < length (clients b)" "live (clients b ! j)" "clientID (clients b ! j) = cid"
    "others_apart ks b nm j" by (auto simp: broker_taken_def)
  then have "j < length (clients ?b) \<and> live (clients ?b ! j) \<and> clientID (clients ?b ! j) = cid \<and> others_apart ks ?b nm j"
    by (auto simp: others_apart_def live_def)
  ultimately show ?thesis
    using assms(1) ids_ok_ping [OF h(1,3)] eff unfolding broker_taken_def by auto
qed

lemma broker_unregister_vacates:
  assumes "broker_taken bc ks b nm cid" "broker_holds bc b k cid" "broker_leaves b k" "reachable_peer bc k"
  shows "broker_vacant bc ks (fst (broker_server bc k b (CMD_UNREGISTER @ cid @ ''\<newline>''))) nm \<and>
    broker_leaves (fst (broker_server bc k b (CMD_UNREGISTER @ cid @ ''\<newline>''))) = broker_leaves b"
  using assms(2)
proof (rule broker_holdsE)
  fix cr i
  let ?b = "b\<lparr>clients := upd_at i release_slot (clients b)\<rparr>"
  assume h: "ids_ok (clients b)" "peercred k = Some cr" "i < length (clients b)" "live (clients b ! i)"
    "clientID (clients b ! i) = cid" "owns cr (clients b ! i)" "id_ok cid"
  note eff = broker_unregister_effect [OF assms(4) h assms(3)]
  from assms(1) obtain j where j: "j < length (clients b)" "live (clients b ! j)" "clientID (clients b ! j) = cid" "others_apart ks b nm j"
    by (auto simp: broker_taken_def)
  then have "j = i" using h distinct_map_filterD [of clientID live "clients b" j i] by (simp add: ids_ok_def live_ids_def)
  with j(4) have apart: "others_apart ks b nm i" by simp
  have rel: "\<not> live (clients ?b ! i)" "\<not> active (clients ?b ! i)" using h(3) by (simp_all add: release_slot_def live_def)
  have "broker_ok bc ?b"
    using broker_server_ok [of bc b k "CMD_UNREGISTER @ cid @ ''\<newline>''"] eff assms(1) by (simp add: broker_taken_def)
  moreover have "ids_ok (clients ?b)"
    using h(1,3) unfolding ids_ok_def live_ids_def
    by (auto simp: release_slot_def live_def intro!: distinct_map_filter_upd_at list_all_upd_at)
  moreover have "fresh_id l ?b" if "l \<in> set ks" for l
    using apart rel that by (auto simp: fresh_id_others others_apart_def list_all_iff)
  moreover have "slot_for (config ?b) (clients ?b) nm \<noteq> None"
  proof -
    have "clients ?b ! i \<in> set (clients ?b)" using h(3) by (intro nth_mem) simp
    moreover have "free_slot (clients ?b ! i)" using h(3) by (simp add: free_slot_def release_slot_def)
    ultimately obtain f where "find_index free_slot (clients ?b) = Some f"
      using find_index_None [of free_slot "clients ?b"] by (metis not_None_eq)
    moreover have "\<not> (unique_clients (config ?b) \<and> (\<exists>c \<in> set (clients ?b). active c \<and> name c = nm))"
      using apart by (auto simp: others_apart_def in_set_conv_nth release_slot_def split: if_splits) blast
    ultimately show ?thesis using assms(1) by (auto simp: slot_for_def broker_taken_def split: option.splits)
  qed
  ultimately show ?thesis
    using eff assms(1) by (simp add: broker_vacant_def broker_taken_def list_all_iff broker_leaves_def fun_eq_iff)
qed

interpretation lasting: reusable_service "broker_server bc" "reachable_peer bc" same_peer "broker_grants bc"
    "broker_holds bc" broker_leaves "broker_vacant bc ks" "broker_taken bc ks" "\<lambda>k. k \<in> set ks" for bc ks
proof
  show "broker_vacant bc ks s nm \<Longrightarrow> e \<in> set ks \<Longrightarrow> reachable_peer bc e \<Longrightarrow> word_ok nm \<Longrightarrow> length nm \<le> 63 \<Longrightarrow>
      list_all isprint nm \<Longrightarrow> timeout_ok tmo \<Longrightarrow> \<exists>cid. broker_grants bc s e nm tmo chk cid" for s nm e tmo chk
    by (auto simp: broker_vacant_def broker_grants_def list_all_iff)
qed (simp_all only: broker_register_takes broker_ping_keeps broker_unregister_vacates simp_thms)

section \<open>Properties\<close>

definition test_conn :: "nat \<Rightarrow> conn" where
  "test_conn i = (sample_conn 77 1000 [])\<lparr>rnd := (rnd (sample_conn 77 1000 []))\<lparr>urandom := Some [1, 2, 3, 4, 5, 6, 7, word_of_nat i]\<rparr>\<rparr>"

definition sample_test_env :: "broker test_env" where
  "sample_test_env =
     \<lparr>t_srv = (\<lambda>i. broker_server sample_build (test_conn i)),
      t_net = (\<lambda>i p. if p = NO_SOCKET then (sample_net\<lparr>connect_ok := False\<rparr>, sample_net) else (sample_net, sample_net))\<rparr>"

text \<open>
  C25. The repository's own test of the client library passes against a broker that does not have
  strict clients (under strict clients its registration or its unregistration is refused and the first test fails): if the
  broker has a place for a client of the name test-client, its connections work and draw
  unused identifiers, and nothing listens on the path the last test uses, then wd-client-test runs all
  its seven tests, no assertion fails, it prints its success messages, and afterwards the broker has a
  place for the test client again.
\<close>

theorem client_test_passes:
  assumes "broker_vacant bc (map conn [0 ..< 5]) b ''test-client''" "test_network env"
    and "t_srv env = (\<lambda>i. broker_server bc (conn i))"
    and "list_all (\<lambda>i. same_peer (conn 0) (conn i) \<and> reachable_peer bc (conn i)) [0 ..< 5]"
  shows "\<exists>b'. test_main env b = (b', Inr all_passed) \<and> broker_vacant bc (map conn [0 ..< 5]) b' ''test-client''"
proof (rule lasting.tests_pass)
  show "list_all (\<lambda>i. same_peer (conn 0) (conn i) \<and> reachable_peer bc (conn i) \<and> conn i \<in> set (map conn [0 ..< 5])) [0 ..< 5]"
    using assms(4) by (simp add: list_all_iff)
  show "broker_leaves b (conn 0)"
    using assms(1,4) by (auto simp: broker_leaves_def broker_vacant_def reachable_peer_def list_all_iff)
qed (use assms in simp_all)

theorem client_test_passes_witness:
  "snd (test_main sample_test_env (sample_broker False False)) = Inr all_passed"
proof -
  let ?b = "sample_broker False False"
  have "ids_ok (clients ?b)" "\<not> strict_clients (config ?b)" "slot_for (config ?b) (clients ?b) ''test-client'' \<noteq> None"
    "list_all (\<lambda>k. fresh_id k ?b) (map test_conn [0 ..< 5])" by code_simp+
  then have "broker_vacant sample_build (map test_conn [0 ..< 5]) ?b ''test-client''"
    using sample_broker_ok by (simp only: broker_vacant_def simp_thms)
  moreover have "test_network sample_test_env" by code_simp
  moreover have "list_all (\<lambda>i. same_peer (test_conn 0) (test_conn i) \<and> reachable_peer sample_build (test_conn i)) [0 ..< 5]"
    by code_simp
  ultimately show ?thesis
    using client_test_passes [of sample_build test_conn "sample_broker False False" sample_test_env]
    by (auto simp: sample_test_env_def)
qed

end
