(* ===== verification/Client_Success.thy ===== *)
theory Client_Success
  imports Client_Broker
begin

text \<open>
  What a success the library reports means at the broker: an answer that starts with OK is written
  only after the change it stands for.
\<close>

section \<open>Answers of the broker\<close>

text \<open>What an answer that starts with OK means.\<close>

lemma ping_ok_reply:
  assumes "replies (snd (handle_ping k cr (CMD_PING @ s) b)) = r # rs" "strncmp_eq r ''OK'' 2"
  obtains cid i where "clientID_arg s = Inr cid"
    "find_index (\<lambda>d. live d \<and> take 16 (clientID d) = take 16 cid) (clients b) = Some i" "owns cr (clients b ! i)"
    "fst (handle_ping k cr (CMD_PING @ s) b) = b\<lparr>clients := upd_at i (\<lambda>c. c\<lparr>last_ping := now k\<rparr>) (clients b)\<rparr>"
proof (cases "clientID_arg s")
  case (Inl msg)
  then have "take 2 msg = ''ER''" by (auto simp: clientID_arg_def split: list.splits if_splits)
  with Inl assms show thesis
    by (auto simp: handle_ping_def parse_clientID_arg write_str_def strncmp_eq_def split: if_splits)
next
  case (Inr cid)
  note ping = assms [unfolded handle_ping_def parse_clientID_arg get_clientInstance_by_clientID_def write_str_def
      strncmp_eq_def Inr sum.case]
  obtain i where i: "find_index (\<lambda>d. live d \<and> take 16 (clientID d) = take 16 cid) (clients b) = Some i"
    using ping by (cases "find_index (\<lambda>d. live d \<and> take 16 (clientID d) = take 16 cid) (clients b)")
      (auto simp del: find_index_None split: if_splits)
  from ping show thesis
    by (intro that [OF Inr i])
      (auto simp: i owns_def handle_ping_def parse_clientID_arg get_clientInstance_by_clientID_def strncmp_eq_def Inr
        split: if_splits)
qed

text \<open>An argument of at most 16 characters is accepted only if it is the identifier itself.\<close>

lemma clientID_arg_short:
  assumes "clientID_arg (x @ ''\<newline>'') = Inr cid" "length x \<le> 16"
  shows "cid = map tolower x \<and> length cid = 16"
proof -
  from assms(1) obtain t where t: "tokens (x @ ''\<newline>'') = [t]" "length t = 16" "cid = map tolower t"
    by (auto simp: clientID_arg_def split: list.splits if_splits)
  from t(1) obtain r where r: "dropWhile isspace (x @ ''\<newline>'') = t @ r" "word_ok t" by (rule tokens_ConsE)
  define p where "p = takeWhile isspace (x @ ''\<newline>'')"
  have split: "x @ ''\<newline>'' = p @ t @ r" unfolding p_def r(1) [symmetric] by simp
  have "r \<noteq> []"
  proof
    assume "r = []"
    with split t(2) have "last t = CHR 0x0A" by (metis append.right_neutral last_appendR last_snoc length_0_conv zero_neq_numeral)
    moreover have "last t \<in> set t" using t(2) by (intro last_in_set) auto
    ultimately show False using r(2) isspace_blank(2) by (metis word_ok_def list_all_iff)
  qed
  moreover from arg_cong [OF split, of length] t(2) assms(2) have "length p + length r \<le> 1" by simp
  ultimately have "p = []" "length r = 1" by (cases r; simp)+
  with split t(2,3) show ?thesis by simp
qed

lemma error_reply: "replies (write_str k (''ERROR'' @ m) @ [Log p l]) = r # rs \<Longrightarrow> \<not> strncmp_eq r ''OK'' 2"
  by (auto simp: write_str_def strncmp_eq_def split: if_splits)

text \<open>The answer a client reads is the beginning of the broker's reply.\<close>

lemma broker_answer:
  assumes "transact (broker_server bc k) n p bufsize b = Some (b', len, resp)" "0 < len"
  obtains r rs where "b' = fst (handle_command bc (with_packet p k) b)"
    "replies (snd (handle_command bc (with_packet p k) b)) = r # rs" "resp = cstr (take (bufsize - 1) r)"
proof -
  let ?h = "handle_command bc (with_packet p k) b"
  from assms(1) have b': "b' = fst ?h" by (auto simp: transact_def broker_server_def split: prod.splits if_splits)
  show thesis
  proof (cases "replies (snd ?h)")
    case Nil
    with assms show thesis
      by (auto simp: transact_def broker_server_def read_with_timeout_def split: prod.splits if_splits select_result.splits)
  next
    case (Cons r rs)
    with assms have "resp = cstr (take (bufsize - 1) r)"
      by (auto simp: transact_def broker_server_def read_with_timeout_def Let_def split: prod.splits if_splits select_result.splits)
    with b' Cons show thesis by (rule that)
  qed
qed

lemma answer_prefix:
  "strncmp_eq (cstr (take n r)) ''OK'' 2 \<Longrightarrow> strncmp_eq r ''OK'' 2"
  by (cases r; cases "tl r"; cases n; cases "n - 1") (auto simp: strncmp_eq_def cstr_def split: if_splits)

lemma nameless_peer:
  assumes "peercred k = None" "replies (snd (handle_command bc k b)) = r # rs"
  shows "\<not> strncmp_eq r ''OK'' 2"
  using assms error_reply [of k "'' reading peercred\<newline>''"] by (auto simp: handle_command_def)

section \<open>Heartbeats\<close>

text \<open>
  C28. The library does not report a heartbeat that did not happen: whenever wd_client_ping returns
  WD_CLIENT_OK against the broker, the first live client under the identifier in the caller's structure
  (compared in lower case, by its 16 characters) got the new heartbeat and nothing else in the broker
  changed. The policy lets the caller do that: the client belongs to the calling process, or it has no
  PID check, as one that registered with ignorepid or was announced and has not registered yet.
\<close>

theorem ping_success_is_recorded:
  assumes "wd_client_ping (broker_server bc k) n c b = (b', WD_CLIENT_OK, c')"
    and "length (cl_clientID c) \<le> 16" "NUL \<notin> set (cl_clientID c)"
  shows "\<exists>cr i. peercred k = Some cr \<and>
    find_index (\<lambda>d. live d \<and> take 16 (clientID d) = map tolower (cl_clientID c)) (clients b) = Some i \<and>
    (checkPID (clients b ! i) \<longrightarrow> pid (clients b ! i) = cr_pid cr) \<and>
    b' = b\<lparr>clients := upd_at i (\<lambda>c. c\<lparr>last_ping := now k\<rparr>) (clients b)\<rparr>"
proof -
  let ?s = "cl_clientID c @ ''\<newline>''"
  let ?k = "with_packet (CMD_PING @ ?s) k"
  have cmd: "snprintf 64 (CMD_PING @ ?s) = CMD_PING @ ?s" using assms(2) by (simp add: snprintf_def CMD_PING_def)
  from ping_OK [OF assms(1)] cmd obtain len resp where
    tr: "transact (broker_server bc k) n (CMD_PING @ ?s) 64 b = Some (b', len, resp)" and ok: "0 < len" "strncmp_eq resp ''OK'' 2"
    by auto
  from tr ok(1) obtain r rs where b': "b' = fst (handle_command bc ?k b)"
    and r: "replies (snd (handle_command bc ?k b)) = r # rs" "resp = cstr (take (64 - 1) r)" by (rule broker_answer)
  have OK: "strncmp_eq r ''OK'' 2" using ok(2) unfolding r(2) by (rule answer_prefix)
  with nameless_peer [OF _ r(1)] obtain cr where cr: "peercred k = Some cr" by fastforce
  have "delivers ?k cr (CMD_PING @ ?s)"
    using assms(2,3) cr by (intro delivers_with_packet) (auto simp: CMD_PING_def NUL_def)
  then have hc: "handle_command bc ?k b = handle_ping ?k cr (CMD_PING @ ?s) b"
    by (simp add: handle_command_delivers dispatch_cmd)
  from r(1) [unfolded hc] OK obtain cid i where i: "clientID_arg ?s = Inr cid"
    "find_index (\<lambda>d. live d \<and> take 16 (clientID d) = take 16 cid) (clients b) = Some i" "owns cr (clients b ! i)"
    "fst (handle_ping ?k cr (CMD_PING @ ?s) b) = b\<lparr>clients := upd_at i (\<lambda>c. c\<lparr>last_ping := now ?k\<rparr>) (clients b)\<rparr>"
    by (rule ping_ok_reply)
  have "take 16 cid = map tolower (cl_clientID c)" using clientID_arg_short [OF i(1) assms(2)] assms(2) by simp
  with i(2-4) hc b' cr show ?thesis by (auto simp: owns_def)
qed

theorem ping_success_is_recorded_witness:
  "clients (fst (wd_client_ping (broker_server sample_build (sample_conn 4711 1000 [])) sample_net
     (sample_lib ''beta'' ''00000000000000BB'') (sample_broker False False))) =
     upd_at 1 (\<lambda>c. c\<lparr>last_ping := \<lparr>tv_sec = 70, tv_nsec = 5\<rparr>\<rparr>) sample_clients"
proof -
  let ?r = "wd_client_ping (broker_server sample_build (sample_conn 4711 1000 [])) sample_net
     (sample_lib ''beta'' ''00000000000000BB'') (sample_broker False False)"
  have "fst (snd ?r) = WD_CLIENT_OK" by code_simp
  then have "?r = (fst ?r, WD_CLIENT_OK, snd (snd ?r))" by (metis prod.collapse)
  from ping_success_is_recorded [OF this] obtain i where i:
    "find_index (\<lambda>d. live d \<and> take 16 (clientID d) = map tolower ''00000000000000BB'') (clients (sample_broker False False)) = Some i"
    "fst ?r = (sample_broker False False)\<lparr>clients := upd_at i (\<lambda>c. c\<lparr>last_ping := now (sample_conn 4711 1000 [])\<rparr>)
       (clients (sample_broker False False))\<rparr>"
    by (auto simp: sample_lib_def NUL_def)
  have "find_index (\<lambda>d. live d \<and> take 16 (clientID d) = map tolower ''00000000000000BB'') (clients (sample_broker False False)) = Some 1"
    by code_simp
  with i show ?thesis by (simp add: sample_conn_def sample_broker_def)
qed

text \<open>
  An announced client that has not registered can be kept alive by any process that knows its
  identifier.
\<close>

lemma announced_client_pinged_by_stranger:
  "anounced (clients (sample_broker False False) ! 0)" "clientID (clients (sample_broker False False) ! 0) = ''00000000000000aa''"
  "fst (snd (wd_client_ping (broker_server sample_build (sample_conn 99 1000 [])) sample_net
     (sample_lib ''x'' ''00000000000000aa'') (sample_broker False False))) = WD_CLIENT_OK"
  by code_simp+

section \<open>Registrations\<close>

lemma register_OK:
  assumes "wd_client_register srv n1 n2 c tmo ign s = (s', WD_CLIENT_OK, c')"
  obtains s1 c1 len resp where "timeout_ok tmo" "wd_client_check_prot_version srv n1 c s = (s1, WD_CLIENT_OK, c1)"
    "transact srv n2 (snprintf 128 (register_line (cl_name c) tmo (\<not> ign))) 128 s1 = Some (s', len, resp)"
    "0 < len" "strncmp_eq resp ''OK '' 3" "cl_clientID c' = strncpy (drop 3 resp) (WD_CLIENTID_LEN - 1)"
proof -
  obtain s1 r1 c1 where v: "wd_client_check_prot_version srv n1 c s = (s1, r1, c1)"
    by (cases "wd_client_check_prot_version srv n1 c s")
  have conn: "fst (wd_client_connect n2 c1) = Inl e \<Longrightarrow> e \<noteq> WD_CLIENT_OK" for e
    by (auto simp: wd_client_connect_def return_codes split: if_splits)
  obtain u c2 where u: "wd_client_connect n2 c1 = (u, c2)" by (cases "wd_client_connect n2 c1")
  from assms v have r1: "r1 = WD_CLIENT_OK" and tmo: "timeout_ok tmo"
    by (auto simp: wd_client_register_def timeout_ok_iff return_codes split: if_splits)
  from assms v r1 u conn show thesis
    by (cases u; cases "transact srv n2 (snprintf 128 (register_line (cl_name c) tmo (\<not> ign))) 128 s1")
      (auto simp: wd_client_register_def return_codes Let_def WD_SET_STATUS_def split: if_splits
        intro!: that [OF tmo v [unfolded r1]])
qed

text \<open>The version check changes nothing at the broker.\<close>

lemma version_check_reads:
  assumes "wd_client_check_prot_version (broker_server bc k) n c b = (b', r, c')"
  shows "b' = b"
proof -
  let ?k = "with_packet ''VERSION\<newline>'' k"
  have "fst (handle_command bc ?k b) = b"
  proof (cases "peercred k")
    case None
    then show ?thesis by (simp add: handle_command_def)
  next
    case (Some cr)
    then have "delivers ?k cr (CMD_VERSION @ ''\<newline>'')"
      using delivers_with_packet [of k cr "''VERSION\<newline>''"] by (simp add: CMD_VERSION_def NUL_def)
    from handle_command_delivers [OF this, of bc b] show ?thesis
      by (simp add: dispatch_cmd handle_version_def)
  qed
  then have "fst (broker_server bc k b ''VERSION\<newline>'') = b" by (simp add: broker_server_def split_beta)
  with assms show ?thesis
    by (auto simp: wd_client_check_prot_version_def transact_def Let_def split: sum.splits option.splits if_splits prod.splits)
qed

lemma unanswered_register:
  assumes "\<not> reply_ok k"
  shows "replies (snd (handle_register k cr buf b)) = []"
proof -
  have "replies (snd (get_clientInstance_by_name cfg cs nm p)) = []" for cfg cs nm p
    by (auto simp: get_clientInstance_by_name_def split: option.splits if_splits prod.splits)
  then have "get_clientInstance_by_name cfg cs nm p = (s, lg) \<Longrightarrow> replies lg = []" for cfg cs nm p s lg
    by (metis snd_conv)
  with assms show ?thesis
    by (auto simp: handle_register_def write_str_def Let_def split: option.splits prod.splits)
qed

text \<open>A printed name, the only one the broker answers with OK.\<close>

lemma register_ok_reply:
  assumes "delivers k cr (register_line nm tmo chk)" "word_ok nm" "length nm \<le> 63" "timeout_ok tmo"
    and "replies (snd (handle_command bc k b)) = r # rs" "strncmp_eq r ''OK'' 2"
  obtains i where "slot_for (config b) (clients b) nm = Some i"
    "fst (handle_command bc k b) = b\<lparr>clients := upd_at i (register_slot k cr nm tmo chk) (clients b)\<rparr>"
    "r = ''OK '' @ clientID (clients (fst (handle_command bc k b)) ! i) @ ''\<newline>''"
proof -
  have hc: "handle_command bc k b = handle_register k cr (register_line nm tmo chk) b"
    using handle_command_delivers [OF assms(1)] by (simp add: register_line_def dispatch_cmd)
  with assms(5) have rep: "reply_ok k" using unanswered_register [of k cr _ b] by force
  show thesis
  proof (cases "list_all isprint nm")
    case True
    from register_line_effect [OF assms(1) rep assms(2,3) True assms(4), where b = b and bc = bc] assms(5,6) that show thesis
      by (auto simp: strncmp_eq_def split: option.splits)
  next
    case False
    then have "list_ex (\<lambda>c. \<not> isprint c \<or> isspace c) nm" by (auto simp: list_all_iff list_ex_iff)
    with hc assms(4-6) show thesis
      using parse_register_line [OF assms(2,3)] by (auto simp: handle_register_def write_str_def strncmp_eq_def split: if_splits)
  qed
qed

text \<open>The identifier the library stores is the one the broker answered with.\<close>

lemma stored_identifier:
  assumes "id_ok cid"
  shows "strncpy (drop 3 (cstr (take (128 - 1) (''OK '' @ cid @ ''\<newline>'')))) (WD_CLIENTID_LEN - 1) = cid"
proof -
  have "length cid = 16" "NUL \<notin> set cid"
    using assms by (auto simp: id_ok_def list_all_iff isxdigit_def isdigit_def NUL_def)
  then show ?thesis by (simp add: strncpy_def WD_CLIENTID_LEN_def cstr_without_NUL NUL_def)
qed

text \<open>
  C27. The library does not report a registration that did not happen: whenever wd_client_register
  returns WD_CLIENT_OK against the broker, the broker has given the name the slot it is entitled to,
  bound to the calling process with the requested timeout and PID check, changed nothing else, and the
  identifier in the caller's structure is the one of that slot.
\<close>

theorem register_success_is_recorded:
  assumes "wd_client_register (broker_server bc k) n1 n2 c tmo ign b = (b', WD_CLIENT_OK, c')"
    and "broker_ok bc b" "word_ok (cl_name c)" "length (cl_name c) \<le> 63" "NUL \<notin> set (cl_name c)"
  shows "\<exists>cr i. peercred k = Some cr \<and> slot_for (config b) (clients b) (cl_name c) = Some i \<and>
    b' = b\<lparr>clients := upd_at i (register_slot k cr (cl_name c) tmo (\<not> ign)) (clients b)\<rparr> \<and>
    cl_clientID c' = clientID (clients b' ! i)"
proof -
  let ?p = "register_line (cl_name c) tmo (\<not> ign)"
  let ?k = "with_packet ?p k"
  from assms(1) obtain b1 c1 len resp where tmo: "timeout_ok tmo"
    and v: "wd_client_check_prot_version (broker_server bc k) n1 c b = (b1, WD_CLIENT_OK, c1)"
    and tr: "transact (broker_server bc k) n2 (snprintf 128 ?p) 128 b1 = Some (b', len, resp)"
    and ok: "0 < len" "strncmp_eq resp ''OK '' 3" "cl_clientID c' = strncpy (drop 3 resp) (WD_CLIENTID_LEN - 1)"
    by (rule register_OK)
  have short: "length ?p < 128"
    using assms(4) length_show_timeout(1) [OF tmo] by (cases ign) (simp_all add: register_line_def CMD_REGISTER_def)
  then have "transact (broker_server bc k) n2 ?p 128 b = Some (b', len, resp)"
    using tr version_check_reads [OF v] by (simp add: snprintf_def)
  from this ok(1) obtain r rs where b': "b' = fst (handle_command bc ?k b)"
    and r: "replies (snd (handle_command bc ?k b)) = r # rs" "resp = cstr (take (128 - 1) r)" by (rule broker_answer)
  have "strncmp_eq resp ''OK'' 2"
    using ok(2) by (cases resp; cases "tl resp") (auto simp: strncmp_eq_def numeral_3_eq_3)
  then have OK: "strncmp_eq r ''OK'' 2" unfolding r(2) by (rule answer_prefix)
  with nameless_peer [OF _ r(1)] obtain cr where cr: "peercred k = Some cr" by fastforce
  have "NUL \<notin> set ?p"
    using assms(5) show_nat_digits [of NUL "unat tmo"]
    by (auto simp: register_line_def CMD_REGISTER_def NUL_def show_u32_def isdigit_def)
  with short cr have "delivers ?k cr ?p" by (intro delivers_with_packet) (simp_all add: register_line_def CMD_REGISTER_def)
  from this assms(3,4) tmo r(1) OK obtain i where i: "slot_for (config b) (clients b) (cl_name c) = Some i"
    and eff: "fst (handle_command bc ?k b) = b\<lparr>clients := upd_at i (register_slot ?k cr (cl_name c) tmo (\<not> ign)) (clients b)\<rparr>"
    and req: "r = ''OK '' @ clientID (clients (fst (handle_command bc ?k b)) ! i) @ ''\<newline>''" by (rule register_ok_reply)
  have slot: "register_slot ?k = register_slot k" by (simp add: register_slot_def fun_eq_iff)
  have "broker_ok bc b'" using commands.step_inv [OF assms(2)] by (simp add: b')
  moreover have il: "i < length (clients b)" using slot_forD(1) [OF i] .
  ultimately have "id_ok (clientID (clients b' ! i))"
    using table_ok_nth [of "config b'" "clients b'" i] eff b'
    by (simp add: broker_ok_def client_ok_def live_def register_slot_def)
  then have "cl_clientID c' = clientID (clients b' ! i)"
    unfolding ok(3) r(2) req b' by (rule stored_identifier)
  with cr i eff b' slot show ?thesis by auto
qed

theorem register_success_is_recorded_witness:
  "\<exists>i. clients (fst (wd_client_register (broker_server sample_build (sample_conn 7 1000 [])) sample_net sample_net
     (sample_lib ''gamma'' []) 6000 False (sample_broker False True))) =
     upd_at i (register_slot (sample_conn 7 1000 []) \<lparr>cr_pid = 7, cr_uid = 1000\<rparr> ''gamma'' 6000 True) sample_clients"
proof -
  let ?r = "wd_client_register (broker_server sample_build (sample_conn 7 1000 [])) sample_net sample_net
     (sample_lib ''gamma'' []) 6000 False (sample_broker False True)"
  have "fst (snd ?r) = WD_CLIENT_OK" by code_simp
  then have r: "?r = (fst ?r, WD_CLIENT_OK, snd (snd ?r))" by (metis prod.collapse)
  have "word_ok ''gamma''" by code_simp
  then have nm: "word_ok (cl_name (sample_lib ''gamma'' []))" "length (cl_name (sample_lib ''gamma'' [])) \<le> 63"
    "NUL \<notin> set (cl_name (sample_lib ''gamma'' []))" by (simp_all add: sample_lib_def NUL_def)
  from register_success_is_recorded [OF r sample_broker_ok nm] obtain cr i where
    "peercred (sample_conn 7 1000 []) = Some cr"
    "fst ?r = (sample_broker False True)\<lparr>clients := upd_at i (register_slot (sample_conn 7 1000 []) cr ''gamma'' 6000 True)
       (clients (sample_broker False True))\<rparr>"
    by (auto simp: sample_lib_def)
  then show ?thesis by (auto simp: sample_conn_def sample_broker_def)
qed

end
