(* ===== verification/Library_Safety.thy ===== *)
theory Library_Safety
  imports Wd_Client
begin

text \<open>
  What libwd-client guarantees whatever it talks to: the functions return one of their codes, keep the
  caller's structure within its arrays, and change the identifier only when a registration succeeds.
\<close>

section \<open>The caller's structure\<close>

text \<open>Every string of a \<open>wd_client_t\<close> fits its array with the terminator.\<close>

definition struct_ok :: "wd_client_t \<Rightarrow> bool" where
  "struct_ok c \<longleftrightarrow>
     length (cl_socket_path c) < WD_CLIENT_SOCKPATH_LEN \<and> length (cl_name c) < WD_CLIENT_NAME_LEN \<and>
     length (cl_clientID c) < WD_CLIENTID_LEN \<and> length (cl_status c) < WD_CLIENT_STATUS_LEN"

text \<open>Nothing but the status text differs.\<close>

definition same_but_status :: "wd_client_t \<Rightarrow> wd_client_t \<Rightarrow> bool" where
  "same_but_status c c' \<longleftrightarrow> c'\<lparr>cl_status := cl_status c\<rparr> = c \<and> (struct_ok c \<longrightarrow> struct_ok c')"

lemma same_but_status_refl [simp]: "same_but_status c c"
  by (simp add: same_but_status_def)

lemma same_but_status_trans: "same_but_status c d \<Longrightarrow> same_but_status d e \<Longrightarrow> same_but_status c e"
  by (cases c; cases d; cases e) (auto simp: same_but_status_def)

lemma same_but_status_fields:
  "same_but_status c c' \<Longrightarrow> cl_socket_path c' = cl_socket_path c \<and> cl_name c' = cl_name c \<and> cl_clientID c' = cl_clientID c"
  by (cases c; cases c') (auto simp: same_but_status_def)

lemma set_status_same: "same_but_status c d \<Longrightarrow> same_but_status c (WD_SET_STATUS d m)"
  by (cases c; cases d) (auto simp: same_but_status_def WD_SET_STATUS_def struct_ok_def snprintf_def WD_CLIENT_STATUS_LEN_def)

section \<open>The calls\<close>

lemma connect_same:
  "wd_client_connect n c = (r, c') \<Longrightarrow> same_but_status c c' \<and> (\<forall>e. r = Inl e \<longrightarrow> e = WD_CLIENT_EPARAM \<or> e = WD_CLIENT_ERR)"
  by (auto simp: wd_client_connect_def set_status_same split: if_splits)

lemma check_prot_version_same:
  assumes "wd_client_check_prot_version srv n c s = (s', r, c')"
  shows "same_but_status c c' \<and> r \<in> {WD_CLIENT_OK, WD_CLIENT_ERR, WD_CLIENT_EPARAM, WD_CLIENT_EVERSION}"
proof -
  obtain u d where u: "wd_client_connect n c = (u, d)" by (cases "wd_client_connect n c")
  with assms connect_same [OF u] show ?thesis
    by (auto simp: wd_client_check_prot_version_def Let_def set_status_same
        split: sum.splits option.splits if_splits prod.splits)
qed

lemma ping_same:
  assumes "wd_client_ping srv n c s = (s', r, c')"
  shows "same_but_status c c' \<and> r \<in> {WD_CLIENT_OK, WD_CLIENT_ERR, WD_CLIENT_EPARAM, WD_CLIENT_ETIMEOUT}"
proof -
  obtain u d where u: "wd_client_connect n c = (u, d)" by (cases "wd_client_connect n c")
  with assms connect_same [OF u] show ?thesis
    by (auto simp: wd_client_ping_def set_status_same split: sum.splits option.splits if_splits prod.splits)
qed

lemma unregister_same:
  assumes "wd_client_unregister srv n c s = (s', r, c')"
  shows "same_but_status c c' \<and> r \<in> {WD_CLIENT_OK, WD_CLIENT_ERR, WD_CLIENT_EPARAM, WD_CLIENT_ETIMEOUT}"
proof -
  obtain u d where u: "wd_client_connect n c = (u, d)" by (cases "wd_client_connect n c")
  with assms connect_same [OF u] show ?thesis
    by (auto simp: wd_client_unregister_def set_status_same split: sum.splits option.splits if_splits prod.splits)
qed

text \<open>A registration stores at most 16 characters of the reply as the identifier.\<close>

lemma struct_ok_stored: "struct_ok c \<Longrightarrow> struct_ok (WD_SET_STATUS (c\<lparr>cl_clientID := strncpy x (WD_CLIENTID_LEN - Suc 0)\<rparr>) m)"
  by (auto simp: struct_ok_def WD_SET_STATUS_def snprintf_def WD_CLIENT_STATUS_LEN_def WD_CLIENTID_LEN_def strncpy_def)

lemma register_kept:
  assumes "wd_client_register srv n1 n2 c tmo ign s = (s', r, c')"
  shows "r \<in> {WD_CLIENT_OK, WD_CLIENT_ERR, WD_CLIENT_EPARAM, WD_CLIENT_ETIMEOUT, WD_CLIENT_EVERSION} \<and>
    (r \<noteq> WD_CLIENT_OK \<longrightarrow> same_but_status c c') \<and> (struct_ok c \<longrightarrow> struct_ok c') \<and>
    cl_name c' = cl_name c \<and> cl_socket_path c' = cl_socket_path c"
proof -
  obtain s1 r1 c1 where v: "wd_client_check_prot_version srv n1 c s = (s1, r1, c1)"
    by (cases "wd_client_check_prot_version srv n1 c s")
  obtain u c2 where u: "wd_client_connect n2 c1 = (u, c2)" by (cases "wd_client_connect n2 c1")
  have c1: "same_but_status c c1" "r1 \<in> {WD_CLIENT_OK, WD_CLIENT_ERR, WD_CLIENT_EPARAM, WD_CLIENT_EVERSION}"
    using check_prot_version_same [OF v] by simp_all
  have c2: "same_but_status c c2" "\<And>e. u = Inl e \<Longrightarrow> e = WD_CLIENT_EPARAM \<or> e = WD_CLIENT_ERR"
    using same_but_status_trans [OF c1(1)] connect_same [OF u] by simp_all
  have keep: "(struct_ok c \<longrightarrow> struct_ok d) \<and> cl_name d = cl_name c \<and> cl_socket_path d = cl_socket_path c" if "same_but_status c d" for d
    using that same_but_status_fields [OF that] by (simp add: same_but_status_def)
  have "same_but_status c c' \<and> r \<in> {WD_CLIENT_ERR, WD_CLIENT_EPARAM, WD_CLIENT_ETIMEOUT, WD_CLIENT_EVERSION} \<or>
      r = WD_CLIENT_OK \<and> (struct_ok c2 \<longrightarrow> struct_ok c') \<and> cl_name c' = cl_name c2 \<and> cl_socket_path c' = cl_socket_path c2"
    (is "?refused \<or> ?stored")
  proof (cases "cl_name c = [] \<or> tmo < WD_CLIENT_TIMEOUT_MIN_MS \<or> tmo > WD_CLIENT_TIMEOUT_MAX_MS \<or> r1 \<noteq> WD_CLIENT_OK")
    case True
    with assms v c1 show ?thesis by (auto simp: wd_client_register_def set_status_same split: if_splits)
  next
    case False
    note reg = assms [unfolded wd_client_register_def, simplified v u False split_conv if_False simp_thms]
    show ?thesis
    proof (cases u)
      case (Inl e)
      with reg False c2 show ?thesis by auto
    next
      case (Inr x)
      with reg False c2(1) show ?thesis
        by (cases "transact srv n2 (snprintf 128 (register_line (cl_name c) tmo (\<not> ign))) 128 s1")
          (auto simp: set_status_same Let_def struct_ok_stored split: if_splits)
    qed
  qed
  then show ?thesis
  proof
    assume refused: ?refused
    with keep [of c'] have "(struct_ok c \<longrightarrow> struct_ok c') \<and> cl_name c' = cl_name c \<and> cl_socket_path c' = cl_socket_path c" by simp
    with refused show ?thesis by simp
  next
    assume ?stored
    with keep [OF c2(1)] show ?thesis by simp
  qed
qed

section \<open>Property\<close>

text \<open>
  C26. The library is safe against any server: whatever the other end answers and whatever fails, the
  three functions leave the caller's structure within its arrays, keep name and socket path, return
  only codes wd-client.h defines (EVERSION from the registration only), and the identifier changes only in
  a registration that returns WD_CLIENT_OK.
\<close>

theorem library_keeps_structure:
  assumes "struct_ok c"
  shows "(case wd_client_register srv n1 n2 c tmo ign s of (s', r, c') \<Rightarrow>
      struct_ok c' \<and> cl_name c' = cl_name c \<and> cl_socket_path c' = cl_socket_path c \<and>
      (r = WD_CLIENT_OK \<or> cl_clientID c' = cl_clientID c) \<and>
      r \<in> {WD_CLIENT_OK, WD_CLIENT_ERR, WD_CLIENT_EPARAM, WD_CLIENT_ETIMEOUT, WD_CLIENT_EVERSION}) \<and>
    (case wd_client_ping srv n1 c s of (s', r, c') \<Rightarrow>
      struct_ok c' \<and> c'\<lparr>cl_status := cl_status c\<rparr> = c \<and> r \<in> {WD_CLIENT_OK, WD_CLIENT_ERR, WD_CLIENT_EPARAM, WD_CLIENT_ETIMEOUT}) \<and>
    (case wd_client_unregister srv n1 c s of (s', r, c') \<Rightarrow>
      struct_ok c' \<and> c'\<lparr>cl_status := cl_status c\<rparr> = c \<and> r \<in> {WD_CLIENT_OK, WD_CLIENT_ERR, WD_CLIENT_EPARAM, WD_CLIENT_ETIMEOUT})"
proof (intro conjI)
  show "case wd_client_register srv n1 n2 c tmo ign s of (s', r, c') \<Rightarrow>
      struct_ok c' \<and> cl_name c' = cl_name c \<and> cl_socket_path c' = cl_socket_path c \<and>
      (r = WD_CLIENT_OK \<or> cl_clientID c' = cl_clientID c) \<and>
      r \<in> {WD_CLIENT_OK, WD_CLIENT_ERR, WD_CLIENT_EPARAM, WD_CLIENT_ETIMEOUT, WD_CLIENT_EVERSION}"
    using assms by (auto dest!: register_kept dest: same_but_status_fields)
  show "case wd_client_ping srv n1 c s of (s', r, c') \<Rightarrow>
      struct_ok c' \<and> c'\<lparr>cl_status := cl_status c\<rparr> = c \<and> r \<in> {WD_CLIENT_OK, WD_CLIENT_ERR, WD_CLIENT_EPARAM, WD_CLIENT_ETIMEOUT}"
    using assms by (auto dest!: ping_same simp: same_but_status_def)
  show "case wd_client_unregister srv n1 c s of (s', r, c') \<Rightarrow>
      struct_ok c' \<and> c'\<lparr>cl_status := cl_status c\<rparr> = c \<and> r \<in> {WD_CLIENT_OK, WD_CLIENT_ERR, WD_CLIENT_EPARAM, WD_CLIENT_ETIMEOUT}"
    using assms by (auto dest!: unregister_same simp: same_but_status_def)
qed

definition any_net :: net where
  "any_net = \<lparr>socket_ok = True, connect_ok = True, write_ok = True, epipe = False, wait = Select_ready, net_err = []\<rparr>"

theorem library_keeps_structure_witness:
  "case wd_client_register (\<lambda>s p. (Suc s, Read_packet (if s = 0 then ''protocol_version=1.0'' else ''OK '' @ replicate 200 (CHR ''x''))))
      any_net any_net \<lparr>cl_socket_path = ''/run/wd'', cl_name = ''a'', cl_clientID = [], cl_status = []\<rparr> 6000 False 0 of
    (s', r, c') \<Rightarrow> struct_ok c'"
proof -
  let ?c = "\<lparr>cl_socket_path = ''/run/wd'', cl_name = ''a'', cl_clientID = [], cl_status = []\<rparr>"
  have "struct_ok ?c" by code_simp
  from conjunct1 [OF library_keeps_structure [OF this,
      of "\<lambda>s p. (Suc s, Read_packet (if s = 0 then ''protocol_version=1.0'' else ''OK '' @ replicate 200 (CHR ''x'')))"
        any_net any_net 6000 False 0]]
  show ?thesis by (simp only: split_beta simp_thms)
qed

end
