(* ===== verification/Spec2Isabelle.thy ===== *)
theory Spec2Isabelle
  imports Startup_Properties Protocol_Properties Ctrl_Properties Client_Test Client_Success Library_Safety
begin

text \<open>
  A verification library for wd-broker, the watchdog broker in C under src/.

  \<^bold>\<open>The program.\<close> wd-broker (src/src/wd-broker.c) owns /dev/watchdog. Applications register with it over a
  SOCK_SEQPACKET socket, either directly or through libwd-client (src/src/wd-client.c), and send
  heartbeats; clients can be announced in a configuration file. The main loop serves one connection
  per iteration (handle_command), compares every client's last heartbeat with its timeout, and feeds
  the hardware watchdog only while all of them are in time. wd-ctrl (src/src/wd-ctrl.c) is root's
  tool for status, unregistration and the reboot failsafe. src/src/common.c holds the helpers the
  three programs share.

  \<^bold>\<open>Theories.\<close>
  \<^item> Prelude: machine types, array search and update with index loops, distinct keys of live slots, runs
    of a step function, and the locales guarded_machine and invariant_machine (one step keeps an
    invariant, so runs and reachable states do).
  \<^item> C_Library: what the sources use of ctype.h, string.h, strtol, atoi, sscanf and snprintf, as
    functions on character lists with glibc's numeric behaviour; the locale wire_token (a printed
    value is scanned back), interpreted for %u, %d and %s.
  \<^item> Common: src/src/common.c, src/include/common.h and the constants of src/include/wd-client.h.
  \<^item> Logging: log_message, parse_syslog_facility, log_bootstatus.
  \<^item> Client_Table: client_t, wd_config_t, make_clientID, ms_since, get_clientInstance_by_name and
    get_clientInstance_by_clientID, with the invariant table_ok and the reference search slot_for.
  \<^item> Command_Handler: handle_command, one definition per command; the access policy permitted as an
    inductive relation; the interpretation of invariant_machine for sequences of connections.
  \<^item> Broker_Properties: invariant and access control of handle_command; guarded_machine for unprivileged
    peers of a strict broker. Registry: the abstract map from identifiers to clients and the
    refinement of PING and UNREGISTER to it; REGISTER. Status_Report: the report and its buffer.
    Protocol_Properties: replies, argument formats, identifiers, corner cases.
  \<^item> Config_Parser and Config_Properties: trim and parse_config; soundness and round trip.
  \<^item> Main_Loop and Loop_Properties: the loop of main, signal_handler and the exit of the process; when
    the watchdog is fed, starved and stopped; invariant_machine for iterations.
  \<^item> Startup and Startup_Properties: main from its options to the loop, as a sequence of steps that
    perform actions or end the process.
  \<^item> Wd_Client, Client_Service, Client_Broker: the library over an abstract server, its contract with
    the server as the locale watchdog_service with the session lemmas, and the interpretation of the
    contract by handle_command. Client_Success: what a reported success means at the broker.
    Library_Safety: what the library guarantees over any server.
  \<^item> Client_Test: wd-client-test.c, the contract it relies on as the locale reusable_service, which
    extends watchdog_service, and the interpretation of that contract by handle_command.
  \<^item> Wd_Ctrl, Ctrl_Broker and Ctrl_Properties: wd-ctrl, and its commands against the broker.
  \<^item> This theory: properties of the whole process.

  \<^bold>\<open>State and environment.\<close> The C array clients[WD_MAX_CLIENTS] is a list, pointers into it are indices;
  the globals config, running and reboot and the table form the record broker, with all_ok and the
  watchdog handle the record loop_state. A C string is the list of its characters before the NUL;
  unsigned int is a 32 bit word, int is int with the conversions written out. Everything the
  operating system decides is an argument: conn for one connection, iter_env for one iteration,
  start_env and exit_env for the ends of main, section_env for the clock and the randomness of the
  configuration file, net for a client's side of a connection. What the process does to the outside
  is a list of effects (replies, messages) and actions (timer, socket, watchdog, privileges).
  build_config holds the values the build generates into config.h.

  \<^bold>\<open>Errors and loops.\<close> fatal_error and fatal_errno end the process: such functions return a sum with the
  exit_report on the left. Loops over arrays, lines and characters are structural recursion or have
  a termination proof by the length of the rest (config_lines, tokens); there is no fuel. The main
  loop and the wait for the reset may run forever: main_loop consumes a list of iterations of any
  length and says whether it is still looping, and the wait is decided by whether a signal arrives.
  The point where the status report leaves its 4096 byte buffer is the effect Out_of_bounds.

  \<^bold>\<open>What is shown.\<close> Feeding: the watchdog is fed only if no client has missed its deadline, always fed while
  all are in time and the timer fires, never again after a missed deadline, and stopped on no path
  other than the regular exit. Access: every change of the broker is permitted by the policy; foreign
  processes cannot touch a client, strict clients are frozen, only root reboots. Invariants of table
  and configuration hold from the start through every run. Registration, ping and unregistration
  implement their specifications; a signal ends the process. The library stays within its structure
  over any server, works against the broker, reports no success that did not happen, and its test
  program passes against a broker without strict clients. With at most 38 live clients, the number for
  which the status report is sure to fit, wd-ctrl reboot arms the failsafe; if their names also have no
  blanks, unregister releases exactly the client it selects, and without equals signs in them status
  shows every client. The parser accepts only sound configurations and reads a printed one back, for
  names without a closing bracket or an equals sign. Where the code departs from
  its documentation or leaves its buffer, the theorem states what the code does.

  \<^bold>\<open>Not modelled.\<close> The shell tests and the build files. getopt_long is represented by the sequence of
  options it returns, without the messages it prints itself; assert by the message the program prints
  before it; strftime, syslog and the kernel's side of the watchdog by their arguments and actions only. Identifiers are random and
  never compared with those in use, so the statements that need them distinct say so (ids_ok,
  fresh_id). NULL client pointers of the library are left out.
\<close>

section \<open>The whole process\<close>

lemma startup_never_disarms: "\<not> list_ex disarms (fst (startup bc env opts))"
proof -
  have "\<not> list_ex disarms (fst (check_service_user env opts))" "\<not> list_ex disarms (fst (check_config_file env opts pw))"
    "\<not> list_ex disarms (fst (start_timer env c))" "\<not> list_ex disarms (fst (remove_stale_socket env c))"
    "\<not> list_ex disarms (fst (create_socket env pw c))" "\<not> list_ex disarms (fst (open_watchdog env opts c))"
    "\<not> list_ex disarms (fst (drop_privileges env pw))" "\<not> list_ex disarms (fst (daemonize_process env opts))"
    "\<not> list_ex disarms (fst (read_config bc env opts))" for pw c
    by (auto simp: check_service_user_def check_config_file_def start_timer_def remove_stale_socket_def
        create_socket_def open_watchdog_def drop_privileges_def daemonize_process_def read_config_def
        Let_def proc_simps disarms_def split: option.splits)
  moreover have "\<not> list_ex disarms (map Out es)" for es by (auto simp: list_ex_iff disarms_def)
  ultimately show ?thesis
    by (auto simp: startup_def prepare_def and_then_fst split: sum.splits)
qed

lemma options_never_disarm: "\<not> list_ex disarms (fst (parse_options bc argv opts))"
  by (induction argv arbitrary: opts) (auto simp: disarms_def split: option_event.splits sum.splits)

text \<open>
  C4. From the command line to the end of the process, every state of the broker is well-formed: the
  state the start hands to the main loop, and every state the loop reaches from it, whatever clients,
  signals and failures occur, satisfies the invariant of the client table and keeps the configuration
  in its documented ranges.
\<close>

theorem process_invariant:
  assumes "startup bc env opts = (as, Inr st0)" "length (SOCKET_PATH_DEFAULT bc) < WD_CLIENT_SOCKPATH_LEN"
    and "snd (main_loop bc es st0) = Looping st \<or> snd (main_loop bc es st0) = Finished st"
  shows "broker_ok bc (bk st) \<and> config_ok (config (bk st)) \<and> watchdog_open st = watchdog_enabled opts"
proof -
  from assms(1) obtain c cs where c:
    "parse_config bc (sections env) (config_file opts) (fopen env (config_file opts)) = Inr (c, cs)"
    "st0 = \<lparr>bk = start_broker c cs, all_ok = True, watchdog_open = watchdog_enabled opts\<rparr>"
    by (rule startup_Inr)
  note ok = parse_config_ok(1,3) [OF c(1) assms(2)]
  have "loop_ok bc c (watchdog_enabled opts) st0" using ok(2) c(2) by (simp add: loop_ok_def start_broker_def)
  moreover from main_loop_run [OF assms(3)] obtain es' where
    "st = run (\<lambda>st e. case snd (iteration bc e st) of Inr st' \<Rightarrow> st' | Inl _ \<Rightarrow> st) st0 es'" ..
  ultimately have "loop_ok bc c (watchdog_enabled opts) st" using loop.run_inv by blast
  with ok(1) show ?thesis by (simp add: loop_ok_def)
qed

theorem process_invariant_witness:
  "\<exists>st0. snd (startup sample_build (sample_env ''[client alpha]\<newline>'') (default_options sample_build)) = Inr st0 \<and>
     (\<exists>st. snd (main_loop sample_build [sample_iter (Some (sample_conn 9 1000 ''REGISTER alpha 5000\<newline>'')) 71] st0) = Looping st \<and>
        broker_ok sample_build (bk st))"
proof -
  let ?r = "startup sample_build (sample_env ''[client alpha]\<newline>'') (default_options sample_build)"
  let ?es = "[sample_iter (Some (sample_conn 9 1000 ''REGISTER alpha 5000\<newline>'')) 71]"
  have "case snd ?r of Inl _ \<Rightarrow> False
      | Inr st0 \<Rightarrow> (case snd (main_loop sample_build ?es st0) of Looping _ \<Rightarrow> True | _ \<Rightarrow> False)" by code_simp
  then obtain st0 st where st: "snd ?r = Inr st0" "snd (main_loop sample_build ?es st0) = Looping st"
    by (auto split: sum.splits loop_result.splits)
  then have "?r = (fst ?r, Inr st0)" by (metis prod.collapse)
  moreover have "length (SOCKET_PATH_DEFAULT sample_build) < WD_CLIENT_SOCKPATH_LEN" by code_simp
  ultimately have "broker_ok sample_build (bk st)" using process_invariant st(2) by blast
  with st show ?thesis by blast
qed

text \<open>
  C20. Once armed, the hardware watchdog is stopped by the regular end of the process only: if any run
  of wd-broker, from its command line on, performs one of the two stopping accesses, then its start
  succeeded, its main loop was left in a state without a reboot request, and its exit status is 0.
  Every failure, in the start, in the loop or while rebooting, leaves the watchdog running.
\<close>

theorem process_stops_watchdog_only_at_exit:
  assumes "main bc argv env es x = (as, c)" "list_ex disarms as"
  shows "c = Some 0 \<and> (\<exists>opts st st'. snd (parse_options bc argv (default_options bc)) = Inr opts \<and>
    snd (startup bc env opts) = Inr st \<and> snd (main_loop bc es st) = Finished st' \<and>
    watchdog_open st' \<and> \<not> reboot (bk st'))"
proof -
  let ?p = "and_then (open_descriptors env) (\<lambda>_. and_then (parse_options bc argv (default_options bc)) (startup bc env))"
  have "\<not> list_ex disarms (fst ?p)"
    using options_never_disarm startup_never_disarms
    by (auto simp: and_then_fst open_descriptors_def disarms_def split: sum.splits)
  with assms obtain st where "snd ?p = Inr st"
    and dis: "list_ex disarms (fst (serve bc es x st))" and c: "c = snd (serve bc es x st)"
    by (auto simp: main_def split: sum.splits prod.splits)
  then obtain opts where "snd (parse_options bc argv (default_options bc)) = Inr opts" "snd (startup bc env opts) = Inr st"
    by (auto simp: and_then_snd open_descriptors_def split: sum.splits)
  with serve_disarms [OF prod.collapse [symmetric] dis] c show ?thesis by simp
qed

theorem process_stops_watchdog_only_at_exit_witness:
  "snd (main sample_build [] (sample_env []) [(sample_iter None 61)\<lparr>sig := Some 15\<rparr>] (sample_exit None)) = Some 0"
proof -
  have "list_ex disarms (fst (main sample_build [] (sample_env []) [(sample_iter None 61)\<lparr>sig := Some 15\<rparr>] (sample_exit None)))"
    by code_simp
  from process_stops_watchdog_only_at_exit [OF prod.collapse [symmetric] this] show ?thesis by (rule conjunct1)
qed

end
